(* ===== verification/Prelude.thy ===== *)
theory Prelude
  imports Main "HOL-Library.List_Lexorder" "HOL-Library.Char_ord" "HOL-Library.Product_Lexorder"
begin

text \<open>
  Shared vocabulary of the development: the Python exceptions the core can raise, the
  result type \<open>py_error + 'a\<close> with its bind, Python dictionaries as insertion-ordered
  association lists (the \<open>defaultdict\<close> update of \<open>get_stats\<close>), and the generic list
  lemmas on sorted suffixes that the worked-dates proofs of \<open>Calculator\<close> use.
\<close>

named_theorems result_simps "evaluation rules for computations in the result type"

section \<open>Exceptions as values\<close>

datatype py_error = ValueError | KeyError | IndexError | OverflowError | TypeError

type_synonym 'a result = "py_error + 'a"

fun rbind :: "'a result \<Rightarrow> ('a \<Rightarrow> 'b result) \<Rightarrow> 'b result" where
  "rbind (Inl e) f = Inl e"
| "rbind (Inr a) f = f a"

declare rbind.simps [result_simps]

text \<open>A loop that appends one result per element and stops at the first exception.\<close>

fun map_result :: "('a \<Rightarrow> 'b result) \<Rightarrow> 'a list \<Rightarrow> 'b list result" where
  "map_result f [] = Inr []"
| "map_result f (x # xs) = rbind (f x) (\<lambda>y. rbind (map_result f xs) (\<lambda>ys. Inr (y # ys)))"

text \<open>\<open>xs[i]\<close> for \<open>i \<ge> 0\<close>: \<open>IndexError\<close> out of range.\<close>

definition py_index :: "'a list \<Rightarrow> nat \<Rightarrow> 'a result" where
  "py_index xs i = (if i < length xs then Inr (xs ! i) else Inl IndexError)"

section \<open>Python dictionaries as association lists\<close>

text \<open>
  A Python \<open>dict\<close> keeps its keys unique and in insertion order; it is an association
  list whose keys are distinct. \<open>d[k] = f(d[k])\<close> on a \<open>defaultdict\<close> updates the entry
  in place when the key is present and appends \<open>(k, f default)\<close> otherwise.
\<close>

type_synonym ('k, 'v) pydict = "('k \<times> 'v) list"

fun dict_update_with :: "'k \<Rightarrow> ('v \<Rightarrow> 'v) \<Rightarrow> 'v \<Rightarrow> ('k, 'v) pydict \<Rightarrow> ('k, 'v) pydict" where
  "dict_update_with k f d [] = [(k, f d)]"
| "dict_update_with k f d ((k', v) # kvs) =
     (if k' = k then (k', f v) # kvs else (k', v) # dict_update_with k f d kvs)"

text \<open>\<open>d[k]\<close>: \<open>KeyError\<close> for a missing key.\<close>

definition py_getitem :: "('k, 'v) pydict \<Rightarrow> 'k \<Rightarrow> 'v result" where
  "py_getitem kvs k = (case map_of kvs k of Some v \<Rightarrow> Inr v | None \<Rightarrow> Inl KeyError)"

text \<open>\<open>d[k] = v\<close>.\<close>

definition py_setitem :: "'k \<Rightarrow> 'v \<Rightarrow> ('k, 'v) pydict \<Rightarrow> ('k, 'v) pydict" where
  "py_setitem k v kvs = dict_update_with k (\<lambda>_. v) v kvs"

text \<open>The keys of a dictionary filled from a sequence of keys, in insertion order: each
  key where it first occurs.\<close>

definition unique_in_order :: "'a list \<Rightarrow> 'a list" where
  "unique_in_order xs = rev (remdups (rev xs))"

section \<open>Lemmas\<close>

subsection \<open>The result type\<close>

lemma rbind_eq_Inr [simp]:
  "rbind m f = Inr b \<longleftrightarrow> (\<exists>a. m = Inr a \<and> f a = Inr b)"
  by (cases m) auto

lemma rbind_Inr_right [simp]: "rbind m Inr = m"
  by (cases m) auto

lemma rbind_assoc [simp]: "rbind (rbind m f) g = rbind m (\<lambda>x. rbind (f x) g)"
  by (cases m) auto

lemma map_result_Inr_length:
  "map_result f xs = Inr ys \<Longrightarrow> length ys = length xs"
  by (induction xs arbitrary: ys) auto

lemma map_result_Inr_set:
  "map_result f xs = Inr ys \<Longrightarrow> y \<in> set ys \<Longrightarrow> \<exists>x \<in> set xs. f x = Inr y"
  by (induction xs arbitrary: ys) auto

lemma map_result_all_Inr:
  "(\<And>x. x \<in> set xs \<Longrightarrow> \<exists>y. f x = Inr y) \<Longrightarrow> \<exists>ys. map_result f xs = Inr ys"
  by (induction xs) fastforce+

subsection \<open>Dictionary update\<close>

lemma map_of_dict_update_with [simp]:
  "map_of (dict_update_with k f d kvs) =
     (map_of kvs)(k \<mapsto> f (case map_of kvs k of None \<Rightarrow> d | Some v \<Rightarrow> v))"
  by (induction kvs) (auto simp: fun_eq_iff)

lemma keys_dict_update_with [simp]:
  "fst ` set (dict_update_with k f d kvs) = insert k (fst ` set kvs)"
  by (induction k f d kvs rule: dict_update_with.induct) auto

lemma distinct_dict_update_with [simp]:
  "distinct (map fst kvs) \<Longrightarrow> distinct (map fst (dict_update_with k f d kvs))"
  by (induction k f d kvs rule: dict_update_with.induct) auto

lemma length_dict_update_with:
  "length (dict_update_with k f d kvs) = (if k \<in> fst ` set kvs then length kvs else Suc (length kvs))"
  by (induction k f d kvs rule: dict_update_with.induct) auto

lemma map_of_py_setitem [simp]: "map_of (py_setitem k v kvs) = (map_of kvs)(k \<mapsto> v)"
  by (simp add: py_setitem_def)

lemma map_replace_absent:
  "k \<notin> fst ` set kvs \<Longrightarrow> map (\<lambda>(k', w). (k', if k' = k then v else w)) kvs = kvs"
  by (induction kvs) auto

lemma py_setitem_present:
  "distinct (map fst kvs) \<Longrightarrow> k \<in> fst ` set kvs \<Longrightarrow>
   py_setitem k v kvs = map (\<lambda>(k', w). (k', if k' = k then v else w)) kvs"
  by (induction kvs) (force simp: py_setitem_def map_replace_absent)+

lemma py_setitem_absent:
  "k \<notin> fst ` set kvs \<Longrightarrow> py_setitem k v kvs = kvs @ [(k, v)]"
  by (induction kvs) (auto simp: py_setitem_def)

lemma set_py_setitem: "set (py_setitem k v kvs) \<subseteq> insert (k, v) (set kvs)"
  by (induction kvs) (auto simp: py_setitem_def split: if_splits)

lemma unique_in_order_Nil [simp]: "unique_in_order [] = []"
  by (simp add: unique_in_order_def)

lemma unique_in_order_Cons:
  "unique_in_order (x # xs) = x # unique_in_order (filter (\<lambda>y. y \<noteq> x) xs)"
proof -
  have "remdups (ys @ [x]) = remdups (filter (\<lambda>y. y \<noteq> x) ys) @ [x]" for ys
    by (induction ys) auto
  then show ?thesis by (simp add: unique_in_order_def rev_filter)
qed

lemma set_unique_in_order [simp]: "set (unique_in_order xs) = set xs"
  by (simp add: unique_in_order_def)

lemma distinct_unique_in_order [simp]: "distinct (unique_in_order xs)"
  by (simp add: unique_in_order_def)

subsection \<open>Suffixes of sorted lists\<close>

text \<open>
  \<open>sorted(xs, reverse=True)[:k]\<close> followed by \<open>reverse()\<close> is the suffix of length
  \<open>k\<close> of the ascending list: the \<open>k\<close> largest elements.
\<close>

lemma rev_take_rev: "rev (take k (rev xs)) = drop (length xs - k) xs"
  by (simp add: rev_take)

lemma drop_mem_if_few_larger:
  fixes xs :: "'a::linorder list"
  assumes "sorted_wrt (<) xs" and "x \<in> set xs"
    and "card {y \<in> set xs. x \<le> y} \<le> k"
  shows "x \<in> set (drop (length xs - k) xs)"
proof -
  obtain i where i: "i < length xs" "xs ! i = x"
    using assms(2) by (auto simp: in_set_conv_nth)
  have "{y \<in> set xs. x \<le> y} = (\<lambda>j. xs ! j) ` {i..<length xs}"
  proof (intro equalityI subsetI)
    fix y assume "y \<in> {y \<in> set xs. x \<le> y}"
    then obtain j where j: "j < length xs" "xs ! j = y" "x \<le> y"
      by (auto simp: in_set_conv_nth)
    have "i \<le> j"
    proof (rule ccontr)
      assume "\<not> i \<le> j"
      then have "xs ! j < xs ! i" using assms(1) i(1) by (simp add: sorted_wrt_nth_less)
      with i(2) j(2,3) show False by (simp add: leD)
    qed
    with j(1,2) show "y \<in> (\<lambda>j. xs ! j) ` {i..<length xs}" by auto
  next
    fix y assume "y \<in> (\<lambda>j. xs ! j) ` {i..<length xs}"
    then obtain j where j: "i \<le> j" "j < length xs" "y = xs ! j" by auto
    have "x \<le> y"
    proof (cases "i = j")
      case False
      with j have "xs ! i < xs ! j" using assms(1) by (simp add: sorted_wrt_nth_less)
      with i(2) j(3) show ?thesis by simp
    qed (use i j in simp)
    with j(2,3) show "y \<in> {y \<in> set xs. x \<le> y}" by simp
  qed
  moreover have "inj_on (\<lambda>j. xs ! j) {i..<length xs}"
  proof -
    have "distinct xs" using assms(1) by (simp add: strict_sorted_iff)
    then show ?thesis by (simp add: inj_on_def nth_eq_iff_index_eq)
  qed
  ultimately have "length xs - i \<le> k"
    using assms(3) by (simp add: card_image)
  then have "length xs - k \<le> i" by simp
  then have "xs ! i = drop (length xs - k) xs ! (i - (length xs - k))"
    using i(1) by simp
  moreover have "i - (length xs - k) < length (drop (length xs - k) xs)"
    using i(1) \<open>length xs - k \<le> i\<close> by simp
  ultimately show ?thesis
    using i(2) nth_mem by metis
qed

end
