(* ===== verification/Py_Strings.thy ===== *)
theory Py_Strings
  imports Prelude
begin

text \<open>
  The Python string operations the program applies to dates and numbers, as HOL
  functions on \<open>string\<close> (ASCII): \<open>str.split\<close> with a one-character separator,
  \<open>int()\<close> on a decimal string, \<open>str()\<close> of an integer, \<open>str.zfill\<close> and the
  \<open>%0Nd\<close> formatting that \<open>date.__str__\<close> uses. The lemmas are the round trips
  (\<open>int(str(n)) = n\<close>, \<open>int\<close> of a zero-padded string) and the fact that the
  lexicographic order of equal-length digit strings is the numeric order, which is what
  makes \<open>sorted()\<close> on ISO date strings chronological.
\<close>

section \<open>Definitions\<close>

text \<open>\<open>s.split(c)\<close>: never empty; an empty piece for every separator at an end.\<close>

fun str_split :: "char \<Rightarrow> string \<Rightarrow> string list" where
  "str_split c [] = [[]]"
| "str_split c (x # xs) =
     (if x = c then [] # str_split c xs
      else (case str_split c xs of [] \<Rightarrow> [[x]] | w # ws \<Rightarrow> (x # w) # ws))"

definition is_digit :: "char \<Rightarrow> bool" where
  "is_digit c \<longleftrightarrow> CHR ''0'' \<le> c \<and> c \<le> CHR ''9''"

definition digit_val :: "char \<Rightarrow> nat" where
  "digit_val c = of_char c - 48"

definition digit_char :: "nat \<Rightarrow> char" where
  "digit_char n = char_of (48 + n)"

definition nat_of_digits :: "string \<Rightarrow> nat" where
  "nat_of_digits cs = foldl (\<lambda>n c. 10 * n + digit_val c) 0 cs"

text \<open>
  \<open>int(s)\<close>: an optional sign and at least one decimal digit, otherwise
  \<open>ValueError\<close>. (Python also strips surrounding whitespace and accepts \<open>_\<close>
  between digits; no string of this program has either.)
\<close>

definition py_int :: "string \<Rightarrow> int result" where
  "py_int s =
     (let (neg, ds) = (case s of
                         c # cs \<Rightarrow> if c = CHR ''-'' then (True, cs)
                                   else if c = CHR ''+'' then (False, cs) else (False, s)
                       | [] \<Rightarrow> (False, []))
      in if ds \<noteq> [] \<and> list_all is_digit ds
         then Inr (if neg then - int (nat_of_digits ds) else int (nat_of_digits ds))
         else Inl ValueError)"

fun digits10 :: "nat \<Rightarrow> nat list" where
  "digits10 n = (if n < 10 then [n] else digits10 (n div 10) @ [n mod 10])"

declare digits10.simps [simp del]

text \<open>\<open>str(n)\<close> of a Python int.\<close>

definition str_of_nat :: "nat \<Rightarrow> string" where
  "str_of_nat n = map digit_char (digits10 n)"

definition str_of_int :: "int \<Rightarrow> string" where
  "str_of_int i = (if i < 0 then CHR ''-'' # str_of_nat (nat (- i)) else str_of_nat (nat i))"

text \<open>\<open>s.zfill(w)\<close>: pad with zeros on the left, after a leading sign.\<close>

definition zfill :: "nat \<Rightarrow> string \<Rightarrow> string" where
  "zfill w s =
     (if w \<le> length s then s
      else (let fill = replicate (w - length s) CHR ''0'' in
            case s of
              [] \<Rightarrow> fill
            | c # cs \<Rightarrow> if c = CHR ''+'' \<or> c = CHR ''-'' then c # fill @ cs else fill @ s))"

text \<open>\<open>'%0wd' % n\<close> for \<open>n \<ge> 0\<close>, as in \<open>date.__str__\<close>.\<close>

definition pad_zeros :: "nat \<Rightarrow> nat \<Rightarrow> string" where
  "pad_zeros w n = replicate (w - length (str_of_nat n)) CHR ''0'' @ str_of_nat n"

section \<open>Lemmas\<close>

subsection \<open>Digits\<close>

lemma digit_char_digit [simp]: "d < 10 \<Longrightarrow> is_digit (digit_char d)"
  by (simp add: is_digit_def digit_char_def less_eq_char_def)

lemma digit_val_digit_char [simp]: "d < 10 \<Longrightarrow> digit_val (digit_char d) = d"
  by (simp add: digit_val_def digit_char_def)

lemma digit_val_lt: "is_digit c \<Longrightarrow> digit_val c < 10"
proof -
  assume "is_digit c"
  then have "of_char c \<le> (57::nat)" by (simp add: is_digit_def less_eq_char_def)
  then show ?thesis by (simp add: digit_val_def)
qed

lemma is_digit_less_iff:
  "is_digit c \<Longrightarrow> is_digit d \<Longrightarrow> c < d \<longleftrightarrow> digit_val c < digit_val d"
  by (auto simp: is_digit_def digit_val_def less_eq_char_def less_char_def)

lemma is_digit_eq_iff:
  "is_digit c \<Longrightarrow> is_digit d \<Longrightarrow> c = d \<longleftrightarrow> digit_val c = digit_val d"
  by (metis is_digit_less_iff less_irrefl linorder_neqE_nat not_less_iff_gr_or_eq)

lemma is_digit_zero [simp]: "is_digit CHR ''0''" and digit_val_zero [simp]: "digit_val CHR ''0'' = 0"
  by (simp_all add: is_digit_def digit_val_def)

lemma digits_not_sep:
  "list_all is_digit s \<Longrightarrow> \<not> is_digit c \<Longrightarrow> c \<notin> set s"
  by (auto simp: list_all_iff)

subsection \<open>split\<close>

lemma str_split_no_sep: "c \<notin> set xs \<Longrightarrow> str_split c xs = [xs]"
  by (induction xs) auto

lemma str_split_append_sep:
  "c \<notin> set xs \<Longrightarrow> str_split c (xs @ c # ys) = xs # str_split c ys"
proof (induction xs)
  case Nil
  then show ?case by simp
next
  case (Cons x xs)
  then show ?case by auto
qed

subsection \<open>Digit strings\<close>

lemma foldl_digits_acc:
  "foldl (\<lambda>n c. 10 * n + digit_val c) a cs = a * 10 ^ length cs + nat_of_digits cs"
proof (induction cs arbitrary: a)
  case Nil
  then show ?case by (simp add: nat_of_digits_def)
next
  case (Cons c cs)
  have "foldl (\<lambda>n c. 10 * n + digit_val c) (10 * a + digit_val c) cs
        = (10 * a + digit_val c) * 10 ^ length cs + nat_of_digits cs" by (rule Cons.IH)
  moreover have "nat_of_digits (c # cs) = digit_val c * 10 ^ length cs + nat_of_digits cs"
    using Cons.IH [of "digit_val c"] by (simp add: nat_of_digits_def)
  ultimately show ?case by (simp add: algebra_simps)
qed

lemma nat_of_digits_Cons:
  "nat_of_digits (c # cs) = digit_val c * 10 ^ length cs + nat_of_digits cs"
  using foldl_digits_acc [of "digit_val c" cs] by (simp add: nat_of_digits_def)

lemma nat_of_digits_append:
  "nat_of_digits (xs @ ys) = nat_of_digits xs * 10 ^ length ys + nat_of_digits ys"
  using foldl_digits_acc [of "nat_of_digits xs" ys] by (simp add: nat_of_digits_def)

lemma nat_of_digits_zeros [simp]: "nat_of_digits (replicate k CHR ''0'' @ s) = nat_of_digits s"
  by (induction k) (simp_all add: nat_of_digits_Cons)

lemma nat_of_digits_bound:
  "list_all is_digit cs \<Longrightarrow> nat_of_digits cs < 10 ^ length cs"
proof (induction cs)
  case Nil
  then show ?case by (simp add: nat_of_digits_def)
next
  case (Cons c cs)
  then have "digit_val c \<le> 9" "nat_of_digits cs < 10 ^ length cs"
    using digit_val_lt by force+
  then have "digit_val c * 10 ^ length cs + nat_of_digits cs < 9 * 10 ^ length cs + 10 ^ length cs"
    by (meson add_le_less_mono mult_le_mono1)
  then show ?case by (simp add: nat_of_digits_Cons)
qed

text \<open>Equal-length digit strings compare lexicographically as their values do.\<close>

lemma digits_less_iff:
  "length xs = length ys \<Longrightarrow> list_all is_digit xs \<Longrightarrow> list_all is_digit ys \<Longrightarrow>
   xs < ys \<longleftrightarrow> nat_of_digits xs < nat_of_digits ys"
proof (induction xs ys rule: list_induct2)
  case Nil
  then show ?case by simp
next
  case (Cons x xs y ys)
  let ?p = "10 ^ length xs :: nat"
  have dx: "list_all is_digit xs" "list_all is_digit ys"
    using Cons.prems by simp_all
  have bx: "nat_of_digits xs < ?p"
    using dx(1) by (rule nat_of_digits_bound)
  have "nat_of_digits ys < ?p"
    using nat_of_digits_bound [OF dx(2)] Cons.hyps(1) by simp
  have "digit_val x * ?p + nat_of_digits xs < digit_val y * ?p + nat_of_digits ys
        \<longleftrightarrow> digit_val x < digit_val y \<or> (digit_val x = digit_val y \<and> nat_of_digits xs < nat_of_digits ys)"
  proof
    assume lt: "digit_val x * ?p + nat_of_digits xs < digit_val y * ?p + nat_of_digits ys"
    show "digit_val x < digit_val y \<or> (digit_val x = digit_val y \<and> nat_of_digits xs < nat_of_digits ys)"
    proof (rule ccontr)
      assume "\<not> ?thesis"
      then consider "digit_val y < digit_val x" | "digit_val x = digit_val y" "nat_of_digits ys \<le> nat_of_digits xs"
        by linarith
      then show False
      proof cases
        case 1
        then have "digit_val y * ?p + ?p \<le> digit_val x * ?p"
          by (metis Suc_leI mult_Suc mult_le_mono1 add.commute)
        then show False using lt \<open>nat_of_digits ys < ?p\<close> by linarith
      next
        case 2
        then show False using lt by simp
      qed
    qed
  next
    assume "digit_val x < digit_val y \<or> (digit_val x = digit_val y \<and> nat_of_digits xs < nat_of_digits ys)"
    then show "digit_val x * ?p + nat_of_digits xs < digit_val y * ?p + nat_of_digits ys"
    proof
      assume "digit_val x < digit_val y"
      then have "digit_val x * ?p + ?p \<le> digit_val y * ?p"
        by (metis Suc_leI mult_Suc mult_le_mono1 add.commute)
      then show ?thesis using bx by linarith
    qed simp
  qed
  then show ?case
    using Cons bx by (simp add: nat_of_digits_Cons is_digit_less_iff is_digit_eq_iff Cons_less_Cons)
qed

lemma digits_eq_iff:
  "length xs = length ys \<Longrightarrow> list_all is_digit xs \<Longrightarrow> list_all is_digit ys \<Longrightarrow>
   xs = ys \<longleftrightarrow> nat_of_digits xs = nat_of_digits ys"
  by (metis digits_less_iff less_irrefl linorder_neqE_nat neq_iff)

subsection \<open>str() and int()\<close>

lemma digits10_lt: "d \<in> set (digits10 n) \<Longrightarrow> d < 10"
  by (induction n rule: digits10.induct) (subst (asm) digits10.simps, auto split: if_splits)

lemma digits10_nonempty [simp]: "digits10 n \<noteq> []"
  by (subst digits10.simps) simp

lemma str_of_nat_digits [simp]: "list_all is_digit (str_of_nat n)"
  by (auto simp: str_of_nat_def list_all_iff digits10_lt)

lemma str_of_nat_nonempty [simp]: "str_of_nat n \<noteq> []"
  by (simp add: str_of_nat_def)

lemma nat_of_digits_str_of_nat [simp]: "nat_of_digits (str_of_nat n) = n"
proof (induction n rule: digits10.induct)
  case (1 n)
  show ?case
  proof (cases "n < 10")
    case True
    then show ?thesis by (simp add: str_of_nat_def digits10.simps nat_of_digits_def)
  next
    case False
    then have "str_of_nat n = str_of_nat (n div 10) @ [digit_char (n mod 10)]"
      by (simp add: str_of_nat_def digits10.simps [of n])
    with False "1.IH" show ?thesis by (simp add: nat_of_digits_append nat_of_digits_def)
  qed
qed

lemma length_str_of_nat_le: "n < 10 ^ w \<Longrightarrow> 0 < w \<Longrightarrow> length (str_of_nat n) \<le> w"
proof (induction n arbitrary: w rule: digits10.induct)
  case (1 n)
  show ?case
  proof (cases "n < 10")
    case True
    with "1.prems" show ?thesis by (simp add: str_of_nat_def digits10.simps)
  next
    case False
    then obtain v where v: "w = Suc v" using "1.prems" by (cases w) auto
    with "1.prems" have "n div 10 < 10 ^ v"
      by (simp add: less_mult_imp_div_less mult.commute)
    moreover have "0 < v"
      using False "1.prems" v by (cases v) auto
    ultimately have "length (str_of_nat (n div 10)) \<le> v" using False "1.IH" by blast
    with False v show ?thesis by (simp add: str_of_nat_def digits10.simps [of n])
  qed
qed

lemma zeros_digits [simp]: "list_all is_digit (replicate k CHR ''0'')"
  by (induction k) simp_all

lemma pad_zeros_digits [simp]: "list_all is_digit (pad_zeros w n)"
  by (simp add: pad_zeros_def)

lemma nat_of_digits_pad_zeros [simp]: "nat_of_digits (pad_zeros w n) = n"
  by (simp add: pad_zeros_def)

lemma length_pad_zeros: "n < 10 ^ w \<Longrightarrow> 0 < w \<Longrightarrow> length (pad_zeros w n) = w"
  using length_str_of_nat_le [of n w] by (simp add: pad_zeros_def)

lemma pad_zeros_nonempty [simp]: "0 < w \<Longrightarrow> pad_zeros w n \<noteq> []"
  by (simp add: pad_zeros_def)

lemma py_int_digits:
  "s \<noteq> [] \<Longrightarrow> list_all is_digit s \<Longrightarrow> py_int s = Inr (int (nat_of_digits s))"
proof (cases s)
  case (Cons c cs)
  moreover assume "list_all is_digit s"
  moreover have "\<not> is_digit CHR ''-''" "\<not> is_digit CHR ''+''"
    by (simp_all add: is_digit_def less_eq_char_def)
  ultimately show ?thesis by (auto simp: py_int_def)
qed simp

lemma py_int_str_of_nat [simp]: "py_int (str_of_nat n) = Inr (int n)"
  by (simp add: py_int_digits)

lemma py_int_pad_zeros [simp]: "0 < w \<Longrightarrow> py_int (pad_zeros w n) = Inr (int n)"
  by (simp add: py_int_digits)

lemma py_int_str_of_int [simp]: "py_int (str_of_int i) = Inr i"
proof (cases "i < 0")
  case True
  obtain c cs where cs: "str_of_nat (nat (- i)) = c # cs" by (cases "str_of_nat (nat (- i))") auto
  moreover have "list_all is_digit (c # cs)" "nat_of_digits (c # cs) = nat (- i)"
    using str_of_nat_digits [of "nat (- i)"] nat_of_digits_str_of_nat [of "nat (- i)"]
    by (simp_all only: cs)
  ultimately show ?thesis
    using True by (simp add: str_of_int_def py_int_def)
next
  case False
  then show ?thesis by (simp add: str_of_int_def)
qed

lemma zfill_long: "w \<le> length s \<Longrightarrow> zfill w s = s"
  by (simp add: zfill_def)

subsection \<open>Order of padded numbers\<close>

lemma append_less_append_iff:
  "length xs = length ys \<Longrightarrow> (xs @ us < ys @ vs) \<longleftrightarrow> xs < ys \<or> (xs = ys \<and> us < vs)"
  by (induction xs ys rule: list_induct2) auto

lemma pad_zeros_less_iff:
  "n < 10 ^ w \<Longrightarrow> m < 10 ^ w \<Longrightarrow> 0 < w \<Longrightarrow> pad_zeros w n < pad_zeros w m \<longleftrightarrow> n < m"
  by (simp add: digits_less_iff length_pad_zeros)

lemma pad_zeros_eq_iff:
  "n < 10 ^ w \<Longrightarrow> m < 10 ^ w \<Longrightarrow> 0 < w \<Longrightarrow> pad_zeros w n = pad_zeros w m \<longleftrightarrow> n = m"
  by (metis nat_of_digits_pad_zeros)

lemma not_digit_sep [simp]: "\<not> is_digit CHR ''-''" "\<not> is_digit CHR ''/''" "\<not> is_digit CHR '' ''" "\<not> is_digit CHR '':''"
  by (simp_all add: is_digit_def less_eq_char_def)


subsection \<open>Evaluation on literals\<close>

lemma digit_char_simps:
  "digit_char 0 = CHR ''0''" "digit_char 1 = CHR ''1''" "digit_char 2 = CHR ''2''"
  "digit_char 3 = CHR ''3''" "digit_char 4 = CHR ''4''" "digit_char 5 = CHR ''5''"
  "digit_char 6 = CHR ''6''" "digit_char 7 = CHR ''7''" "digit_char 8 = CHR ''8''"
  "digit_char 9 = CHR ''9''" "digit_char (Suc 0) = CHR ''1''"
  by (simp_all add: digit_char_def) code_simp+

lemmas str_of_nat_eval = pad_zeros_def str_of_nat_def digits10.simps digit_char_simps

end
