(* ===== verification/Calendar.thy ===== *)
theory Calendar
  imports Py_Strings
begin

text \<open>
  The part of Python's \<open>datetime\<close> module the program calls, modelled after the pure
  Python implementation of the standard library (\<open>Lib/_pydatetime.py\<close>): a \<open>date\<close>
  with its range check, the proleptic Gregorian ordinal \<open>toordinal()\<close>,
  \<open>weekday()\<close>, subtraction of a \<open>timedelta\<close> of whole days, \<open>replace(day=1)\<close> and
  \<open>str(date)\<close>. Dates are ordered as Python orders them, by (year, month, day).
  The lemmas show that \<open>toordinal\<close> is an order embedding of the valid dates, that
  subtracting \<open>k\<close> days lowers the ordinal by exactly \<open>k\<close> (so the model computes
  what \<open>fromordinal(toordinal() - k)\<close> computes), and that the order of the strings
  \<open>str(date)\<close> is the order of the dates.
\<close>

section \<open>Definitions\<close>

datatype date = Date (year: nat) (month: nat) (day: nat)

instantiation date :: linorder
begin

definition less_eq_date :: "date \<Rightarrow> date \<Rightarrow> bool" where
  "d \<le> e \<longleftrightarrow> (year d, month d, day d) \<le> (year e, month e, day e)"

definition less_date :: "date \<Rightarrow> date \<Rightarrow> bool" where
  "d < e \<longleftrightarrow> (year d, month d, day d) < (year e, month e, day e)"

instance
proof
  fix d e f :: date
  show "d < e \<longleftrightarrow> d \<le> e \<and> \<not> e \<le> d"
    by (auto simp: less_eq_date_def less_date_def)
  show "d \<le> d" by (simp add: less_eq_date_def)
  show "d \<le> e \<Longrightarrow> e \<le> f \<Longrightarrow> d \<le> f"
    by (auto simp: less_eq_date_def)
  show "d \<le> e \<Longrightarrow> e \<le> d \<Longrightarrow> d = e"
    by (cases d; cases e) (auto simp: less_eq_date_def)
  show "d \<le> e \<or> e \<le> d"
    by (auto simp: less_eq_date_def)
qed

end

definition is_leap :: "nat \<Rightarrow> bool" where
  "is_leap y \<longleftrightarrow> y mod 4 = 0 \<and> (y mod 100 \<noteq> 0 \<or> y mod 400 = 0)"

text \<open>\<open>_DAYS_IN_MONTH\<close> and \<open>_DAYS_BEFORE_MONTH\<close>, indexed by the month 1..12.\<close>

definition days_in_month :: "nat \<Rightarrow> nat \<Rightarrow> nat" where
  "days_in_month y m =
     (if m = 2 \<and> is_leap y then 29
      else [0, 31, 28, 31, 30, 31, 30, 31, 31, 30, 31, 30, 31] ! m)"

definition days_before_month :: "nat \<Rightarrow> nat \<Rightarrow> nat" where
  "days_before_month y m =
     [0, 0, 31, 59, 90, 120, 151, 181, 212, 243, 273, 304, 334] ! m
     + (if 2 < m \<and> is_leap y then 1 else 0)"

definition days_before_year :: "nat \<Rightarrow> nat" where
  "days_before_year yr = (let y = yr - 1 in y * 365 + y div 4 - y div 100 + y div 400)"

definition toordinal :: "date \<Rightarrow> nat" where
  "toordinal d = days_before_year (year d) + days_before_month (year d) (month d) + day d"

definition weekday :: "date \<Rightarrow> nat" where
  "weekday d = (toordinal d + 6) mod 7"

text \<open>\<open>_check_date_fields\<close>: the constructor \<open>date(year, month, day)\<close>.\<close>

definition valid_date :: "date \<Rightarrow> bool" where
  "valid_date d \<longleftrightarrow>
     1 \<le> year d \<and> year d \<le> 9999 \<and> 1 \<le> month d \<and> month d \<le> 12 \<and>
     1 \<le> day d \<and> day d \<le> days_in_month (year d) (month d)"

definition mk_date :: "int \<Rightarrow> int \<Rightarrow> int \<Rightarrow> date result" where
  "mk_date y m d =
     (if \<not> (1 \<le> y \<and> y \<le> 9999) then Inl ValueError
      else if \<not> (1 \<le> m \<and> m \<le> 12) then Inl ValueError
      else if \<not> (1 \<le> d \<and> d \<le> int (days_in_month (nat y) (nat m))) then Inl ValueError
      else Inr (Date (nat y) (nat m) (nat d)))"

text \<open>
  \<open>date - timedelta(days=k)\<close> is \<open>fromordinal(toordinal() - k)\<close>, or
  \<open>OverflowError\<close> below 0001-01-01. The model steps back one day at a time; the
  lemmas below show it lands on the date whose ordinal is \<open>toordinal() - k\<close>.
\<close>

definition prev_day :: "date \<Rightarrow> date result" where
  "prev_day d =
     (if 1 < day d then Inr (Date (year d) (month d) (day d - 1))
      else if 1 < month d then Inr (Date (year d) (month d - 1) (days_in_month (year d) (month d - 1)))
      else if 1 < year d then Inr (Date (year d - 1) 12 31)
      else Inl OverflowError)"

text \<open>\<open>d + timedelta(days=1)\<close>: \<open>OverflowError\<close> after 9999-12-31.\<close>

definition next_day :: "date \<Rightarrow> date result" where
  "next_day d =
     (if day d < days_in_month (year d) (month d) then Inr (Date (year d) (month d) (day d + 1))
      else if month d < 12 then Inr (Date (year d) (month d + 1) 1)
      else if year d < 9999 then Inr (Date (year d + 1) 1 1)
      else Inl OverflowError)"

fun sub_days :: "date \<Rightarrow> nat \<Rightarrow> date result" where
  "sub_days d 0 = Inr d"
| "sub_days d (Suc k) = rbind (prev_day d) (\<lambda>e. sub_days e k)"

text \<open>\<open>d.replace(day=1)\<close>.\<close>

definition first_of_month :: "date \<Rightarrow> date" where
  "first_of_month d = Date (year d) (month d) 1"

text \<open>\<open>str(d)\<close>, that is \<open>d.isoformat()\<close>: \<open>'%04d-%02d-%02d'\<close>.\<close>

definition date_str :: "date \<Rightarrow> string" where
  "date_str d = pad_zeros 4 (year d) @ ''-'' @ pad_zeros 2 (month d) @ ''-'' @ pad_zeros 2 (day d)"

text \<open>Length of a year, and the dates from \<open>k\<close> days before \<open>d\<close> up to \<open>d\<close>; \<open>week_of d\<close>
  is Monday of the week of \<open>d\<close> up to \<open>d\<close>: the week window the reports are about.\<close>

definition year_days :: "nat \<Rightarrow> nat" where
  "year_days y = (if is_leap y then 366 else 365)"

fun days_up_to :: "date \<Rightarrow> nat \<Rightarrow> date list" where
  "days_up_to d 0 = [d]"
| "days_up_to d (Suc k) = (case prev_day d of Inl _ \<Rightarrow> [d] | Inr e \<Rightarrow> days_up_to e k @ [d])"

definition week_of :: "date \<Rightarrow> date list" where
  "week_of d = days_up_to d (weekday d)"

section \<open>Lemmas\<close>

subsection \<open>Month and year lengths\<close>

lemma month_cases12:
  assumes "1 \<le> m" "m \<le> (12::nat)"
  obtains "m = 1" | "m = 2" | "m = 3" | "m = 4" | "m = 5" | "m = 6" | "m = 7" | "m = 8"
    | "m = 9" | "m = 10" | "m = 11" | "m = 12"
  using assms by (auto simp: le_Suc_eq numeral_eq_Suc)

lemma days_before_month_Suc:
  "1 \<le> m \<Longrightarrow> m < 12 \<Longrightarrow> days_before_month y (Suc m) = days_before_month y m + days_in_month y m"
  by (erule month_cases12) (simp_all add: days_before_month_def days_in_month_def)

lemma year_length:
  "days_before_month y 12 + days_in_month y 12 = (if is_leap y then 366 else 365)"
  by (simp add: days_before_month_def days_in_month_def)

lemma days_in_month_bounds:
  "1 \<le> m \<Longrightarrow> m \<le> 12 \<Longrightarrow> 28 \<le> days_in_month y m \<and> days_in_month y m \<le> 31"
  by (erule month_cases12) (simp_all add: days_in_month_def)

lemma days_before_year_add:
  "days_before_year (Suc z) + z div 100 = z * 365 + z div 4 + z div 400"
proof -
  have "z div 100 \<le> z div 4" by (simp add: div_le_mono2)
  then show ?thesis by (simp add: days_before_year_def)
qed

lemma days_before_year_Suc:
  "1 \<le> y \<Longrightarrow> days_before_year (Suc y) = days_before_year y + (if is_leap y then 366 else 365)"
proof -
  assume "1 \<le> y"
  then obtain z where z: "y = Suc z" by (cases y) auto
  have new: "days_before_year (Suc y) + Suc z div 100 = Suc z * 365 + Suc z div 4 + Suc z div 400"
    and old: "days_before_year y + z div 100 = z * 365 + z div 4 + z div 400"
    using days_before_year_add [of z] days_before_year_add [of "Suc z"] by (simp_all add: z)
  have d4: "Suc z div 4 = z div 4 + (if Suc z mod 4 = 0 then 1 else 0)"
    and d100: "Suc z div 100 = z div 100 + (if Suc z mod 100 = 0 then 1 else 0)"
    and d400: "Suc z div 400 = z div 400 + (if Suc z mod 400 = 0 then 1 else 0)"
    by (simp_all add: div_Suc)
  have i1: "Suc z mod 400 = 0 \<Longrightarrow> Suc z mod 100 = 0" and i2: "Suc z mod 100 = 0 \<Longrightarrow> Suc z mod 4 = 0"
    using dvd_trans [of 100 400 "Suc z"] dvd_trans [of 4 100 "Suc z"]
    by (simp_all add: dvd_eq_mod_eq_0)
  show ?thesis
  proof (cases "is_leap y")
    case True
    then have "Suc z mod 4 = 0" "(Suc z mod 100 = 0) = (Suc z mod 400 = 0)"
      using i1 by (auto simp: is_leap_def z)
    with new old d4 d100 d400 True show ?thesis by (cases "Suc z mod 400 = 0") simp_all
  next
    case False
    have "Suc z mod 400 \<noteq> 0"
      using False i1 i2 unfolding is_leap_def z by metis
    moreover have "(Suc z mod 4 = 0) = (Suc z mod 100 = 0)"
      using False i1 i2 unfolding is_leap_def z by metis
    ultimately show ?thesis
      using new old d4 d100 d400 False by (cases "Suc z mod 100 = 0") simp_all
  qed
qed


lemma days_before_month_1 [simp]: "days_before_month y 1 = 0" "days_before_month y (Suc 0) = 0"
  by (simp_all add: days_before_month_def)

lemma days_in_month_12 [simp]: "days_in_month y 12 = 31"
  by (simp add: days_in_month_def)

lemma toordinal_prev_day:
  assumes "valid_date d" "prev_day d = Inr e"
  shows "valid_date e \<and> Suc (toordinal e) = toordinal d"
proof -
  obtain y m dd where d: "d = Date y m dd" by (cases d)
  consider (a) "1 < dd" | (b) "dd = 1" "1 < m" | (c) "dd = 1" "m = 1" "1 < y"
    using assms d by (auto simp: prev_day_def valid_date_def split: if_splits)
  then show ?thesis
  proof cases
    case a
    with assms d show ?thesis by (auto simp: prev_day_def valid_date_def toordinal_def)
  next
    case b
    then have e: "e = Date y (m - 1) (days_in_month y (m - 1))"
      using assms d by (simp add: prev_day_def)
    have "1 \<le> m - 1" "m - 1 < 12" using b assms d by (auto simp: valid_date_def)
    then have "days_before_month y m = days_before_month y (m - 1) + days_in_month y (m - 1)"
      using days_before_month_Suc [of "m - 1" y] b by simp
    moreover have "28 \<le> days_in_month y (m - 1)"
      using days_in_month_bounds [of "m - 1" y] \<open>1 \<le> m - 1\<close> \<open>m - 1 < 12\<close> by simp
    ultimately show ?thesis
      using assms d b e by (auto simp: valid_date_def toordinal_def)
  next
    case c
    then have e: "e = Date (y - 1) 12 31"
      using assms d by (simp add: prev_day_def)
    have "days_before_year y = days_before_year (y - 1) + year_days (y - 1)"
      using days_before_year_Suc [of "y - 1"] c by (simp add: year_days_def)
    moreover have "days_before_month (y - 1) 12 + 31 = year_days (y - 1)"
      using year_length [of "y - 1"] by (simp add: year_days_def)
    ultimately show ?thesis
      using assms d c e by (auto simp: valid_date_def toordinal_def)
  qed
qed

lemma toordinal_pos: "valid_date d \<Longrightarrow> 1 \<le> toordinal d"
  by (simp add: valid_date_def toordinal_def)

lemma prev_day_Inl:
  assumes "valid_date d" "prev_day d = Inl err"
  shows "toordinal d = 1"
proof -
  from assms have "d = Date 1 1 1"
    by (cases d) (auto simp: prev_day_def valid_date_def split: if_splits)
  then show ?thesis by (simp add: toordinal_def days_before_year_def)
qed

lemma sub_days_ok:
  "valid_date d \<Longrightarrow> k < toordinal d \<Longrightarrow>
   \<exists>e. sub_days d k = Inr e \<and> valid_date e \<and> toordinal e + k = toordinal d"
proof (induction k arbitrary: d)
  case 0
  then show ?case by simp
next
  case (Suc k)
  show ?case
  proof (cases "prev_day d")
    case (Inl err)
    with Suc.prems prev_day_Inl show ?thesis by fastforce
  next
    case (Inr e)
    with Suc.prems have "valid_date e" "Suc (toordinal e) = toordinal d"
      using toordinal_prev_day by blast+
    with Suc.prems Suc.IH [of e] Inr show ?thesis by auto
  qed
qed

lemma sub_days_overflow:
  "valid_date d \<Longrightarrow> toordinal d \<le> k \<Longrightarrow> sub_days d k = Inl OverflowError"
proof (induction k arbitrary: d)
  case 0
  then show ?case using toordinal_pos [of d] by simp
next
  case (Suc k)
  show ?case
  proof (cases "prev_day d")
    case (Inl err)
    then have "err = OverflowError"
      by (auto simp: prev_day_def split: if_splits)
    with Inl show ?thesis by simp
  next
    case (Inr e)
    with Suc.prems have "valid_date e" "Suc (toordinal e) = toordinal d"
      using toordinal_prev_day by blast+
    with Suc.prems Suc.IH [of e] Inr show ?thesis by auto
  qed
qed


lemma days_before_month_mono:
  "1 \<le> m \<Longrightarrow> m < m' \<Longrightarrow> m' \<le> 12 \<Longrightarrow> days_before_month y m + days_in_month y m \<le> days_before_month y m'"
proof (induction m')
  case 0
  then show ?case by simp
next
  case (Suc m')
  then have "days_before_month y (Suc m') = days_before_month y m' + days_in_month y m'"
    by (intro days_before_month_Suc) auto
  with Suc show ?case by (cases "m = m'") auto
qed

lemma day_within_year:
  assumes "valid_date d"
  shows "days_before_month (year d) (month d) + day d \<le> year_days (year d)"
proof -
  have "days_before_month (year d) (month d) + days_in_month (year d) (month d)
        \<le> days_before_month (year d) 12 + days_in_month (year d) 12"
    using assms days_before_month_mono [of "month d" 12 "year d"]
    by (cases "month d = 12") (auto simp: valid_date_def)
  then show ?thesis
    using assms year_length [of "year d"] by (simp add: valid_date_def year_days_def)
qed

lemma days_before_year_mono:
  "1 \<le> y \<Longrightarrow> y < y' \<Longrightarrow> days_before_year y + year_days y \<le> days_before_year y'"
proof (induction y')
  case 0
  then show ?case by simp
next
  case (Suc y')
  then have "days_before_year (Suc y') = days_before_year y' + year_days y'"
    using days_before_year_Suc [of y'] by (simp add: year_days_def)
  with Suc show ?case by (cases "y = y'") auto
qed

lemma toordinal_strict_mono:
  assumes "valid_date d" "valid_date e" "d < e"
  shows "toordinal d < toordinal e"
proof -
  consider (y) "year d < year e" | (m) "year d = year e" "month d < month e"
    | (dd) "year d = year e" "month d = month e" "day d < day e"
    using assms(3) by (auto simp: less_date_def less_prod_def le_less)
  then show ?thesis
  proof cases
    case y
    have "toordinal d \<le> days_before_year (year d) + year_days (year d)"
      using day_within_year [OF assms(1)] by (simp add: toordinal_def)
    also have "\<dots> \<le> days_before_year (year e)"
      using y assms(1) by (intro days_before_year_mono) (auto simp: valid_date_def)
    also have "\<dots> < toordinal e"
      using assms(2) by (simp add: toordinal_def valid_date_def)
    finally show ?thesis .
  next
    case m
    have "days_before_month (year d) (month d) + day d
          \<le> days_before_month (year d) (month d) + days_in_month (year d) (month d)"
      using assms(1) by (simp add: valid_date_def)
    also have "\<dots> \<le> days_before_month (year d) (month e)"
      using m assms by (intro days_before_month_mono) (auto simp: valid_date_def)
    finally show ?thesis
      using m assms(2) by (simp add: toordinal_def valid_date_def)
  next
    case dd
    then show ?thesis by (simp add: toordinal_def)
  qed
qed

lemma toordinal_less_iff:
  "valid_date d \<Longrightarrow> valid_date e \<Longrightarrow> toordinal d < toordinal e \<longleftrightarrow> d < e"
  by (metis linorder_neq_iff order_less_asym toordinal_strict_mono)

lemma toordinal_eq_iff:
  "valid_date d \<Longrightarrow> valid_date e \<Longrightarrow> toordinal d = toordinal e \<longleftrightarrow> d = e"
  by (metis less_irrefl linorder_neq_iff toordinal_strict_mono)

lemma toordinal_le_iff:
  "valid_date d \<Longrightarrow> valid_date e \<Longrightarrow> toordinal d \<le> toordinal e \<longleftrightarrow> d \<le> e"
  by (metis not_le toordinal_less_iff)

subsection \<open>Weekdays and the Monday of a week\<close>

lemma weekday_lt_7: "weekday d < 7"
  by (simp add: weekday_def)

lemma weekday_lt_toordinal: "valid_date d \<Longrightarrow> weekday d < toordinal d"
proof -
  assume "valid_date d"
  then obtain n where n: "toordinal d = Suc n" using toordinal_pos [of d] by (cases "toordinal d") auto
  have "(Suc n + 6) mod 7 = n mod 7" by simp
  then show ?thesis by (simp add: weekday_def n le_less_Suc_eq)
qed

lemma monday_exists:
  assumes "valid_date d"
  shows "\<exists>mon. sub_days d (weekday d) = Inr mon \<and> valid_date mon \<and> weekday mon = 0 \<and>
                toordinal mon + weekday d = toordinal d"
proof -
  obtain mon where mon: "sub_days d (weekday d) = Inr mon" "valid_date mon"
    "toordinal mon + weekday d = toordinal d"
    using sub_days_ok [OF assms weekday_lt_toordinal [OF assms]] by blast
  have "(toordinal mon + 6) mod 7 = 0"
    using mon(3) unfolding weekday_def by presburger
  with mon show ?thesis by (simp add: weekday_def)
qed


subsection \<open>The string of a date\<close>

lemma valid_date_digits:
  assumes "valid_date d"
  shows "year d < 10 ^ 4" "month d < 10 ^ 2" "day d < 10 ^ 2"
proof -
  have "day d \<le> 31" using assms days_in_month_bounds [of "month d" "year d"]
    by (simp add: valid_date_def)
  then show "year d < 10 ^ 4" "month d < 10 ^ 2" "day d < 10 ^ 2"
    using assms by (simp_all add: valid_date_def)
qed

lemma date_str_less_iff:
  assumes "valid_date d" "valid_date e"
  shows "date_str d < date_str e \<longleftrightarrow> d < e"
proof -
  note bd = valid_date_digits [OF assms(1)] and be = valid_date_digits [OF assms(2)]
  have l4: "length (pad_zeros 4 (year d)) = length (pad_zeros 4 (year e))"
    and l2: "length (pad_zeros 2 (month d)) = length (pad_zeros 2 (month e))"
    using bd be by (simp_all add: length_pad_zeros)
  show ?thesis
    using bd be
    by (simp add: date_str_def append_less_append_iff [OF l4] append_less_append_iff [OF l2]
        pad_zeros_less_iff pad_zeros_eq_iff less_date_def less_prod_def) (auto simp: le_less)
qed

lemma date_str_eq_iff:
  "valid_date d \<Longrightarrow> valid_date e \<Longrightarrow> date_str d = date_str e \<longleftrightarrow> d = e"
  by (metis date_str_less_iff less_irrefl linorder_neq_iff)

lemma length_date_str: "valid_date d \<Longrightarrow> length (date_str d) = 10"
  using valid_date_digits [of d] by (simp add: date_str_def length_pad_zeros)


lemma set_days_up_to:
  "valid_date d \<Longrightarrow> k < toordinal d \<Longrightarrow>
   e \<in> set (days_up_to d k) \<longleftrightarrow> valid_date e \<and> toordinal d \<le> toordinal e + k \<and> e \<le> d"
proof (induction k arbitrary: d)
  case 0
  then show ?case by (auto simp: toordinal_le_iff [symmetric] dest: toordinal_eq_iff [THEN iffD1])
next
  case (Suc k)
  obtain d' where d': "prev_day d = Inr d'" "valid_date d'" "Suc (toordinal d') = toordinal d"
    using Suc.prems prev_day_Inl toordinal_prev_day by (cases "prev_day d") fastforce+
  have IH: "e \<in> set (days_up_to d' k) \<longleftrightarrow> valid_date e \<and> toordinal d' \<le> toordinal e + k \<and> e \<le> d'"
    using Suc.IH [of d'] Suc.prems d' by simp
  show ?case
  proof
    assume "e \<in> set (days_up_to d (Suc k))"
    then consider "e = d" | "e \<in> set (days_up_to d' k)" using d'(1) by auto
    then show "valid_date e \<and> toordinal d \<le> toordinal e + Suc k \<and> e \<le> d"
    proof cases
      case 2
      with IH have "valid_date e" "toordinal d' \<le> toordinal e + k" "e \<le> d'" by blast+
      moreover have "d' \<le> d" using d' Suc.prems by (simp add: toordinal_le_iff [symmetric])
      ultimately show ?thesis using d' by auto
    qed (use Suc.prems in auto)
  next
    assume e: "valid_date e \<and> toordinal d \<le> toordinal e + Suc k \<and> e \<le> d"
    show "e \<in> set (days_up_to d (Suc k))"
    proof (cases "e = d")
      case False
      with e Suc.prems have "toordinal e < toordinal d"
        using toordinal_less_iff by (simp add: order.strict_iff_order)
      then have "e \<le> d'" using e d' by (simp add: toordinal_le_iff [symmetric])
      with e d' IH show ?thesis by auto
    qed (simp add: d'(1))
  qed
qed

lemma set_week_of:
  "valid_date d \<Longrightarrow>
   e \<in> set (week_of d) \<longleftrightarrow> valid_date e \<and> toordinal d \<le> toordinal e + weekday d \<and> e \<le> d"
  by (simp add: week_of_def set_days_up_to weekday_lt_toordinal)

lemma length_days_up_to: "valid_date d \<Longrightarrow> k < toordinal d \<Longrightarrow> length (days_up_to d k) = Suc k"
proof (induction k arbitrary: d)
  case (Suc k)
  obtain d' where d': "prev_day d = Inr d'" "valid_date d'" "Suc (toordinal d') = toordinal d"
    using Suc.prems prev_day_Inl toordinal_prev_day by (cases "prev_day d") fastforce+
  with Suc show ?case by simp
qed simp

lemma sorted_days_up_to: "valid_date d \<Longrightarrow> k < toordinal d \<Longrightarrow> sorted_wrt (<) (days_up_to d k)"
proof (induction k arbitrary: d)
  case (Suc k)
  obtain d' where d': "prev_day d = Inr d'" "valid_date d'" "Suc (toordinal d') = toordinal d"
    using Suc.prems prev_day_Inl toordinal_prev_day by (cases "prev_day d") fastforce+
  have "\<forall>e \<in> set (days_up_to d' k). e < d"
  proof
    fix e assume "e \<in> set (days_up_to d' k)"
    then have "e \<le> d'" using set_days_up_to [of d' k e] d' Suc.prems by auto
    moreover have "d' < d" using d' Suc.prems toordinal_less_iff [of d' d] by simp
    ultimately show "e < d" by simp
  qed
  with Suc d' show ?case by (simp add: sorted_wrt_append)
qed simp

subsection \<open>Evaluation on concrete dates\<close>

text \<open>One step of a count given as a numeral, so that \<open>simp\<close> evaluates \<open>sub_days\<close> and
  \<open>days_up_to\<close> on concrete dates without expanding the year into \<open>Suc\<close> terms.\<close>

lemma sub_days_numeral:
  "sub_days d (numeral n) = rbind (prev_day d) (\<lambda>e. sub_days e (pred_numeral n))"
  by (simp add: numeral_eq_Suc)

lemma days_up_to_numeral:
  "days_up_to d (numeral n) = (case prev_day d of Inl _ \<Rightarrow> [d] | Inr e \<Rightarrow> days_up_to e (pred_numeral n) @ [d])"
  by (simp add: numeral_eq_Suc)

lemma date_str_le_iff:
  "valid_date d \<Longrightarrow> valid_date e \<Longrightarrow> date_str d \<le> date_str e \<longleftrightarrow> d \<le> e"
  by (metis date_str_less_iff not_le)

lemmas date_eval = valid_date_def days_in_month_def is_leap_def first_of_month_def
  less_eq_date_def less_date_def prev_day_def next_day_def sub_days_numeral days_up_to_numeral
  weekday_def toordinal_def days_before_year_def days_before_month_def

end
