(* ===== verification/Date_Formats.thy ===== *)
theory Date_Formats
  imports Calendar
begin

text \<open>
  The date utilities of \<open>src/data_handling.py\<close> (lines 10--32): \<open>format_date\<close>,
  \<open>api_date_format\<close>, \<open>get_weekday\<close> and \<open>get_monday_date\<close>, each of which re-parses the
  reference date from its string, and the standard library's
  \<open>datetime.strptime(s, "%m/%d/%y")\<close> that \<open>request_manager_stats\<close> and \<open>get_stats\<close>
  use instead. The reference date reaches the program as the string of the date picker,
  \<open>MM/DD/YY\<close>. The lemmas show that on such strings the three parsers agree with the
  date for the years 2000--2068, and where they part (two-digit years 69--99, years
  written with one digit).
\<close>

section \<open>Definitions\<close>

text \<open>The string of the date picker, \<open>MM/DD/YY\<close> (the widget is outside \<open>src/\<close>).\<close>

definition ref_date_str :: "date \<Rightarrow> string" where
  "ref_date_str d =
     pad_zeros 2 (month d) @ ''/'' @ pad_zeros 2 (day d) @ ''/'' @ pad_zeros 2 (year d mod 100)"

text \<open>\<open>format_date\<close>: \<open>month, day, year = s.split("/")\<close> (a \<open>ValueError\<close> unless there
  are exactly three parts), then \<open>f"20{year}-{month.zfill(2)}-{day.zfill(2)}"\<close>.\<close>

definition format_date :: "string \<Rightarrow> string result" where
  "format_date s =
     (case str_split CHR ''/'' s of
        [m, d, y] \<Rightarrow> Inr (''20'' @ y @ ''-'' @ zfill 2 m @ ''-'' @ zfill 2 d)
      | _ \<Rightarrow> Inl ValueError)"

definition api_date_format :: "string \<Rightarrow> string result" where
  "api_date_format s = format_date s"

text \<open>Lines 23--24 of \<open>get_weekday\<close>: \<open>year, month, day = map(int, s.split("-"))\<close> and
  \<open>date(year, month, day)\<close>.\<close>

definition parse_ymd :: "string \<Rightarrow> date result" where
  "parse_ymd s =
     (case str_split CHR ''-'' s of
        [y, m, d] \<Rightarrow> rbind (py_int y) (\<lambda>y. rbind (py_int m) (\<lambda>m. rbind (py_int d) (\<lambda>d. mk_date y m d)))
      | _ \<Rightarrow> Inl ValueError)"

definition get_weekday :: "string \<Rightarrow> nat result" where
  "get_weekday s =
     rbind (if CHR ''/'' \<in> set s then format_date s else Inr s)
       (\<lambda>s. rbind (parse_ymd s) (\<lambda>d. Inr (weekday d)))"

text \<open>\<open>get_monday_date\<close>: the weekday from \<open>get_weekday\<close>, then its own parse of
  \<open>s.split("/")\<close> with \<open>year += 2000\<close> below 100, and \<open>date(...) - timedelta(days=weekday)\<close>.\<close>

definition get_monday_date :: "string \<Rightarrow> date result" where
  "get_monday_date s =
     rbind (get_weekday s) (\<lambda>wd.
       case str_split CHR ''/'' s of
         [m, d, y] \<Rightarrow>
           rbind (py_int m) (\<lambda>m. rbind (py_int d) (\<lambda>d. rbind (py_int y) (\<lambda>y.
             rbind (mk_date (if y < 100 then y + 2000 else y) m d) (\<lambda>dt. sub_days dt wd))))
       | _ \<Rightarrow> Inl ValueError)"

text \<open>
  \<open>datetime.strptime(s, "%m/%d/%y")\<close> (\<open>Lib/_strptime.py\<close>): the whole string must
  match \<open>(1[0-2]|0[1-9]|[1-9])/(3[01]|[12]\<dots>|0[1-9]|[1-9]| [1-9])/(\<dots>)\<close>, that is a
  month of one or two digits in 1..12, a day of one or two digits in 1..31 (or a space
  and one digit), and a year of exactly two digits, which is read as 2000--2068 below 69
  and as 1969--1999 from 69 on; then the date is checked.
\<close>

definition strp_field :: "nat \<Rightarrow> string \<Rightarrow> bool" where
  "strp_field hi f \<longleftrightarrow>
     f \<noteq> [] \<and> length f \<le> 2 \<and> list_all is_digit f \<and> 1 \<le> nat_of_digits f \<and> nat_of_digits f \<le> hi"

definition strp_day :: "string \<Rightarrow> nat option" where
  "strp_day f =
     (if strp_field 31 f then Some (nat_of_digits f)
      else case f of
             [c1, c2] \<Rightarrow> if c1 = CHR '' '' \<and> is_digit c2 \<and> c2 \<noteq> CHR ''0''
                         then Some (digit_val c2) else None
           | _ \<Rightarrow> None)"

definition strptime_mdy :: "string \<Rightarrow> date result" where
  "strptime_mdy s =
     (case str_split CHR ''/'' s of
        [m, d, y] \<Rightarrow>
          (case strp_day d of
             Some dd \<Rightarrow>
               if strp_field 12 m \<and> length y = 2 \<and> list_all is_digit y
               then (let yy = nat_of_digits y in
                     mk_date (int (if yy \<le> 68 then 2000 + yy else 1900 + yy)) (int (nat_of_digits m)) (int dd))
               else Inl ValueError
           | None \<Rightarrow> Inl ValueError)
      | _ \<Rightarrow> Inl ValueError)"

text \<open>The reference dates the picker string denotes faithfully: valid dates of 2000--2099.\<close>

definition ref_date_ok :: "date \<Rightarrow> bool" where
  "ref_date_ok d \<longleftrightarrow> valid_date d \<and> 2000 \<le> year d \<and> year d < 2100"

section \<open>Lemmas\<close>

lemma pad_no_sep [simp]:
  "CHR ''/'' \<notin> set (pad_zeros w n)" "CHR ''-'' \<notin> set (pad_zeros w n)"
  by (simp_all add: digits_not_sep)

lemma mk_date_valid: "valid_date d \<Longrightarrow> mk_date (int (year d)) (int (month d)) (int (day d)) = Inr d"
  by (cases d) (auto simp: mk_date_def valid_date_def)

lemma mk_date_Inr: "mk_date y m dd = Inr d \<Longrightarrow> valid_date d"
  by (auto simp: mk_date_def valid_date_def split: if_splits)

lemma mod_100_of_20xx:
  assumes "2000 \<le> y" "y < (2100::nat)"
  shows "2000 + y mod 100 = y"
proof -
  obtain k where k: "y = 2000 + k" using assms(1) by (metis le_iff_add)
  with assms(2) have "k < 100" by simp
  have "2000 + k = k + 20 * 100" by simp
  then have "(2000 + k) mod 100 = k" using \<open>k < 100\<close> by (simp only: mod_mult_self1 mod_less)
  with k show ?thesis by simp
qed

lemma century_pad:
  assumes "2000 \<le> y" "y < 2100"
  shows "''20'' @ pad_zeros 2 (y mod 100) = pad_zeros 4 y"
proof -
  have l: "length (pad_zeros 2 (y mod 100)) = 2" "length (pad_zeros 4 y) = 4"
    using assms by (simp_all add: length_pad_zeros)
  have "nat_of_digits (''20'' @ pad_zeros 2 (y mod 100)) = 2000 + y mod 100"
    using l by (simp add: nat_of_digits_append nat_of_digits_Cons digit_val_def)
  also have "\<dots> = y" using assms by (rule mod_100_of_20xx)
  finally show ?thesis
    using l by (subst digits_eq_iff) (simp_all add: is_digit_def less_eq_char_def)
qed

lemma str_split_ref_date_str:
  "str_split CHR ''/'' (ref_date_str d) = [pad_zeros 2 (month d), pad_zeros 2 (day d), pad_zeros 2 (year d mod 100)]"
  by (simp add: ref_date_str_def str_split_append_sep str_split_no_sep)

lemma str_split_date_str:
  "str_split CHR ''-'' (date_str d) = [pad_zeros 4 (year d), pad_zeros 2 (month d), pad_zeros 2 (day d)]"
  by (simp add: date_str_def str_split_append_sep str_split_no_sep)

lemma date_str_inj: "date_str d = date_str e \<longleftrightarrow> d = e"
proof
  assume "date_str d = date_str e"
  then have "str_split CHR ''-'' (date_str d) = str_split CHR ''-'' (date_str e)" by simp
  then have "pad_zeros 4 (year d) = pad_zeros 4 (year e)" "pad_zeros 2 (month d) = pad_zeros 2 (month e)"
    "pad_zeros 2 (day d) = pad_zeros 2 (day e)"
    by (simp_all add: str_split_date_str)
  then have "year d = year e" "month d = month e" "day d = day e"
    by (metis nat_of_digits_pad_zeros)+
  then show "d = e" by (cases d, cases e) simp
qed simp

lemma date_str_no_slash [simp]: "CHR ''/'' \<notin> set (date_str d)"
  by (simp add: date_str_def)

lemma parse_ymd_date_str [simp]: "valid_date d \<Longrightarrow> parse_ymd (date_str d) = Inr d"
  by (simp add: parse_ymd_def str_split_date_str mk_date_valid)

lemma zfill_exact: "length s = w \<Longrightarrow> zfill w s = s"
  by (simp add: zfill_def)

lemma format_date_split:
  "format_date (ref_date_str d) =
     Inr (''20'' @ pad_zeros 2 (year d mod 100) @ ''-'' @ zfill 2 (pad_zeros 2 (month d)) @ ''-'' @ zfill 2 (pad_zeros 2 (day d)))"
  unfolding format_date_def str_split_ref_date_str by (simp only: list.case)

lemma format_date_ref_date_str:
  assumes "valid_date d" "2000 \<le> year d" "year d < 2100"
  shows "format_date (ref_date_str d) = Inr (date_str d)"
proof -
  have "length (pad_zeros 2 (month d)) = 2" "length (pad_zeros 2 (day d)) = 2"
    using valid_date_digits [OF assms(1)] by (simp_all add: length_pad_zeros)
  then have "format_date (ref_date_str d) =
      Inr ((''20'' @ pad_zeros 2 (year d mod 100)) @ ''-'' @ pad_zeros 2 (month d) @ ''-'' @ pad_zeros 2 (day d))"
    by (simp only: format_date_split zfill_exact append_assoc)
  then show ?thesis by (simp only: century_pad [OF assms(2,3)] date_str_def)
qed


lemma get_weekday_date_str [simp]: "valid_date d \<Longrightarrow> get_weekday (date_str d) = Inr (weekday d)"
  by (simp add: get_weekday_def)

lemma slash_in_ref_date_str [simp]: "CHR ''/'' \<in> set (ref_date_str d)"
  by (simp add: ref_date_str_def)

lemma get_weekday_ref_date_str:
  "valid_date d \<Longrightarrow> 2000 \<le> year d \<Longrightarrow> year d < 2100 \<Longrightarrow> get_weekday (ref_date_str d) = Inr (weekday d)"
  by (simp add: get_weekday_def format_date_ref_date_str)

lemma get_monday_date_eq:
  "ref_date_ok d \<Longrightarrow> get_monday_date (ref_date_str d) = sub_days d (weekday d)"
proof -
  assume "ref_date_ok d"
  then have a: "valid_date d" "2000 \<le> year d" "year d < 2100" by (simp_all add: ref_date_ok_def)
  have yy: "int (year d mod 100) + 2000 = int (year d)"
    using mod_100_of_20xx [OF a(2,3)] by linarith
  show ?thesis
    using a yy by (simp add: get_monday_date_def get_weekday_ref_date_str str_split_ref_date_str mk_date_valid)
qed

lemma get_monday_date_ref_date_str:
  assumes "ref_date_ok d"
  shows "\<exists>mon. get_monday_date (ref_date_str d) = Inr mon \<and> valid_date mon \<and> weekday mon = 0 \<and>
           toordinal mon + weekday d = toordinal d"
  using monday_exists [of d] assms by (simp add: get_monday_date_eq ref_date_ok_def)

lemma get_weekday_ref_ok:
  "ref_date_ok d \<Longrightarrow> get_weekday (ref_date_str d) = Inr (weekday d)"
  by (simp add: ref_date_ok_def get_weekday_ref_date_str)

lemma strp_field_pad: "1 \<le> n \<Longrightarrow> n \<le> hi \<Longrightarrow> n < 100 \<Longrightarrow> strp_field hi (pad_zeros 2 n)"
  by (simp add: strp_field_def length_pad_zeros)

lemma strp_day_pad: "1 \<le> n \<Longrightarrow> n \<le> 31 \<Longrightarrow> strp_day (pad_zeros 2 n) = Some n"
  by (simp add: strp_day_def strp_field_pad)

lemma strptime_mdy_ref_date_str:
  assumes "valid_date d" "2000 \<le> year d" "year d < 2100"
  shows "strptime_mdy (ref_date_str d) =
           mk_date (int (if year d \<le> 2068 then year d else year d - 100)) (int (month d)) (int (day d))"
proof -
  have dm: "1 \<le> day d" "day d \<le> 31" "1 \<le> month d" "month d \<le> 12"
    using assms(1) days_in_month_bounds [of "month d" "year d"] by (auto simp: valid_date_def)
  have yy: "2000 + year d mod 100 = year d" by (rule mod_100_of_20xx [OF assms(2,3)])
  have "(if year d mod 100 \<le> 68 then 2000 + year d mod 100 else 1900 + year d mod 100)
        = (if year d \<le> 2068 then year d else year d - 100)"
    using yy by auto
  then show ?thesis
    using dm by (simp add: strptime_mdy_def str_split_ref_date_str strp_day_pad strp_field_pad length_pad_zeros)
qed

lemma strptime_mdy_ref_date_str_2068:
  "valid_date d \<Longrightarrow> 2000 \<le> year d \<Longrightarrow> year d \<le> 2068 \<Longrightarrow> strptime_mdy (ref_date_str d) = Inr d"
  by (simp add: strptime_mdy_ref_date_str mk_date_valid)

subsection \<open>Agreement and divergence of the parsers\<close>

text \<open>C8: for a padded reference date M/D/YY of the years 2000 to 2068 the parsers agree: format_date yields the ISO date, get_weekday its weekday, strptime the same date, and get_monday_date the Monday of its week.\<close>

theorem reference_date_parsers_agree:
  assumes "ref_date_ok d" "year d \<le> 2068"
  shows "format_date (ref_date_str d) = Inr (date_str d) \<and>
         parse_ymd (date_str d) = Inr d \<and>
         get_weekday (ref_date_str d) = Inr (weekday d) \<and>
         strptime_mdy (ref_date_str d) = Inr d \<and>
         (\<exists>mon. get_monday_date (ref_date_str d) = Inr mon \<and> weekday mon = 0 \<and>
                toordinal mon + weekday d = toordinal d)"
proof -
  have m: "\<exists>mon. get_monday_date (ref_date_str d) = Inr mon \<and> weekday mon = 0 \<and>
                toordinal mon + weekday d = toordinal d"
    using get_monday_date_ref_date_str [OF assms(1)] by blast
  with assms show ?thesis
    by (simp add: ref_date_ok_def format_date_ref_date_str get_weekday_ref_date_str
        strptime_mdy_ref_date_str_2068)
qed

theorem reference_date_parsers_agree_witness:
  "ref_date_ok (Date 2024 3 13) \<and> year (Date 2024 3 13) \<le> 2068 \<and>
   format_date (ref_date_str (Date 2024 3 13)) = Inr (date_str (Date 2024 3 13)) \<and>
   strptime_mdy (ref_date_str (Date 2024 3 13)) = Inr (Date 2024 3 13)"
proof -
  have h1: "ref_date_ok (Date 2024 3 13)" by (simp add: ref_date_ok_def date_eval)
  have h2: "year (Date 2024 3 13) \<le> 2068" by simp
  show ?thesis using h1 h2 reference_date_parsers_agree [OF h1 h2] by blast
qed

text \<open>C9: from two-digit year 69 on, strptime reads the reference date a century earlier than format_date and get_monday_date do.\<close>

theorem strptime_century_divergence:
  assumes "ref_date_ok d" "2069 \<le> year d"
  shows "format_date (ref_date_str d) = Inr (date_str d) \<and>
         strptime_mdy (ref_date_str d) =
           mk_date (int (year d) - 100) (int (month d)) (int (day d)) \<and>
         strptime_mdy (ref_date_str d) \<noteq> Inr d"
proof -
  have a: "valid_date d" "2000 \<le> year d" "year d < 2100" using assms(1) by (simp_all add: ref_date_ok_def)
  then have s: "strptime_mdy (ref_date_str d) = mk_date (int (year d) - 100) (int (month d)) (int (day d))"
    using assms(2) by (simp add: strptime_mdy_ref_date_str of_nat_diff)
  have "mk_date (int (year d) - 100) (int (month d)) (int (day d)) \<noteq> Inr d"
    using a assms(2) by (cases d) (auto simp: mk_date_def split: if_splits)
  with s a show ?thesis by (simp add: format_date_ref_date_str)
qed

theorem strptime_century_divergence_witness:
  "ref_date_ok (Date 2070 3 13) \<and> 2069 \<le> year (Date 2070 3 13) \<and>
   format_date (ref_date_str (Date 2070 3 13)) = Inr (date_str (Date 2070 3 13)) \<and>
   strptime_mdy (ref_date_str (Date 2070 3 13)) = Inr (Date 1970 3 13)"
proof -
  have h1: "ref_date_ok (Date 2070 3 13)" by (simp add: ref_date_ok_def date_eval)
  have h2: "2069 \<le> year (Date 2070 3 13)" by simp
  have m: "mk_date (int (year (Date 2070 3 13)) - 100) (int (month (Date 2070 3 13))) (int (day (Date 2070 3 13)))
           = Inr (Date 1970 3 13)"
    by (simp add: mk_date_def date_eval)
  show ?thesis using h1 h2 m strptime_century_divergence [OF h1 h2] by simp
qed


subsection \<open>A one-digit year\<close>

lemmas py_str_eval = py_int_def is_digit_def nat_of_digits_def digit_val_def less_eq_char_def zfill_def

text \<open>A year written with one digit, which the date picker's two-digit pattern never
  produces: format_date pads it to year 205, while get_monday_date reads it as 2005, so
  the Monday it returns is a Friday.\<close>

lemma monday_of_one_digit_year:
  "get_weekday ''3/13/5'' = Inr 2 \<and> get_monday_date ''3/13/5'' = Inr (Date 2005 3 11) \<and>
   weekday (Date 2005 3 11) = 4"
proof -
  have f: "format_date ''3/13/5'' = Inr ''205-03-13''" by (simp add: format_date_def py_str_eval)
  have p: "parse_ymd ''205-03-13'' = Inr (Date 205 3 13)"
    by (simp add: parse_ymd_def py_str_eval mk_date_def date_eval)
  have w: "weekday (Date 205 3 13) = 2" by (simp add: date_eval)
  have g: "get_weekday ''3/13/5'' = Inr 2" by (simp add: get_weekday_def f p w)
  have "get_monday_date ''3/13/5'' = Inr (Date 2005 3 11)"
    by (simp add: get_monday_date_def g py_str_eval mk_date_def date_eval)
  moreover have "weekday (Date 2005 3 11) = 4" by (simp add: date_eval)
  ultimately show ?thesis using g by simp
qed

end
