(* ===== verification/Calculator.thy ===== *)
theory Calculator
  imports Date_Formats
begin

text \<open>
  The weekly/monthly calculator of \<open>src/data_handling.py\<close> (lines 113--196) and the
  lookup tables of \<open>src/variables.py\<close>. Every operation takes the reference date
  string and the statistics dictionary that \<open>get_stats\<close> builds, and recomputes the
  worked dates itself, as the code does. The lemmas characterise \<open>get_worked_dates\<close>
  (the suffix of the sorted keys whose length is the weekday, plus one when Monday has
  data), prove that it contains every key of the current week, that it is exactly the
  keys of the current week when no weekday after Monday lacks data, and that the
  report guard of \<open>write_stats\<close> holds exactly when the reference date has data; and
  they give the week targets, week sums and indicator colours in closed form.
\<close>

section \<open>Data\<close>

text \<open>A statistics entry \<open>{"date", "calls", "uniques", "minutes"}\<close>; its three counters
  are also the shape of \<open>week_result\<close> and of the entries of \<open>get_daily_results\<close>.\<close>

record totals =
  calls :: int
  uniques :: int
  minutes :: int

record day_stats = totals +
  date_key :: string

type_synonym stats = "(string, day_stats) pydict"

definition zero_totals :: totals where
  "zero_totals = \<lparr>calls = 0, uniques = 0, minutes = 0\<rparr>"

text \<open>\<open>months\<close> and \<open>weekdays\<close> of \<open>variables.py\<close>.\<close>

definition months :: "(string, string) pydict" where
  "months = [(''01'', ''jan''), (''02'', ''fev''), (''03'', ''mar''), (''04'', ''abr''),
             (''05'', ''mai''), (''06'', ''jun''), (''07'', ''jul''), (''08'', ''ago''),
             (''09'', ''set''), (''10'', ''out''), (''11'', ''nov''), (''12'', ''dez'')]"

definition weekdays :: "(string, string) pydict" where
  "weekdays = [(''0'', ''seg''), (''1'', ''ter''), (''2'', ''qua''), (''3'', ''qui''),
               (''4'', ''sex''), (''5'', ''sab''), (''6'', ''dom'')]"

record week_targets =
  target_calls :: string
  target_uniques :: string
  target_minutes :: string

datatype circle = GreenCircle | RedCircle

definition circle_name :: "circle \<Rightarrow> string" where
  "circle_name c = (case c of GreenCircle \<Rightarrow> ''green_circle'' | RedCircle \<Rightarrow> ''red_circle'')"

record indicators =
  calls_circle :: circle
  uniques_circle :: circle
  minutes_circle :: circle

section \<open>Operations\<close>

text \<open>\<open>month_targets\<close>: \<open>str(len(stats))\<close>.\<close>

definition month_targets :: "stats \<Rightarrow> string" where
  "month_targets st = str_of_nat (length st)"

text \<open>\<open>get_worked_dates\<close>: the keys sorted in descending order, the first \<open>weekday\<close>
  of them (one more when Monday is a key), back in ascending order.\<close>

definition get_worked_dates :: "string \<Rightarrow> stats \<Rightarrow> string list result" where
  "get_worked_dates ref st =
     rbind (get_weekday ref) (\<lambda>wd.
     rbind (get_monday_date ref) (\<lambda>mon.
       let monday_date = date_str mon;
           sorted_dates = rev (sort (map fst st));
           wd' = (if monday_date \<in> set sorted_dates then wd + 1 else wd)
       in Inr (rev (take wd' sorted_dates))))"

definition calc_week_targets :: "string \<Rightarrow> stats \<Rightarrow> week_targets result" where
  "calc_week_targets ref st =
     rbind (get_worked_dates ref st) (\<lambda>wds.
       let n = length wds in
       Inr \<lparr>target_calls = str_of_nat (n * 130), target_uniques = str_of_nat (n * 110),
            target_minutes = str_of_nat (n * 60)\<rparr>)"

text \<open>The loop of \<open>calc_week_results\<close>: add the entry of each worked date present in
  \<open>stats\<close>.\<close>

fun add_day_results :: "stats \<Rightarrow> totals \<Rightarrow> string list \<Rightarrow> totals" where
  "add_day_results st acc [] = acc"
| "add_day_results st acc (d # ds) =
     add_day_results st
       (case map_of st d of
          None \<Rightarrow> acc
        | Some s \<Rightarrow> \<lparr>calls = calls acc + calls s, uniques = uniques acc + uniques s,
                     minutes = minutes acc + minutes s\<rparr>) ds"

definition calc_week_results :: "string \<Rightarrow> stats \<Rightarrow> totals result" where
  "calc_week_results ref st =
     rbind (get_worked_dates ref st) (\<lambda>wds. Inr (add_day_results st zero_totals wds))"

text \<open>The dict comprehension of \<open>get_daily_results\<close>.\<close>

fun daily_entries :: "stats \<Rightarrow> (string, totals) pydict \<Rightarrow> string list \<Rightarrow> (string, totals) pydict" where
  "daily_entries st acc [] = acc"
| "daily_entries st acc (d # ds) =
     daily_entries st
       (case map_of st d of
          None \<Rightarrow> acc
        | Some s \<Rightarrow> (let v = \<lparr>calls = calls s, uniques = uniques s, minutes = minutes s\<rparr>
                    in dict_update_with d (\<lambda>_. v) v acc)) ds"

definition get_daily_results :: "string \<Rightarrow> stats \<Rightarrow> (string, totals) pydict result" where
  "get_daily_results ref st = rbind (get_worked_dates ref st) (\<lambda>wds. Inr (daily_entries st [] wds))"

text \<open>The body of the loop of \<open>format_worked_dates\<close> (lines 174--177).\<close>

definition format_worked_date :: "string \<Rightarrow> string result" where
  "format_worked_date wdate =
     (let parts = str_split CHR ''-'' wdate in
      rbind (rbind (py_index parts 1) (py_getitem months)) (\<lambda>month.
      rbind (py_index parts 2) (\<lambda>day.
      rbind (rbind (get_weekday wdate) (\<lambda>wd. py_getitem weekdays (str_of_nat wd))) (\<lambda>weekday.
        Inr (day @ ''-'' @ month @ ''/'' @ weekday)))))"

definition format_worked_dates :: "string \<Rightarrow> stats \<Rightarrow> string list result" where
  "format_worked_dates ref st = rbind (get_worked_dates ref st) (map_result format_worked_date)"

text \<open>\<open>circle_color\<close>: \<open>int(result) >= int(target)\<close>, the target being a string.\<close>

definition circle_color :: "int \<Rightarrow> string \<Rightarrow> circle result" where
  "circle_color result target =
     rbind (py_int target) (\<lambda>t. Inr (if t \<le> result then GreenCircle else RedCircle))"

definition indicator_circle :: "string \<Rightarrow> stats \<Rightarrow> indicators result" where
  "indicator_circle ref st =
     rbind (calc_week_targets ref st) (\<lambda>tg.
     rbind (calc_week_results ref st) (\<lambda>wr.
     rbind (circle_color (calls wr) (target_calls tg)) (\<lambda>c1.
     rbind (circle_color (uniques wr) (target_uniques tg)) (\<lambda>c2.
     rbind (circle_color (minutes wr) (target_minutes tg)) (\<lambda>c3.
       Inr \<lparr>calls_circle = c1, uniques_circle = c2, minutes_circle = c3\<rparr>)))))"

section \<open>The interface with the aggregator and the abstract week\<close>

text \<open>
  What \<open>get_stats\<close> guarantees of its result (see \<open>Aggregator\<close>): distinct keys, each
  the \<open>str()\<close> of a date between the first of the reference month and the reference
  date, and each entry's \<open>"date"\<close> field equal to its key. The calculator's lemmas
  assume only this.
\<close>

definition stats_inv :: "date \<Rightarrow> stats \<Rightarrow> bool" where
  "stats_inv rd st \<longleftrightarrow> distinct (map fst st) \<and>
     list_all (\<lambda>(k, v). date_key v = k \<and>
       (case parse_ymd k of Inr e \<Rightarrow> date_str e = k \<and> first_of_month rd \<le> e \<and> e \<le> rd | Inl _ \<Rightarrow> False)) st"

text \<open>The worked dates as the spec's glossary defines them: the keys that fall in the
  week of the reference date, Monday to the reference date, in ascending order.\<close>

definition week_keys :: "date \<Rightarrow> stats \<Rightarrow> string list" where
  "week_keys rd st = filter (\<lambda>k. k \<in> set (map date_str (week_of rd))) (sort (map fst st))"

subsection \<open>Example inputs\<close>

definition day_entry :: "date \<Rightarrow> int \<Rightarrow> int \<Rightarrow> int \<Rightarrow> string \<times> day_stats" where
  "day_entry d c u m = (date_str d, \<lparr>calls = c, uniques = u, minutes = m, date_key = date_str d\<rparr>)"

text \<open>A Wednesday with data on every day of its week, and one whose week lacks Monday and
  Tuesday but whose month has data on the Friday before.\<close>

definition example_week :: stats where
  "example_week = [day_entry (Date 2024 3 11) 140 100 70, day_entry (Date 2024 3 12) 120 115 50,
                   day_entry (Date 2024 3 13) 130 120 65]"

definition example_gap :: stats where
  "example_gap = [day_entry (Date 2024 3 8) 150 90 40, day_entry (Date 2024 3 13) 130 120 65]"

section \<open>Lemmas\<close>

subsection \<open>The worked dates\<close>

lemma get_worked_dates_closed:
  assumes "ref_date_ok rd"
  obtains mon where "valid_date mon" "weekday mon = 0" "toordinal mon + weekday rd = toordinal rd"
    "get_worked_dates (ref_date_str rd) st =
       Inr (drop (length st - (weekday rd + (if date_str mon \<in> set (map fst st) then 1 else 0)))
                 (sort (map fst st)))"
proof -
  obtain mon where mon: "get_monday_date (ref_date_str rd) = Inr mon" "valid_date mon" "weekday mon = 0"
    "toordinal mon + weekday rd = toordinal rd"
    using get_monday_date_ref_date_str assms unfolding ref_date_ok_def by blast
  have "get_worked_dates (ref_date_str rd) st =
       Inr (drop (length st - (weekday rd + (if date_str mon \<in> set (map fst st) then 1 else 0)))
                 (sort (map fst st)))"
    using assms mon(1)
    by (simp add: get_worked_dates_def get_weekday_ref_date_str ref_date_ok_def rev_take_rev Let_def)
  with mon that show ?thesis by blast
qed

lemma parse_ymd_valid: "parse_ymd s = Inr e \<Longrightarrow> valid_date e"
  by (auto simp: parse_ymd_def split: list.splits intro: mk_date_Inr)

lemma stats_inv_key:
  assumes "stats_inv rd st" "k \<in> set (map fst st)"
  shows "\<exists>e. valid_date e \<and> k = date_str e \<and> first_of_month rd \<le> e \<and> e \<le> rd"
proof -
  obtain v where "(k, v) \<in> set st" using assms(2) by auto
  with assms(1) have "case parse_ymd k of Inr e \<Rightarrow> date_str e = k \<and> first_of_month rd \<le> e \<and> e \<le> rd | Inl _ \<Rightarrow> False"
    by (auto simp: stats_inv_def list_all_iff)
  then show ?thesis
    by (auto split: sum.splits dest: parse_ymd_valid)
qed


lemma stats_inv_length:
  assumes inv: "stats_inv rd st"
  shows "length st \<le> 31"
proof -
  have "set (map fst st) \<subseteq> (\<lambda>k. date_str (Date (year rd) (month rd) k)) ` {1..31}"
  proof
    fix k assume "k \<in> set (map fst st)"
    then obtain e where e: "valid_date e" "k = date_str e" "first_of_month rd \<le> e" "e \<le> rd"
      using stats_inv_key [OF inv] by blast
    have "year e = year rd \<and> month e = month rd"
      using e(3,4) by (auto simp: first_of_month_def less_eq_date_def)
    moreover have "1 \<le> day e \<and> day e \<le> 31"
      using e(1) days_in_month_bounds [of "month e" "year e"] by (auto simp: valid_date_def)
    ultimately show "k \<in> (\<lambda>k. date_str (Date (year rd) (month rd) k)) ` {1..31}"
      using e(2) by (cases e) auto
  qed
  then have "card (set (map fst st)) \<le> 31"
    by (metis card_atLeastAtMost card_image_le diff_Suc_1 finite_atLeastAtMost card_mono le_trans finite_imageI)
  moreover have "distinct (map fst st)" using inv by (simp add: stats_inv_def)
  ultimately show ?thesis by (metis distinct_card length_map)
qed

lemma in_week_iff:
  assumes "valid_date rd" "valid_date mon" "toordinal mon + weekday rd = toordinal rd"
  shows "e \<in> set (week_of rd) \<longleftrightarrow> valid_date e \<and> mon \<le> e \<and> e \<le> rd"
proof -
  have "valid_date e \<Longrightarrow> toordinal rd \<le> toordinal e + weekday rd \<longleftrightarrow> mon \<le> e"
    using assms toordinal_le_iff [of mon e] by auto
  then show ?thesis using set_week_of [OF assms(1)] by blast
qed

lemma week_of_distinct: "valid_date rd \<Longrightarrow> sorted_wrt (<) (week_of rd)"
  by (simp add: week_of_def sorted_days_up_to weekday_lt_toordinal)

lemma length_week_of: "valid_date rd \<Longrightarrow> length (week_of rd) = Suc (weekday rd)"
  by (simp add: week_of_def length_days_up_to weekday_lt_toordinal)

lemma week_of_hd:
  assumes "valid_date rd" "valid_date mon" "toordinal mon + weekday rd = toordinal rd"
  shows "week_of rd = mon # tl (week_of rd)"
proof (cases "week_of rd")
  case Nil
  then show ?thesis using length_week_of [OF assms(1)] by simp
next
  case (Cons x xs)
  have "mon \<in> set (week_of rd)" using assms in_week_iff [OF assms] by (simp add: toordinal_le_iff [symmetric])
  moreover have "x \<in> set (week_of rd)" using Cons by simp
  then have "mon \<le> x" using in_week_iff [OF assms] by blast
  moreover have "\<forall>y \<in> set xs. x < y" using week_of_distinct [OF assms(1)] Cons by simp
  ultimately have "x = mon" using Cons by (auto simp: not_less [symmetric])
  with Cons show ?thesis by simp
qed

lemma set_week_keys:
  "set (week_keys rd st) = {k \<in> set (map fst st). k \<in> date_str ` set (week_of rd)}"
  by (auto simp: week_keys_def)

lemma week_keys_upward:
  assumes inv: "stats_inv rd st" and M: "valid_date rd" "valid_date mon" "toordinal mon + weekday rd = toordinal rd"
    and x: "x \<in> set (week_keys rd st)" and y: "y \<in> set (map fst st)" and le: "x \<le> y"
  shows "y \<in> set (week_keys rd st)"
proof -
  obtain e where e: "e \<in> set (week_of rd)" "x = date_str e" using x by (auto simp: set_week_keys)
  obtain e' where e': "valid_date e'" "y = date_str e'" "e' \<le> rd" using stats_inv_key [OF inv y] by blast
  have ve: "valid_date e" "mon \<le> e" using e(1) in_week_iff [OF M] by blast+
  then have "e \<le> e'" using le e(2) e'(1,2) date_str_less_iff [of e' e] by (auto simp: not_less [symmetric])
  with ve e' have "e' \<in> set (week_of rd)" using in_week_iff [OF M] by auto
  with y e'(2) show ?thesis by (auto simp: set_week_keys)
qed

lemma card_week_keys:
  assumes inv: "stats_inv rd st" and M: "valid_date rd" "valid_date mon" "toordinal mon + weekday rd = toordinal rd"
  shows "card (set (week_keys rd st)) \<le> weekday rd + (if date_str mon \<in> set (map fst st) then 1 else 0)"
proof (cases "date_str mon \<in> set (map fst st)")
  case True
  have "card (set (week_keys rd st)) \<le> card (date_str ` set (week_of rd))"
    by (intro card_mono) (auto simp: set_week_keys)
  also have "\<dots> \<le> length (week_of rd)" using card_image_le card_length order_trans by blast
  finally show ?thesis using True length_week_of [OF M(1)] by simp
next
  case False
  have "set (week_keys rd st) \<subseteq> date_str ` (set (week_of rd) - {mon})"
  proof
    fix k assume "k \<in> set (week_keys rd st)"
    then obtain e where e: "e \<in> set (week_of rd)" "k = date_str e" "k \<in> set (map fst st)"
      by (force simp: set_week_keys)
    with False have "e \<noteq> mon" by auto
    with e show "k \<in> date_str ` (set (week_of rd) - {mon})" by auto
  qed
  then have "card (set (week_keys rd st)) \<le> card (date_str ` (set (week_of rd) - {mon}))"
    by (intro card_mono) auto
  also have "\<dots> \<le> card (set (week_of rd) - {mon})" by (rule card_image_le) simp
  also have "\<dots> = card (set (week_of rd)) - 1"
    using week_of_hd [OF M] by (metis card_Diff_singleton_if list.set_intros(1))
  also have "\<dots> \<le> weekday rd" using card_length [of "week_of rd"] length_week_of [OF M(1)] by simp
  finally show ?thesis using False by simp
qed


lemma sorted_keys: "stats_inv rd st \<Longrightarrow> sorted_wrt (<) (sort (map fst st))"
  by (simp add: stats_inv_def strict_sorted_iff)

lemma inj_on_date_str: "inj_on date_str {e. valid_date e}"
  by (auto simp: inj_on_def date_str_eq_iff)

lemma week_of_valid: "valid_date rd \<Longrightarrow> e \<in> set (week_of rd) \<Longrightarrow> valid_date e"
  using set_week_of by blast

lemma week_keys_subset_worked_dates:
  assumes ok: "ref_date_ok rd" and inv: "stats_inv rd st"
    and wd: "get_worked_dates (ref_date_str rd) st = Inr wds"
  shows "set (week_keys rd st) \<subseteq> set wds"
proof
  fix x assume x: "x \<in> set (week_keys rd st)"
  obtain mon where M: "valid_date mon" "toordinal mon + weekday rd = toordinal rd"
    and cl: "get_worked_dates (ref_date_str rd) st =
       Inr (drop (length st - (weekday rd + (if date_str mon \<in> set (map fst st) then 1 else 0)))
                 (sort (map fst st)))"
    by (rule get_worked_dates_closed [OF ok, of st])
  have vrd: "valid_date rd" using ok by (simp add: ref_date_ok_def)
  let ?S = "sort (map fst st)" and ?k = "weekday rd + (if date_str mon \<in> set (map fst st) then 1 else 0)"
  have "{y \<in> set ?S. x \<le> y} \<subseteq> set (week_keys rd st)"
    using week_keys_upward [OF inv vrd M x] by auto
  then have "card {y \<in> set ?S. x \<le> y} \<le> card (set (week_keys rd st))"
    by (intro card_mono) simp_all
  then have "card {y \<in> set ?S. x \<le> y} \<le> ?k"
    using card_week_keys [OF inv vrd M] by linarith
  moreover have "x \<in> set ?S" using x by (simp add: week_keys_def)
  ultimately have "x \<in> set (drop (length ?S - ?k) ?S)"
    by (intro drop_mem_if_few_larger sorted_keys [OF inv])
  with cl wd show "x \<in> set wds" by simp
qed


lemma worked_dates_sorted:
  assumes ok: "ref_date_ok rd" and inv: "stats_inv rd st"
    and wd: "get_worked_dates (ref_date_str rd) st = Inr wds"
  shows "sorted_wrt (<) wds" "set wds \<subseteq> set (map fst st)"
    "length wds \<le> weekday rd + 1"
proof -
  obtain mon where M: "valid_date mon" "toordinal mon + weekday rd = toordinal rd"
    and cl: "get_worked_dates (ref_date_str rd) st =
       Inr (drop (length st - (weekday rd + (if date_str mon \<in> set (map fst st) then 1 else 0)))
                 (sort (map fst st)))"
    by (rule get_worked_dates_closed [OF ok, of st])
  let ?S = "sort (map fst st)" and ?k = "weekday rd + (if date_str mon \<in> set (map fst st) then 1 else 0)"
  have wds: "wds = drop (length ?S - ?k) ?S" using cl wd by simp
  show "sorted_wrt (<) wds" using sorted_keys [OF inv] by (simp add: wds sorted_wrt_drop)
  show "set wds \<subseteq> set (map fst st)" using set_drop_subset [of _ ?S] by (simp add: wds)
  have "length wds \<le> ?k" unfolding wds length_drop by linarith
  then show "length wds \<le> weekday rd + 1" by (simp split: if_splits)
qed

lemma card_week_keys_ge:
  assumes inv: "stats_inv rd st" and M: "valid_date rd" "valid_date mon" "toordinal mon + weekday rd = toordinal rd"
    and gap: "list_all (\<lambda>e. date_str e \<in> set (map fst st)) (tl (week_of rd))"
  shows "weekday rd + (if date_str mon \<in> set (map fst st) then 1 else 0) \<le> card (set (week_keys rd st))"
proof -
  let ?W = "if date_str mon \<in> set (map fst st) then week_of rd else tl (week_of rd)"
  have hd: "week_of rd = mon # tl (week_of rd)" by (rule week_of_hd [OF M])
  have dist: "distinct (week_of rd)" using week_of_distinct [OF M(1)] by (simp add: strict_sorted_iff)
  have len: "length ?W = weekday rd + (if date_str mon \<in> set (map fst st) then 1 else 0)"
    using length_week_of [OF M(1)] by simp
  have dW: "distinct ?W"
    by (cases "date_str mon \<in> set (map fst st)") (simp_all add: dist distinct_tl)
  have tl_sub: "set (tl (week_of rd)) \<subseteq> set (week_of rd)" by (metis hd set_subset_Cons)
  then have W_sub: "set ?W \<subseteq> set (week_of rd)" by auto
  have "set ?W \<subseteq> {e. valid_date e}"
    using W_sub week_of_valid [OF M(1)] by blast
  then have "inj_on date_str (set ?W)" using inj_on_date_str inj_on_subset by blast
  then have "card (date_str ` set ?W) = length ?W"
    using dW by (simp add: card_image distinct_card)
  moreover have "date_str ` set ?W \<subseteq> set (week_keys rd st)"
  proof
    fix k assume "k \<in> date_str ` set ?W"
    then obtain e where e: "e \<in> set ?W" "k = date_str e" by blast
    have "e \<in> set (week_of rd)" using e(1) W_sub by blast
    moreover have "k \<in> set (map fst st)"
    proof (cases "e = mon")
      case True
      have "mon \<notin> set (tl (week_of rd))" using dist hd by (metis distinct.simps(2))
      with True e show ?thesis by (auto split: if_splits)
    next
      case False
      have "e \<in> set (week_of rd)" using e(1) W_sub by blast
      with False have "e \<in> set (tl (week_of rd))" by (metis hd set_ConsD)
      with gap e(2) show ?thesis by (simp add: list_all_iff)
    qed
    ultimately show "k \<in> set (week_keys rd st)" using e(2) by (auto simp: set_week_keys)
  qed
  then have "card (date_str ` set ?W) \<le> card (set (week_keys rd st))" by (intro card_mono) simp_all
  ultimately show ?thesis using len by simp
qed

lemma card_week_keys_gap:
  assumes inv: "stats_inv rd st" and M: "valid_date rd" "valid_date mon" "toordinal mon + weekday rd = toordinal rd"
    and e: "e \<in> set (tl (week_of rd))" "date_str e \<notin> set (map fst st)"
  shows "card (set (week_keys rd st)) < weekday rd + (if date_str mon \<in> set (map fst st) then 1 else 0)"
proof -
  have hd: "week_of rd = mon # tl (week_of rd)" by (rule week_of_hd [OF M])
  have dist: "distinct (week_of rd)" using week_of_distinct [OF M(1)] by (simp add: strict_sorted_iff)
  have em: "e \<noteq> mon" using e(1) dist hd by (metis distinct.simps(2))
  have eW: "e \<in> set (week_of rd)" using e(1) hd by (metis list.set_intros(2))
  let ?R = "set (week_of rd) - {e} - (if date_str mon \<in> set (map fst st) then {} else {mon})"
  have "set (week_keys rd st) \<subseteq> date_str ` ?R"
  proof
    fix k assume "k \<in> set (week_keys rd st)"
    then obtain d where d: "d \<in> set (week_of rd)" "k = date_str d" "k \<in> set (map fst st)"
      by (force simp: set_week_keys)
    with e(2) have "d \<noteq> e" by auto
    moreover have "date_str mon \<notin> set (map fst st) \<Longrightarrow> d \<noteq> mon" using d by auto
    ultimately show "k \<in> date_str ` ?R" using d by auto
  qed
  then have "card (set (week_keys rd st)) \<le> card (date_str ` ?R)" by (intro card_mono) auto
  also have "\<dots> \<le> card ?R" by (rule card_image_le) simp
  also have "card ?R = Suc (weekday rd) - 1 - (if date_str mon \<in> set (map fst st) then 0 else 1)"
  proof -
    have c: "card (set (week_of rd)) = Suc (weekday rd)"
      using distinct_card [OF dist] length_week_of [OF M(1)] by simp
    have "mon \<in> set (week_of rd) - {e}" using hd em by (metis Diff_iff list.set_intros(1) singletonD)
    then show ?thesis using c eW by (simp add: card_Diff_singleton)
  qed
  finally have "card (set (week_keys rd st)) \<le> Suc (weekday rd) - 1 - (if date_str mon \<in> set (map fst st) then 0 else 1)" .
  moreover have "0 < weekday rd"
    using e(1) length_week_of [OF M(1)] by (metis length_greater_0_conv length_tl diff_Suc_1 empty_iff list.set(1))
  ultimately show ?thesis by (simp split: if_splits)
qed


lemma example_ref_ok: "ref_date_ok (Date 2024 3 13)"
  by (simp add: ref_date_ok_def date_eval)

lemma example_week_inv: "stats_inv (Date 2024 3 13) example_week"
  by (simp add: stats_inv_def example_week_def day_entry_def date_eval date_str_eq_iff)

lemma example_gap_inv: "stats_inv (Date 2024 3 13) example_gap"
  by (simp add: stats_inv_def example_gap_def day_entry_def date_eval date_str_eq_iff)

lemma worked_dates_example_gap:
  "get_worked_dates (ref_date_str (Date 2024 3 13)) example_gap =
     Inr [date_str (Date 2024 3 8), date_str (Date 2024 3 13)]"
  by (simp add: get_worked_dates_def get_weekday_ref_ok get_monday_date_eq ref_date_ok_def
        example_gap_def day_entry_def date_str_le_iff date_str_eq_iff date_eval)

lemma worked_dates_no_gap:
  assumes ok: "ref_date_ok rd" and inv: "stats_inv rd st"
    and gap: "list_all (\<lambda>e. date_str e \<in> set (map fst st)) (tl (week_of rd))"
  shows "get_worked_dates (ref_date_str rd) st = Inr (week_keys rd st)"
proof -
  obtain mon where M: "valid_date mon" "toordinal mon + weekday rd = toordinal rd"
    and cl: "get_worked_dates (ref_date_str rd) st =
       Inr (drop (length st - (weekday rd + (if date_str mon \<in> set (map fst st) then 1 else 0)))
                 (sort (map fst st)))"
    by (rule get_worked_dates_closed [OF ok, of st])
  have vrd: "valid_date rd" using ok by (simp add: ref_date_ok_def)
  let ?S = "sort (map fst st)" and ?k = "weekday rd + (if date_str mon \<in> set (map fst st) then 1 else 0)"
  define wds where "wds = drop (length ?S - ?k) ?S"
  have wd: "get_worked_dates (ref_date_str rd) st = Inr wds" using cl by (simp add: wds_def)
  have sub: "set (week_keys rd st) \<subseteq> set wds"
    by (rule week_keys_subset_worked_dates [OF ok inv wd])
  have "card (set wds) \<le> ?k"
    using card_length [of wds] unfolding wds_def length_drop by linarith
  also have "\<dots> \<le> card (set (week_keys rd st))"
    by (rule card_week_keys_ge [OF inv vrd M gap])
  finally have eq: "set (week_keys rd st) = set wds"
    using sub by (intro card_seteq) simp_all
  have "sorted_wrt (<) wds" by (rule worked_dates_sorted(1) [OF ok inv wd])
  moreover have "sorted_wrt (<) (week_keys rd st)"
    using sorted_keys [OF inv] by (simp add: week_keys_def sorted_wrt_filter)
  ultimately have "week_keys rd st = wds"
    using eq by (simp add: strict_sorted_iff sorted_distinct_set_unique)
  with wd show ?thesis by simp
qed

text \<open>C1: when the statistics hold data for every day from the Tuesday of the reference week up to the reference date, get_worked_dates returns exactly the dates of the statistics that fall in the week from its Monday to the reference date, in ascending order.\<close>

theorem worked_dates_exact:
  assumes ok: "ref_date_ok rd" and inv: "stats_inv rd st"
    and gap: "list_all (\<lambda>e. date_str e \<in> set (map fst st)) (tl (week_of rd))"
  shows "get_worked_dates (ref_date_str rd) st = Inr (week_keys rd st)"
  by (rule worked_dates_no_gap [OF ok inv gap])

theorem worked_dates_exact_witness:
  "ref_date_ok (Date 2024 3 13) \<and> stats_inv (Date 2024 3 13) example_week \<and>
   list_all (\<lambda>e. date_str e \<in> set (map fst example_week)) (tl (week_of (Date 2024 3 13))) \<and>
   get_worked_dates (ref_date_str (Date 2024 3 13)) example_week = Inr (week_keys (Date 2024 3 13) example_week)"
proof -
  note h1 = example_ref_ok and h2 = example_week_inv
  have h3: "list_all (\<lambda>e. date_str e \<in> set (map fst example_week)) (tl (week_of (Date 2024 3 13)))"
    by (simp add: week_of_def date_eval example_week_def day_entry_def)
  show ?thesis using h1 h2 h3 worked_dates_exact [OF h1 h2 h3] by blast
qed

lemma worked_dates_guard:
  assumes ok: "ref_date_ok rd" and inv: "stats_inv rd st"
    and wd: "get_worked_dates (ref_date_str rd) st = Inr wds"
  shows "date_str rd \<in> set wds \<longleftrightarrow> date_str rd \<in> set (map fst st)"
proof
  assume "date_str rd \<in> set wds"
  then show "date_str rd \<in> set (map fst st)" using worked_dates_sorted(2) [OF ok inv wd] by blast
next
  assume key: "date_str rd \<in> set (map fst st)"
  obtain mon where M: "valid_date mon" "toordinal mon + weekday rd = toordinal rd"
    by (rule get_worked_dates_closed [OF ok, of st])
  have vrd: "valid_date rd" using ok by (simp add: ref_date_ok_def)
  have "mon \<le> rd" using M vrd toordinal_le_iff [of mon rd] by simp
  then have "rd \<in> set (week_of rd)" using in_week_iff [OF vrd M] vrd by simp
  with key have "date_str rd \<in> set (week_keys rd st)" by (simp add: set_week_keys)
  then show "date_str rd \<in> set wds" using week_keys_subset_worked_dates [OF ok inv wd] by blast
qed

subsection \<open>Shape of the worked dates and the previous-week case\<close>

text \<open>C3: the worked dates always contain every date of the reference week that has data, are keys of the statistics, are strictly ascending and are at most weekday+1 many.\<close>

theorem worked_dates_bounds:
  assumes ok: "ref_date_ok rd" and inv: "stats_inv rd st"
    and wd: "get_worked_dates (ref_date_str rd) st = Inr wds"
  shows "set (week_keys rd st) \<subseteq> set wds \<and> set wds \<subseteq> set (map fst st) \<and>
         sorted_wrt (<) wds \<and> length wds \<le> Suc (weekday rd)"
  using week_keys_subset_worked_dates [OF ok inv wd] worked_dates_sorted [OF ok inv wd] by simp

theorem worked_dates_bounds_witness:
  "ref_date_ok (Date 2024 3 13) \<and> stats_inv (Date 2024 3 13) example_gap \<and>
   get_worked_dates (ref_date_str (Date 2024 3 13)) example_gap =
     Inr [date_str (Date 2024 3 8), date_str (Date 2024 3 13)] \<and>
   set (week_keys (Date 2024 3 13) example_gap) \<subseteq> set [date_str (Date 2024 3 8), date_str (Date 2024 3 13)] \<and>
   set [date_str (Date 2024 3 8), date_str (Date 2024 3 13)] \<subseteq> set (map fst example_gap) \<and>
   sorted_wrt (<) [date_str (Date 2024 3 8), date_str (Date 2024 3 13)] \<and>
   length [date_str (Date 2024 3 8), date_str (Date 2024 3 13)] \<le> Suc (weekday (Date 2024 3 13))"
proof -
  note h1 = example_ref_ok and h2 = example_gap_inv and h3 = worked_dates_example_gap
  show ?thesis using h1 h2 h3 worked_dates_bounds [OF h1 h2 h3] by blast
qed

text \<open>C4: get_worked_dates returns a date outside the week of the reference date (a
  date of the month before its Monday) exactly when some day from the Tuesday of the week
  up to the reference date has no data and the month has data before the Monday: the
  code takes the latest weekday+1 keys of the month instead of the keys of the week.\<close>

theorem worked_dates_outside_week_iff:
  assumes ok: "ref_date_ok rd" and inv: "stats_inv rd st"
    and wd: "get_worked_dates (ref_date_str rd) st = Inr wds"
  shows "(\<exists>w \<in> set wds. w \<notin> set (week_keys rd st)) \<longleftrightarrow>
         \<not> list_all (\<lambda>e. date_str e \<in> set (map fst st)) (tl (week_of rd)) \<and>
         (\<exists>k \<in> set (map fst st). k \<notin> set (week_keys rd st))"
proof
  assume "\<exists>w \<in> set wds. w \<notin> set (week_keys rd st)"
  then obtain w where w: "w \<in> set wds" "w \<notin> set (week_keys rd st)" by blast
  have "\<not> list_all (\<lambda>e. date_str e \<in> set (map fst st)) (tl (week_of rd))"
    using worked_dates_no_gap [OF ok inv] wd w by auto
  moreover have "w \<in> set (map fst st)" using worked_dates_sorted(2) [OF ok inv wd] w(1) by blast
  ultimately show "\<not> list_all (\<lambda>e. date_str e \<in> set (map fst st)) (tl (week_of rd)) \<and>
         (\<exists>k \<in> set (map fst st). k \<notin> set (week_keys rd st))" using w(2) by blast
next
  assume r: "\<not> list_all (\<lambda>e. date_str e \<in> set (map fst st)) (tl (week_of rd)) \<and>
         (\<exists>k \<in> set (map fst st). k \<notin> set (week_keys rd st))"
  then obtain e k where e: "e \<in> set (tl (week_of rd))" "date_str e \<notin> set (map fst st)"
    and k: "k \<in> set (map fst st)" "k \<notin> set (week_keys rd st)"
    by (auto simp: list_all_iff)
  obtain mon where M: "valid_date mon" "toordinal mon + weekday rd = toordinal rd"
    and cl: "get_worked_dates (ref_date_str rd) st =
       Inr (drop (length st - (weekday rd + (if date_str mon \<in> set (map fst st) then 1 else 0)))
                 (sort (map fst st)))"
    by (rule get_worked_dates_closed [OF ok, of st])
  have vrd: "valid_date rd" using ok by (simp add: ref_date_ok_def)
  let ?S = "sort (map fst st)" and ?k = "weekday rd + (if date_str mon \<in> set (map fst st) then 1 else 0)"
  have wds: "wds = drop (length ?S - ?k) ?S" using cl wd by simp
  have lt: "card (set (week_keys rd st)) < ?k" by (rule card_week_keys_gap [OF inv vrd M e])
  have dS: "distinct ?S" using sorted_keys [OF inv] by (simp add: strict_sorted_iff)
  show "\<exists>w \<in> set wds. w \<notin> set (week_keys rd st)"
  proof (rule ccontr)
    assume "\<not> (\<exists>w \<in> set wds. w \<notin> set (week_keys rd st))"
    then have sub: "set wds \<subseteq> set (week_keys rd st)" by blast
    show False
    proof (cases "length ?S \<le> ?k")
      case True
      then have "wds = ?S" using wds by simp
      with sub k show False by auto
    next
      case False
      have "card (set wds) = length wds" using dS by (simp add: wds distinct_card distinct_drop)
      also have "\<dots> = ?k" using False wds by simp
      finally have "?k \<le> card (set (week_keys rd st))" using card_mono [OF _ sub] by simp
      with lt show False by simp
    qed
  qed
qed


theorem worked_dates_outside_week_iff_witness:
  "ref_date_ok (Date 2024 3 13) \<and> stats_inv (Date 2024 3 13) example_gap \<and>
   get_worked_dates (ref_date_str (Date 2024 3 13)) example_gap =
     Inr [date_str (Date 2024 3 8), date_str (Date 2024 3 13)] \<and>
   ((\<exists>w \<in> set [date_str (Date 2024 3 8), date_str (Date 2024 3 13)]. w \<notin> set (week_keys (Date 2024 3 13) example_gap)) \<longleftrightarrow>
    \<not> list_all (\<lambda>e. date_str e \<in> set (map fst example_gap)) (tl (week_of (Date 2024 3 13))) \<and>
    (\<exists>k \<in> set (map fst example_gap). k \<notin> set (week_keys (Date 2024 3 13) example_gap)))"
proof -
  note h1 = example_ref_ok and h2 = example_gap_inv and h3 = worked_dates_example_gap
  show ?thesis using h1 h2 h3 worked_dates_outside_week_iff [OF h1 h2 h3] by blast
qed

subsection \<open>Week sums and indicators\<close>

lemma add_day_results_sum:
  "add_day_results st acc wds =
     \<lparr>calls = calls acc + sum_list (map (\<lambda>d. case map_of st d of None \<Rightarrow> 0 | Some s \<Rightarrow> calls s) wds),
      uniques = uniques acc + sum_list (map (\<lambda>d. case map_of st d of None \<Rightarrow> 0 | Some s \<Rightarrow> uniques s) wds),
      minutes = minutes acc + sum_list (map (\<lambda>d. case map_of st d of None \<Rightarrow> 0 | Some s \<Rightarrow> minutes s) wds)\<rparr>"
  by (induction wds arbitrary: acc) (auto split: option.splits)

text \<open>C5: calc_week_results sums calls, uniques and minutes over the worked dates, a missing date adding zero.\<close>

theorem calc_week_results_sum:
  "calc_week_results ref st =
     rbind (get_worked_dates ref st) (\<lambda>wds.
       Inr \<lparr>calls = sum_list (map (\<lambda>d. case map_of st d of None \<Rightarrow> 0 | Some s \<Rightarrow> calls s) wds),
            uniques = sum_list (map (\<lambda>d. case map_of st d of None \<Rightarrow> 0 | Some s \<Rightarrow> uniques s) wds),
            minutes = sum_list (map (\<lambda>d. case map_of st d of None \<Rightarrow> 0 | Some s \<Rightarrow> minutes s) wds)\<rparr>)"
  by (simp add: calc_week_results_def add_day_results_sum zero_totals_def)

text \<open>C6: indicator_circle colours each metric green exactly when the week's total reaches the daily target (130, 110, 60) times the number of worked dates, the string targets compared as integers.\<close>

theorem indicator_circle_int_compare:
  "indicator_circle ref st =
     rbind (get_worked_dates ref st) (\<lambda>wds.
       let r = add_day_results st zero_totals wds; n = int (length wds) in
       Inr \<lparr>calls_circle = (if 130 * n \<le> calls r then GreenCircle else RedCircle),
            uniques_circle = (if 110 * n \<le> uniques r then GreenCircle else RedCircle),
            minutes_circle = (if 60 * n \<le> minutes r then GreenCircle else RedCircle)\<rparr>)"
  by (cases "get_worked_dates ref st")
     (simp_all add: indicator_circle_def calc_week_targets_def calc_week_results_def circle_color_def
        Let_def mult.commute)

subsection \<open>Date labels\<close>

lemma months_total:
  assumes "1 \<le> m" "m \<le> 12"
  shows "\<exists>a. py_getitem months (pad_zeros 2 m) = Inr a"
  using assms by (rule month_cases12) (simp_all add: py_getitem_def months_def, code_simp+)

lemma weekdays_total:
  assumes "w < 7"
  shows "\<exists>a. py_getitem weekdays (str_of_nat w) = Inr a"
proof -
  have "w \<in> {0, 1, 2, 3, 4, 5, 6}" using assms by auto
  then show ?thesis by (auto simp: py_getitem_def weekdays_def) code_simp+
qed


lemma months_no_slash: "py_getitem months k = Inr m \<Longrightarrow> CHR ''/'' \<notin> set m"
  by (auto simp: py_getitem_def months_def split: if_splits option.splits)

lemma weekdays_no_slash: "py_getitem weekdays k = Inr w \<Longrightarrow> CHR ''/'' \<notin> set w"
  by (auto simp: py_getitem_def weekdays_def split: if_splits option.splits)

lemma format_worked_date_shape:
  assumes "valid_date e"
  obtains m w where "py_getitem months (pad_zeros 2 (month e)) = Inr m"
    "py_getitem weekdays (str_of_nat (weekday e)) = Inr w"
    "format_worked_date (date_str e) = Inr (pad_zeros 2 (day e) @ ''-'' @ m @ ''/'' @ w)"
proof -
  obtain m where m: "py_getitem months (pad_zeros 2 (month e)) = Inr m"
    using months_total assms by (auto simp: valid_date_def)
  obtain w where w: "py_getitem weekdays (str_of_nat (weekday e)) = Inr w"
    using weekdays_total weekday_lt_7 by blast
  have "format_worked_date (date_str e) = Inr (pad_zeros 2 (day e) @ ''-'' @ m @ ''/'' @ w)"
    using assms m w by (simp add: format_worked_date_def str_split_date_str py_index_def Let_def)
  with m w that show ?thesis by blast
qed

text \<open>C7: each valid date key is rendered as its two-digit day, the month's abbreviation and the weekday's abbreviation, and the lookups in months and weekdays never fail.\<close>

theorem format_worked_date_spec:
  assumes "valid_date e"
  shows "\<exists>m w. py_getitem months (pad_zeros 2 (month e)) = Inr m \<and>
           py_getitem weekdays (str_of_nat (weekday e)) = Inr w \<and>
           format_worked_date (date_str e) = Inr (pad_zeros 2 (day e) @ ''-'' @ m @ ''/'' @ w)"
  using format_worked_date_shape [OF assms] by blast

theorem format_worked_date_witness:
  "valid_date (Date 2024 3 11) \<and> format_worked_date (date_str (Date 2024 3 11)) = Inr ''11-mar/seg''"
proof -
  have v: "valid_date (Date 2024 3 11)" by (simp add: date_eval)
  obtain m w where mw: "py_getitem months (pad_zeros 2 3) = Inr m"
      "py_getitem weekdays (str_of_nat (weekday (Date 2024 3 11))) = Inr w"
      "format_worked_date (date_str (Date 2024 3 11)) = Inr (pad_zeros 2 11 @ ''-'' @ m @ ''/'' @ w)"
    using format_worked_date_spec [OF v] by auto
  have "py_getitem months (pad_zeros 2 3) = Inr ''mar''" by code_simp
  moreover have "weekday (Date 2024 3 11) = 0" by (simp add: date_eval)
  moreover have "py_getitem weekdays (str_of_nat 0) = Inr ''seg''" by code_simp
  moreover have "pad_zeros 2 11 = ''11''" by code_simp
  ultimately show ?thesis using v mw by simp
qed

end
