(* ===== verification/Aggregator.thy ===== *)
theory Aggregator
  imports Calculator
begin

text \<open>
  The statistics aggregator of \<open>src/data_handling.py\<close>: \<open>request_manager_stats\<close>
  (lines 52--68), which asks the report API for the hourly records of the month up to
  the day after the reference date, and \<open>get_stats\<close> (lines 70--109), which reads the
  Kyiv wall-clock timestamp of each record, moves it to UTC-3, adds its counters into a
  \<open>defaultdict\<close> keyed by the UTC-3 date, and keeps the dates from the first of the
  month to the reference date. The API is a parameter: a function from the manager id
  and the date window of the query to the response. The lemmas show that a successful
  \<open>get_stats\<close> yields exactly the per-day sums of the records' counters in the
  month-to-date window, that its result satisfies the interface \<open>stats_inv\<close> the
  calculator relies on, and which records make it raise.
\<close>

section \<open>Definitions\<close>

subsection \<open>Records of the API\<close>

text \<open>A JSON value of a record field as Python sees it after \<open>response.json()\<close>:
  \<open>None\<close>, an \<open>int\<close>, or a \<open>str\<close>; a record is a \<open>dict\<close> of such values.\<close>

datatype jval = JNull | JInt int | JStr string

type_synonym json_obj = "(string, jval) pydict"

text \<open>The outcome of \<open>requests.get(...)\<close> followed by \<open>raise_for_status()\<close> and
  \<open>response.json()["data"]["hours"]\<close>: the hourly records, a \<open>RequestException\<close>
  (network error, HTTP error status, a body that is no JSON), or a JSON body without
  \<open>data.hours\<close>.\<close>

datatype response = ResponseHours "json_obj list" | RequestFailed | MissingHours

type_synonym hours_api = "string \<Rightarrow> string \<Rightarrow> response"

text \<open>\<open>request_manager_stats\<close>: the \<open>strptime\<close> of the reference date and the date
  arithmetic are inside the \<open>try\<close>, but only a \<open>RequestException\<close> is caught and
  turned into \<open>[]\<close>; a \<open>ValueError\<close> of \<open>strptime\<close> or a \<open>KeyError\<close> of the body
  propagates. The query asks for \<open>start_of_month|reference date + 1 day\<close>.\<close>

definition request_manager_stats :: "string \<Rightarrow> hours_api \<Rightarrow> string \<Rightarrow> json_obj list result" where
  "request_manager_stats s api mid =
     rbind (strptime_mdy s) (\<lambda>d. rbind (next_day d) (\<lambda>adj.
       case api mid (date_str (first_of_month d) @ ''|'' @ date_str adj) of
         ResponseHours hs \<Rightarrow> Inr hs
       | RequestFailed \<Rightarrow> Inr []
       | MissingHours \<Rightarrow> Inl KeyError))"

subsection \<open>The timestamp of a record\<close>

text \<open>
  \<open>datetime.strptime(s, '%Y-%m-%d %H:%M:%S')\<close> (\<open>Lib/_strptime.py\<close>): the format
  becomes the regular expression
  \<open>(\d\d\d\d)-(1[0-2]|0[1-9]|[1-9])-(3[01]|[12]\d|0[1-9]|[1-9]| [1-9])\s+(2[0-3]|[0-1]\d|\d):([0-5]\d|\d):(6[0-1]|[0-5]\d|\d)\<close>,
  which must match the whole string; the fields are then checked by the \<open>datetime\<close>
  constructor (seconds 60 and 61 are refused there). Every failure is a
  \<open>ValueError\<close>. \<open>\s\<close> is a Unicode whitespace character (\<open>str.isspace\<close>).
\<close>

definition py_isspace :: "char \<Rightarrow> bool" where
  "py_isspace c \<longleftrightarrow> of_char c \<in> {9, 10, 11, 12, 13, 28, 29, 30, 31, 32, 133, 160 :: nat}"

definition strp_num :: "nat \<Rightarrow> string \<Rightarrow> nat option" where
  "strp_num hi f =
     (if f \<noteq> [] \<and> length f \<le> 2 \<and> list_all is_digit f \<and> nat_of_digits f \<le> hi
      then Some (nat_of_digits f) else None)"

text \<open>The day field: \<open>' '\<close> and a digit, or the run of digits after the second \<open>-\<close>.\<close>

definition split_day :: "string \<Rightarrow> string \<times> string" where
  "split_day r =
     (case r of
        c # c' # r' \<Rightarrow> if c = CHR '' '' \<and> is_digit c' then ([c, c'], r')
                       else (takeWhile is_digit r, dropWhile is_digit r)
      | _ \<Rightarrow> (takeWhile is_digit r, dropWhile is_digit r))"

definition strptime_timestamp :: "string \<Rightarrow> (date \<times> nat \<times> nat \<times> nat) result" where
  "strptime_timestamp s =
     (case str_split CHR ''-'' s of
        [y, m, r] \<Rightarrow>
          (let (d, r') = split_day r; t = dropWhile py_isspace r' in
           case str_split CHR '':'' t of
             [hh, mm, ss] \<Rightarrow>
               (case (strp_day d, strp_num 23 hh, strp_num 59 mm, strp_num 61 ss) of
                  (Some dd, Some h, Some mi, Some sec) \<Rightarrow>
                    if length y = 4 \<and> list_all is_digit y \<and> strp_field 12 m
                       \<and> r' \<noteq> [] \<and> py_isspace (hd r') \<and> sec \<le> 59
                    then rbind (mk_date (int (nat_of_digits y)) (int (nat_of_digits m)) (int dd))
                           (\<lambda>dt. Inr (dt, h, mi, sec))
                    else Inl ValueError
                | _ \<Rightarrow> Inl ValueError)
           | _ \<Rightarrow> Inl ValueError)
      | _ \<Rightarrow> Inl ValueError)"

subsection \<open>From Kyiv time to UTC-3\<close>

text \<open>
  \<open>pytz.timezone('Europe/Kyiv').localize(dt)\<close> with its default \<open>is_dst=False\<close>:
  Kyiv keeps UTC+2, and UTC+3 in summer, from the last Sunday of March at 01:00 UTC
  (04:00 summer time) to the last Sunday of October at 01:00 UTC (03:00 standard time).
  A wall time in the skipped hour (03:00--03:59 in March) or in the repeated hour
  (03:00--03:59 in October) gets the standard offset. The transition table of pytz ends
  in 2037, after which it keeps the last offset, standard time. The EU rule is applied
  from 1996 on, when Kyiv adopted it; the earlier history is not modelled.
\<close>

definition last_sunday :: "nat \<Rightarrow> nat \<Rightarrow> nat" where
  "last_sunday y m = 31 - (weekday (Date y m 31) + 1) mod 7"

definition kyiv_summer_time :: "date \<Rightarrow> nat \<Rightarrow> bool" where
  "kyiv_summer_time d h \<longleftrightarrow>
     1996 \<le> year d \<and> year d \<le> 2037 \<and>
     (3, last_sunday (year d) 3, 4) \<le> (month d, day d, h) \<and>
     (month d, day d, h) < (10, last_sunday (year d) 10, 3)"

text \<open>\<open>astimezone(pytz.timezone('Etc/GMT+3')).date()\<close>: UTC-3 is five hours behind
  Kyiv standard time and six behind summer time, so the date is the previous day before
  05:00 (06:00 in summer). \<open>localize\<close> first probes the wall time one day earlier and one
  day later (\<open>dt + timedelta(days=-1)\<close>, \<open>dt + timedelta(days=1)\<close>), which raises
  \<open>OverflowError\<close> at any hour of 0001-01-01 and of 9999-12-31.\<close>

definition utc3_date :: "date \<Rightarrow> nat \<Rightarrow> date result" where
  "utc3_date d h =
     (if d = Date 1 1 1 \<or> d = Date 9999 12 31 then Inl OverflowError
      else if h < (if kyiv_summer_time d h then 6 else 5) then prev_day d else Inr d)"

subsection \<open>Aggregation\<close>

text \<open>The value of the \<open>defaultdict\<close>: \<open>{'all_cnt': 0, 'unique_cnt': 0, 'duration': 0}\<close>.\<close>

record agg_counts =
  all_cnt :: int
  unique_cnt :: int
  duration :: int

definition zero_counts :: agg_counts where
  "zero_counts = \<lparr>all_cnt = 0, unique_cnt = 0, duration = 0\<rparr>"

text \<open>\<open>x or 0\<close>: \<open>None\<close>, \<open>0\<close> and \<open>''\<close> are false and give \<open>0\<close>.\<close>

definition py_or_zero :: "jval \<Rightarrow> jval" where
  "py_or_zero v = (case v of JNull \<Rightarrow> JInt 0 | JStr [] \<Rightarrow> JInt 0 | _ \<Rightarrow> v)"

text \<open>\<open>n += v\<close> on an \<open>int\<close>: \<open>TypeError\<close> unless \<open>v\<close> is an \<open>int\<close>.\<close>

definition py_iadd :: "int \<Rightarrow> jval \<Rightarrow> int result" where
  "py_iadd n v = (case v of JInt k \<Rightarrow> Inr (n + k) | _ \<Rightarrow> Inl TypeError)"

text \<open>One of lines 85--87: \<open>counter += entry[key] or 0\<close>.\<close>

definition add_counter :: "json_obj \<Rightarrow> string \<Rightarrow> int \<Rightarrow> int result" where
  "add_counter e k n = rbind (py_getitem e k) (\<lambda>v. py_iadd n (py_or_zero v))"

text \<open>Lines 80--83: the UTC-3 date of a record; \<open>strptime\<close> of a non-string is a
  \<open>TypeError\<close>.\<close>

definition entry_date :: "json_obj \<Rightarrow> date result" where
  "entry_date e =
     rbind (py_getitem e ''time'') (\<lambda>t.
       case t of
         JStr s \<Rightarrow> rbind (strptime_timestamp s) (\<lambda>(d, h, mi, sec). utc3_date d h)
       | _ \<Rightarrow> Inl TypeError)"

text \<open>Lines 85--87, in their order.\<close>

definition add_entry :: "json_obj \<Rightarrow> agg_counts \<Rightarrow> agg_counts result" where
  "add_entry e c =
     rbind (add_counter e ''all_cnt'' (all_cnt c)) (\<lambda>a.
     rbind (add_counter e ''unique_cnt'' (unique_cnt c)) (\<lambda>u.
     rbind (add_counter e ''duration'' (duration c)) (\<lambda>du.
       Inr \<lparr>all_cnt = a, unique_cnt = u, duration = du\<rparr>)))"

text \<open>The loop of lines 79--87 over the records, \<open>aggregated_data\<close> threaded through.\<close>

fun aggregate :: "json_obj list \<Rightarrow> (date, agg_counts) pydict \<Rightarrow> (date, agg_counts) pydict result" where
  "aggregate [] agg = Inr agg"
| "aggregate (e # es) agg =
     rbind (entry_date e) (\<lambda>d.
     rbind (add_entry e (case map_of agg d of Some c \<Rightarrow> c | None \<Rightarrow> zero_counts)) (\<lambda>c.
       aggregate es (py_setitem d c agg)))"

text \<open>The entry of \<open>total_stats\<close> (lines 102--107).\<close>

definition to_day_stats :: "date \<Rightarrow> agg_counts \<Rightarrow> day_stats" where
  "to_day_stats d c =
     \<lparr>calls = all_cnt c, uniques = unique_cnt c, minutes = duration c, date_key = date_str d\<rparr>"

text \<open>The loop of lines 99--107: the dates \<open>lo <= date_ <= hi\<close>, keyed by \<open>str(date_)\<close>.\<close>

fun month_window :: "date \<Rightarrow> date \<Rightarrow> (date, agg_counts) pydict \<Rightarrow> stats \<Rightarrow> stats" where
  "month_window lo hi [] st = st"
| "month_window lo hi ((d, c) # agg) st =
     month_window lo hi agg
       (if lo \<le> d \<and> d \<le> hi
        then py_setitem (date_str d) (to_day_stats d c) st
        else st)"

definition get_stats :: "string \<Rightarrow> hours_api \<Rightarrow> string \<Rightarrow> stats result" where
  "get_stats s api mid =
     rbind (request_manager_stats s api mid) (\<lambda>hs.
     rbind (aggregate hs []) (\<lambda>agg.
     rbind (strptime_mdy s) (\<lambda>rd.
       Inr (month_window (first_of_month rd) rd agg []))))"

subsection \<open>The per-day sums the aggregator promises\<close>

text \<open>
  The specification of \<open>get_stats\<close> in the spec's terms: each record contributes its
  UTC-3 date and its three counters (\<open>entry_value\<close>); the totals of a date are the sums
  of the counters of the records of that date (\<open>day_sum\<close>); the dictionary holds the
  dates of the window in the order in which they first occur (\<open>daily_totals\<close>).
  \<open>grouped_totals acc ps\<close> is a dictionary \<open>acc\<close> after the pairs \<open>ps\<close> have been
  added into it.
\<close>

definition add_counts :: "agg_counts \<Rightarrow> agg_counts \<Rightarrow> agg_counts" where
  "add_counts a b =
     \<lparr>all_cnt = all_cnt a + all_cnt b, unique_cnt = unique_cnt a + unique_cnt b,
      duration = duration a + duration b\<rparr>"

definition entry_value :: "json_obj \<Rightarrow> (date \<times> agg_counts) result" where
  "entry_value e = rbind (entry_date e) (\<lambda>d. rbind (add_entry e zero_counts) (\<lambda>c. Inr (d, c)))"

definition day_sum :: "date \<Rightarrow> (date \<times> agg_counts) list \<Rightarrow> agg_counts" where
  "day_sum d ps = foldr add_counts (map snd (filter (\<lambda>p. fst p = d) ps)) zero_counts"

definition grouped_totals ::
  "(date, agg_counts) pydict \<Rightarrow> (date \<times> agg_counts) list \<Rightarrow> (date, agg_counts) pydict" where
  "grouped_totals acc ps =
     map (\<lambda>(d, c). (d, add_counts c (day_sum d ps))) acc @
     map (\<lambda>d. (d, day_sum d ps)) (unique_in_order (filter (\<lambda>d. d \<notin> fst ` set acc) (map fst ps)))"

definition daily_totals :: "date \<Rightarrow> date \<Rightarrow> (date \<times> agg_counts) list \<Rightarrow> stats" where
  "daily_totals lo hi ps =
     map (\<lambda>d. (date_str d, to_day_stats d (day_sum d ps)))
       (filter (\<lambda>d. lo \<le> d \<and> d \<le> hi) (unique_in_order (map fst ps)))"

subsection \<open>Example records\<close>

text \<open>Three records of March 2024 (Kyiv standard time): one of the 13th at 10:00, one of
  the 14th at 04:30 with a null \<open>unique_cnt\<close>, which is still the 13th in UTC-3, and one
  of the 14th at 09:00, after the reference date 03/13/24.\<close>

definition example_hours :: "json_obj list" where
  "example_hours =
     [[(''time'', JStr ''2024-03-13 10:00:00''), (''all_cnt'', JInt 40), (''unique_cnt'', JInt 30),
       (''duration'', JInt 20)],
      [(''time'', JStr ''2024-03-14 04:30:00''), (''all_cnt'', JInt 5), (''unique_cnt'', JNull),
       (''duration'', JInt 3)],
      [(''time'', JStr ''2024-03-14 09:00:00''), (''all_cnt'', JInt 7), (''unique_cnt'', JInt 1),
       (''duration'', JInt 2)]]"

definition example_api :: "response \<Rightarrow> hours_api" where
  "example_api r mid q = (if q = ''2024-03-01|2024-03-14'' then r else RequestFailed)"

section \<open>Lemmas\<close>

subsection \<open>Counters\<close>

lemma add_counts_zero [simp]: "add_counts c zero_counts = c" "add_counts zero_counts c = c"
  by (simp_all add: add_counts_def zero_counts_def)

lemma add_counts_assoc: "add_counts (add_counts a b) c = add_counts a (add_counts b c)"
  by (simp add: add_counts_def)

lemma add_counter_shift:
  "add_counter e k n = rbind (add_counter e k 0) (\<lambda>x. Inr (n + x))"
  by (cases "py_getitem e k") (auto simp: add_counter_def py_iadd_def split: jval.splits)

lemma add_entry_shift:
  "add_entry e c = rbind (add_entry e zero_counts) (\<lambda>x. Inr (add_counts c x))"
proof -
  have z: "all_cnt zero_counts = 0" "unique_cnt zero_counts = 0" "duration zero_counts = 0"
    by (simp_all add: zero_counts_def)
  show ?thesis
    unfolding add_entry_def z
    by (subst (1 2 3) add_counter_shift,
        cases "add_counter e ''all_cnt'' 0"; cases "add_counter e ''unique_cnt'' 0";
        cases "add_counter e ''duration'' 0") (simp_all add: add_counts_def)
qed

lemma day_sum_Cons:
  "day_sum d' ((d, x) # ps) = (if d = d' then add_counts x (day_sum d' ps) else day_sum d' ps)"
  by (simp add: day_sum_def)


lemmas agg_eval = strptime_timestamp_def split_day_def strp_num_def py_isspace_def strp_day_def
  strp_field_def utc3_date_def kyiv_summer_time_def last_sunday_def py_str_eval

subsection \<open>Dictionaries filled record by record\<close>

lemma grouped_totals_Nil: "grouped_totals acc [] = acc"
proof -
  have "map (\<lambda>(d, c). (d, add_counts c (day_sum d []))) acc = acc"
    by (induction acc) (auto simp: day_sum_def)
  then show ?thesis by (simp add: grouped_totals_def)
qed

lemma grouped_totals_step:
  assumes dist: "distinct (map fst acc)"
  shows "grouped_totals
           (py_setitem d (add_counts (case map_of acc d of Some c \<Rightarrow> c | None \<Rightarrow> zero_counts) x) acc) ps
         = grouped_totals acc ((d, x) # ps)"
proof (cases "d \<in> fst ` set acc")
  case True
  then obtain c0 where c0: "map_of acc d = Some c0" by (auto dest: weak_map_of_SomeI)
  let ?acc' = "map (\<lambda>(k, w). (k, if k = d then add_counts c0 x else w)) acc"
  have set': "py_setitem d (add_counts c0 x) acc = ?acc'"
    using py_setitem_present [OF dist True] .
  have keys: "fst ` set ?acc' = fst ` set acc" by (force simp: image_iff)
  have first: "map (\<lambda>(k, c). (k, add_counts c (day_sum k ps))) ?acc' =
               map (\<lambda>(k, c). (k, add_counts c (day_sum k ((d, x) # ps)))) acc"
  proof -
    have "(k, w) \<in> set acc \<Longrightarrow> k = d \<Longrightarrow> w = c0" for k w
      using dist c0 by (simp add: map_of_is_SomeI)
    then show ?thesis by (auto simp: day_sum_Cons add_counts_assoc)
  qed
  have "filter (\<lambda>k. k \<notin> fst ` set acc) (map fst ((d, x) # ps)) = filter (\<lambda>k. k \<notin> fst ` set acc) (map fst ps)"
    using True by simp
  moreover have "map (\<lambda>k. (k, day_sum k ps)) (unique_in_order (filter (\<lambda>k. k \<notin> fst ` set acc) (map fst ps))) =
                 map (\<lambda>k. (k, day_sum k ((d, x) # ps))) (unique_in_order (filter (\<lambda>k. k \<notin> fst ` set acc) (map fst ps)))"
    using True by (auto simp: day_sum_Cons)
  ultimately show ?thesis
    using c0 set' keys first by (simp add: grouped_totals_def)
next
  case False
  then have c0: "map_of acc d = None" by (simp add: map_of_eq_None_iff)
  have set': "py_setitem d x acc = acc @ [(d, x)]"
    using py_setitem_absent [OF False] .
  have first: "map (\<lambda>(k, c). (k, add_counts c (day_sum k ps))) acc =
               map (\<lambda>(k, c). (k, add_counts c (day_sum k ((d, x) # ps)))) acc"
  proof -
    have "(k, w) \<in> set acc \<Longrightarrow> day_sum k ((d, x) # ps) = day_sum k ps" for k w
      using False by (force simp: day_sum_Cons)
    then show ?thesis unfolding map_eq_conv by auto
  qed
  have rest: "map (\<lambda>k. (k, day_sum k ps)) (unique_in_order (filter (\<lambda>k. k \<notin> insert d (fst ` set acc)) (map fst ps))) =
              map (\<lambda>k. (k, day_sum k ((d, x) # ps)))
                (unique_in_order (filter (\<lambda>y. y \<noteq> d) (filter (\<lambda>k. k \<notin> fst ` set acc) (map fst ps))))"
    by (auto simp: day_sum_Cons filter_filter conj_commute)
  show ?thesis
    using c0 set' first rest False by (simp add: grouped_totals_def unique_in_order_Cons day_sum_Cons)
qed

lemma aggregate_grouped:
  "distinct (map fst acc) \<Longrightarrow>
   aggregate es acc = rbind (map_result entry_value es) (\<lambda>ps. Inr (grouped_totals acc ps))"
proof (induction es arbitrary: acc)
  case Nil
  then show ?case by (simp add: grouped_totals_Nil)
next
  case (Cons e es)
  show ?case
  proof (cases "entry_date e")
    case (Inr d)
    show ?thesis
    proof (cases "add_entry e zero_counts")
      case (Inr x)
      let ?c = "add_counts (case map_of acc d of Some c \<Rightarrow> c | None \<Rightarrow> zero_counts) x"
      have "aggregate (e # es) acc = aggregate es (py_setitem d ?c acc)"
        using \<open>entry_date e = Inr d\<close> Inr
        by (simp add: add_entry_shift [of e "case map_of acc d of Some c \<Rightarrow> c | None \<Rightarrow> zero_counts"])
      also have "\<dots> = rbind (map_result entry_value es) (\<lambda>ps. Inr (grouped_totals (py_setitem d ?c acc) ps))"
        using Cons by (simp add: py_setitem_def)
      also have "\<dots> = rbind (map_result entry_value (e # es)) (\<lambda>ps. Inr (grouped_totals acc ps))"
      proof -
        have ev: "entry_value e = Inr (d, x)"
          using \<open>entry_date e = Inr d\<close> Inr by (simp add: entry_value_def)
        show ?thesis
          by (cases "map_result entry_value es") (simp_all add: ev grouped_totals_step Cons.prems)
      qed
      finally show ?thesis .
    qed (use \<open>entry_date e = Inr d\<close> in
          \<open>simp add: entry_value_def
             add_entry_shift [of e "case map_of acc d of Some c \<Rightarrow> c | None \<Rightarrow> zero_counts"]\<close>)
  qed (simp add: entry_value_def)
qed


lemma strptime_timestamp_valid:
  "strptime_timestamp s = Inr (d, h, mi, sec) \<Longrightarrow> valid_date d \<and> h < 24 \<and> mi < 60 \<and> sec < 60"
  by (auto simp: strptime_timestamp_def strp_num_def Let_def
      split: list.splits prod.splits option.splits if_splits dest: mk_date_Inr)

lemma utc3_date_valid: "valid_date d \<Longrightarrow> utc3_date d h = Inr e \<Longrightarrow> valid_date e"
  by (auto simp: utc3_date_def split: if_splits dest: toordinal_prev_day)

lemma entry_date_valid:
  assumes "entry_date e = Inr d"
  shows "valid_date d"
proof -
  obtain t where t: "(case t of JStr s \<Rightarrow> rbind (strptime_timestamp s) (\<lambda>(d, h, mi, sec). utc3_date d h)
                                | _ \<Rightarrow> Inl TypeError) = Inr d"
    using assms by (auto simp: entry_date_def)
  then obtain s where "rbind (strptime_timestamp s) (\<lambda>(d, h, mi, sec). utc3_date d h) = Inr d"
    by (cases t) auto
  then obtain d0 h mi sec where "strptime_timestamp s = Inr (d0, h, mi, sec)" "utc3_date d0 h = Inr d"
    by (auto split: prod.splits)
  then show ?thesis using strptime_timestamp_valid utc3_date_valid by blast
qed

lemma entry_values_valid:
  assumes "map_result entry_value es = Inr ps" "p \<in> set ps"
  shows "valid_date (fst p)"
proof -
  obtain e where "entry_value e = Inr p" using map_result_Inr_set [OF assms] by blast
  then have "entry_date e = Inr (fst p)" by (auto simp: entry_value_def)
  then show ?thesis by (rule entry_date_valid)
qed

lemma month_window_append:
  assumes "distinct (map fst agg)" "\<forall>(d, c) \<in> set agg. date_str d \<notin> fst ` set st"
  shows "month_window lo hi agg st =
           st @ map (\<lambda>(d, c). (date_str d, to_day_stats d c)) (filter (\<lambda>(d, c). lo \<le> d \<and> d \<le> hi) agg)"
  using assms
proof (induction agg arbitrary: st)
  case (Cons dc agg)
  obtain d c where dc: "dc = (d, c)" by (cases dc)
  have fresh: "\<forall>(d', c') \<in> set agg. date_str d' \<notin> insert (date_str d) (fst ` set st)"
    using Cons.prems dc by (force simp: date_str_inj)
  show ?case
  proof (cases "lo \<le> d \<and> d \<le> hi")
    case True
    have "py_setitem (date_str d) (to_day_stats d c) st = st @ [(date_str d, to_day_stats d c)]"
      using Cons.prems dc by (simp add: py_setitem_absent)
    then show ?thesis using Cons.IH [of "st @ [(date_str d, to_day_stats d c)]"] Cons.prems True dc fresh
      by simp
  next
    case False
    then show ?thesis using Cons.IH [of st] Cons.prems dc fresh by auto
  qed
qed simp

lemma month_window_grouped: "month_window lo hi (grouped_totals [] ps) [] = daily_totals lo hi ps"
proof -
  have g: "grouped_totals [] ps = map (\<lambda>d. (d, day_sum d ps)) (unique_in_order (map fst ps))"
    by (simp add: grouped_totals_def)
  have "distinct (map fst (grouped_totals [] ps))" by (simp add: g comp_def)
  then show ?thesis
    by (simp add: month_window_append g daily_totals_def filter_map comp_def)
qed

lemma daily_totals_inv:
  assumes "\<forall>p \<in> set ps. valid_date (fst p)"
  shows "stats_inv rd (daily_totals (first_of_month rd) rd ps)"
proof -
  have "inj_on date_str (set (filter (\<lambda>d. first_of_month rd \<le> d \<and> d \<le> rd) (unique_in_order (map fst ps))))"
    by (simp add: inj_on_def date_str_inj)
  then have "distinct (map fst (daily_totals (first_of_month rd) rd ps))"
    by (simp add: daily_totals_def comp_def distinct_map)
  moreover have "list_all (\<lambda>(k, v). date_key v = k \<and>
       (case parse_ymd k of Inr e \<Rightarrow> date_str e = k \<and> first_of_month rd \<le> e \<and> e \<le> rd | Inl _ \<Rightarrow> False))
       (daily_totals (first_of_month rd) rd ps)"
    using assms by (auto simp: daily_totals_def list_all_iff to_day_stats_def)
  ultimately show ?thesis by (simp add: stats_inv_def)
qed


subsection \<open>Evaluation on the example\<close>

lemma example_request:
  "request_manager_stats ''03/13/24'' (example_api r) mid =
     (case r of ResponseHours hs \<Rightarrow> Inr hs | RequestFailed \<Rightarrow> Inr [] | MissingHours \<Rightarrow> Inl KeyError)"
  by (simp add: request_manager_stats_def example_api_def strptime_mdy_def agg_eval mk_date_def
      date_eval date_str_def str_of_nat_eval)

lemma example_get_stats:
  "get_stats ''03/13/24'' (example_api (ResponseHours example_hours)) mid =
     Inr [(''2024-03-13'', \<lparr>calls = 45, uniques = 30, minutes = 23, date_key = ''2024-03-13''\<rparr>)]"
  by (simp add: get_stats_def example_request example_hours_def entry_date_def py_getitem_def
      add_entry_def add_counter_def py_or_zero_def py_iadd_def zero_counts_def py_setitem_def
      strptime_mdy_def agg_eval mk_date_def date_eval to_day_stats_def date_str_def str_of_nat_eval)

lemma example_strptime: "strptime_mdy ''03/13/24'' = Inr (Date 2024 3 13)"
  by (simp add: strptime_mdy_def agg_eval mk_date_def date_eval)


lemma get_stats_stats_inv:
  assumes "get_stats s api mid = Inr st" "strptime_mdy s = Inr rd"
  shows "stats_inv rd st"
proof -
  obtain hs agg where "aggregate hs [] = Inr agg" "st = month_window (first_of_month rd) rd agg []"
    using assms by (auto simp: get_stats_def)
  then obtain ps where "map_result entry_value hs = Inr ps" "st = daily_totals (first_of_month rd) rd ps"
    by (auto simp: aggregate_grouped month_window_grouped)
  then show ?thesis using entry_values_valid daily_totals_inv by blast
qed

subsection \<open>The aggregator against its specification\<close>

text \<open>C10: get_stats refines the spec's aggregation: a successful run yields, for each
  UTC-3 date of the month-to-date window on which some record falls, the sums of the
  records' counters (null counted as 0), in the order the dates first occur; the first
  failing record or request makes it raise.\<close>

theorem get_stats_daily_totals:
  "get_stats s api mid =
     rbind (request_manager_stats s api mid) (\<lambda>hs.
     rbind (map_result entry_value hs) (\<lambda>ps.
     rbind (strptime_mdy s) (\<lambda>rd. Inr (daily_totals (first_of_month rd) rd ps))))"
proof -
  have "aggregate hs [] = rbind (map_result entry_value hs) (\<lambda>ps. Inr (grouped_totals [] ps))" for hs
    by (simp add: aggregate_grouped)
  then show ?thesis
    by (simp add: get_stats_def month_window_grouped)
qed

text \<open>C11: whatever the API returns, a statistics dictionary produced by get_stats has
  distinct ISO date keys, each the key of its own entry and within the first of the month
  and the reference date: the interface the calculator's lemmas assume.\<close>

theorem get_stats_inv:
  assumes "get_stats s api mid = Inr st" "strptime_mdy s = Inr rd"
  shows "stats_inv rd st"
  using get_stats_stats_inv [OF assms] .

theorem get_stats_inv_witness:
  "get_stats ''03/13/24'' (example_api (ResponseHours example_hours)) ''7'' =
     Inr [(''2024-03-13'', \<lparr>calls = 45, uniques = 30, minutes = 23, date_key = ''2024-03-13''\<rparr>)] \<and>
   strptime_mdy ''03/13/24'' = Inr (Date 2024 3 13) \<and>
   stats_inv (Date 2024 3 13)
     [(''2024-03-13'', \<lparr>calls = 45, uniques = 30, minutes = 23, date_key = ''2024-03-13''\<rparr>)]"
  using get_stats_inv [OF example_get_stats example_strptime] example_get_stats example_strptime
  by simp

subsection \<open>Records and requests that make get_stats raise or return nothing\<close>

text \<open>C12: a record whose timestamp is fine but which has no all_cnt key makes get_stats
  raise KeyError; the spec says a missing counter is treated as zero.\<close>

theorem get_stats_missing_counter:
  assumes "request_manager_stats s api mid = Inr (e # hs)" "entry_date e = Inr d"
    and "map_of e ''all_cnt'' = None"
  shows "get_stats s api mid = Inl KeyError"
  using assms by (simp add: get_stats_def add_entry_def add_counter_def py_getitem_def)

theorem get_stats_missing_counter_witness:
  "request_manager_stats ''03/13/24''
      (example_api (ResponseHours [[(''time'', JStr ''2024-03-13 10:00:00''), (''unique_cnt'', JInt 1)]])) ''7''
     = Inr [[(''time'', JStr ''2024-03-13 10:00:00''), (''unique_cnt'', JInt 1)]] \<and>
   entry_date [(''time'', JStr ''2024-03-13 10:00:00''), (''unique_cnt'', JInt 1)] = Inr (Date 2024 3 13) \<and>
   map_of [(''time'', JStr ''2024-03-13 10:00:00''), (''unique_cnt'', JInt 1)] ''all_cnt'' = None \<and>
   get_stats ''03/13/24''
      (example_api (ResponseHours [[(''time'', JStr ''2024-03-13 10:00:00''), (''unique_cnt'', JInt 1)]])) ''7''
     = Inl KeyError"
proof -
  have h1: "request_manager_stats ''03/13/24''
      (example_api (ResponseHours [[(''time'', JStr ''2024-03-13 10:00:00''), (''unique_cnt'', JInt 1)]])) ''7''
     = Inr [[(''time'', JStr ''2024-03-13 10:00:00''), (''unique_cnt'', JInt 1)]]"
    by (simp add: example_request)
  have h2: "entry_date [(''time'', JStr ''2024-03-13 10:00:00''), (''unique_cnt'', JInt 1)] = Inr (Date 2024 3 13)"
    by (simp add: entry_date_def py_getitem_def agg_eval mk_date_def date_eval)
  have h3: "map_of [(''time'', JStr ''2024-03-13 10:00:00''), (''unique_cnt'', JInt 1)] ''all_cnt'' = None"
    by simp
  show ?thesis using get_stats_missing_counter [OF h1 h2 h3] h1 h2 h3 by simp
qed

text \<open>C13: when the request fails (network error, error status, a body that is no JSON),
  request_manager_stats swallows the exception and get_stats returns an empty dictionary
  for a reference date that parses.\<close>

theorem get_stats_request_failed:
  assumes "strptime_mdy s = Inr rd" "next_day rd = Inr adj"
    and "api mid (date_str (first_of_month rd) @ ''|'' @ date_str adj) = RequestFailed"
  shows "get_stats s api mid = Inr []"
  using assms by (simp add: get_stats_def request_manager_stats_def)

theorem get_stats_request_failed_witness:
  "strptime_mdy ''03/13/24'' = Inr (Date 2024 3 13) \<and> next_day (Date 2024 3 13) = Inr (Date 2024 3 14) \<and>
   example_api RequestFailed ''7'' (date_str (first_of_month (Date 2024 3 13)) @ ''|'' @ date_str (Date 2024 3 14))
     = RequestFailed \<and>
   get_stats ''03/13/24'' (example_api RequestFailed) ''7'' = Inr []"
proof -
  have h2: "next_day (Date 2024 3 13) = Inr (Date 2024 3 14)" by (simp add: date_eval)
  have h3: "example_api RequestFailed ''7'' (date_str (first_of_month (Date 2024 3 13)) @ ''|'' @ date_str (Date 2024 3 14))
     = RequestFailed" by (simp add: example_api_def)
  show ?thesis
    using get_stats_request_failed [of _ _ _ "example_api RequestFailed" "''7''", OF example_strptime h2 h3]
      example_strptime h2 h3 by simp
qed

subsection \<open>The day of a record in UTC-3\<close>

lemma prev_day_ok: "valid_date d \<Longrightarrow> d \<noteq> Date 1 1 1 \<Longrightarrow> \<exists>e. prev_day d = Inr e"
  by (cases d) (auto simp: prev_day_def valid_date_def)

text \<open>C14: the UTC-3 date of a Kyiv wall time: for a valid date and hour, utc3_date raises
  OverflowError exactly on 0001-01-01 and 9999-12-31, and otherwise returns the valid date
  of the instant five hours earlier (six in summer time), that is the day whose ordinal is
  the local time in hours minus the offset, divided by 24.\<close>

theorem utc3_date_instant:
  assumes v: "valid_date d" and h: "h \<le> 23"
  shows "(utc3_date d h = Inl OverflowError \<longleftrightarrow> d = Date 1 1 1 \<or> d = Date 9999 12 31) \<and>
         (d \<noteq> Date 1 1 1 \<and> d \<noteq> Date 9999 12 31 \<longrightarrow>
           (\<exists>e. utc3_date d h = Inr e \<and> valid_date e \<and>
                toordinal e = (24 * toordinal d + h - (if kyiv_summer_time d h then 6 else 5)) div 24))"
proof (cases "d = Date 1 1 1 \<or> d = Date 9999 12 31")
  case True
  then show ?thesis by (elim disjE) (simp_all add: utc3_date_def)
next
  case False
  define off :: nat where "off = (if kyiv_summer_time d h then 6 else 5)"
  have off: "5 \<le> off" "off \<le> 6" by (simp_all add: off_def)
  have "\<exists>e. utc3_date d h = Inr e \<and> valid_date e \<and> toordinal e = (24 * toordinal d + h - off) div 24"
  proof (cases "h < off")
    case True
    obtain e where e: "prev_day d = Inr e" using prev_day_ok [OF v] False by blast
    have o: "valid_date e" "Suc (toordinal e) = toordinal d" using toordinal_prev_day [OF v e] by simp_all
    have "24 * toordinal d + h - off = 24 * toordinal e + (24 + h - off)" using o(2) True off by simp
    then have "(24 * toordinal d + h - off) div 24 = toordinal e" using True off by simp
    with e o True False show ?thesis by (simp add: utc3_date_def off_def [symmetric])
  next
    case False': False
    have "(24 * toordinal d + h - off) div 24 = toordinal d" using False' h off by simp
    with False False' v show ?thesis by (simp add: utc3_date_def off_def [symmetric])
  qed
  then show ?thesis using False by (auto simp: off_def)
qed

theorem utc3_date_instant_witness:
  "valid_date (Date 2024 7 1) \<and> (5::nat) \<le> 23 \<and> utc3_date (Date 2024 7 1) 5 \<noteq> Inl OverflowError \<and>
   (\<exists>e. utc3_date (Date 2024 7 1) 5 = Inr e \<and> valid_date e \<and>
      toordinal e = (24 * toordinal (Date 2024 7 1) + 5 - (if kyiv_summer_time (Date 2024 7 1) 5 then 6 else 5)) div 24)"
proof -
  have h1: "valid_date (Date 2024 7 1)" by (simp add: valid_date_def date_eval)
  have h2: "(5::nat) \<le> 23" by simp
  show ?thesis using utc3_date_instant [OF h1 h2] h1 h2 by simp
qed

end
