(* ===== verification/Report.thy ===== *)
theory Report
  imports Aggregator
begin

text \<open>
  The report renderer, \<open>write_stats\<close> of \<open>src/image_editing.py\<close> (lines 27--91), with
  \<open>request_manager_name\<close> of \<open>src/data_handling.py\<close> (lines 37--49) that it calls first.
  \<open>write_stats\<close> computes every figure of the report from the statistics, skips the
  manager when the reference date is not among the worked dates, and otherwise draws the
  figures on the template and saves it as \<open><folder>/<DD>_<MM>_<YY>/<manager name>.png\<close>.
  The model returns what would be saved: the path and every text the template receives
  (pixel positions and fonts are layout only). The lemmas show when it skips, what the
  yaware target is, and that the saved path depends on the manager only through the name.
\<close>

section \<open>Definitions\<close>

subsection \<open>The manager's name\<close>

text \<open>The outcome of the name request: the JSON fields \<open>data.user_info.first_name\<close> and
  \<open>second_name\<close>, a \<open>RequestException\<close>, or a body without these keys.\<close>

datatype name_response = NameFields string string | NameRequestFailed | NameMissing

type_synonym name_api = "string \<Rightarrow> name_response"

text \<open>\<open>request_manager_name\<close>: only a \<open>RequestException\<close> is caught, and it becomes the
  name \<open>"Unknown Manager"\<close>; a missing key raises \<open>KeyError\<close>.\<close>

definition request_manager_name :: "name_api \<Rightarrow> string \<Rightarrow> string result" where
  "request_manager_name api mid =
     (case api mid of
        NameFields f s \<Rightarrow> Inr (f @ '' '' @ s)
      | NameRequestFailed \<Rightarrow> Inr ''Unknown Manager''
      | NameMissing \<Rightarrow> Inl KeyError)"

subsection \<open>Figures of the report\<close>

text \<open>
  Lines 42--46: \<open>int(month_worked_days) * daily_targets["yaware"]\<close>, a \<open>timedelta\<close> of
  7 h 30 min (27000 s) per worked day (\<open>OverflowError\<close> beyond 999999999 days), then
  hours \<open>seconds // 3600\<close> and minutes \<open>int(seconds % 3600) // 60\<close>, printed as
  \<open>f"{h}:{m:02d}:00"\<close>. The seconds are an exact float below \<open>2^53\<close>; Python's \<open>//\<close>
  and \<open>%\<close> round towards minus infinity, as \<open>div\<close> and \<open>mod\<close> on \<open>int\<close> do.
\<close>

definition yaware_day_seconds :: int where
  "yaware_day_seconds = 7 * 3600 + 30 * 60"

definition yaware_target :: "string \<Rightarrow> string result" where
  "yaware_target mwd =
     rbind (py_int mwd) (\<lambda>n.
       let secs = n * yaware_day_seconds in
       if secs div 86400 < -999999999 \<or> 999999999 < secs div 86400 then Inl OverflowError
       else Inr (str_of_int (secs div 3600) @ '':'' @ pad_zeros 2 (nat ((secs mod 3600) div 60)) @ '':00''))"

text \<open>Line 76: \<open>worked_date, worked_weekday = week_worked_date.split("/")\<close>.\<close>

definition split_date_label :: "string \<Rightarrow> (string \<times> string) result" where
  "split_date_label w = (case str_split CHR ''/'' w of [a, b] \<Rightarrow> Inr (a, b) | _ \<Rightarrow> Inl ValueError)"

text \<open>\<open>os.path.join(a, b)\<close> on POSIX.\<close>

definition path_join :: "string \<Rightarrow> string \<Rightarrow> string" where
  "path_join a b =
     (if b \<noteq> [] \<and> hd b = CHR ''/'' then b
      else if a = [] \<or> last a = CHR ''/'' then a @ b
      else a @ ''/'' @ b)"

text \<open>Lines 88--89 (and \<open>create_date_folder\<close> of the GUI): \<open>f"{day}_{month}_{year}"\<close>.\<close>

definition folder_date :: "string \<Rightarrow> string result" where
  "folder_date s = (case str_split CHR ''/'' s of [m, d, y] \<Rightarrow> Inr (d @ ''_'' @ m @ ''_'' @ y) | _ \<Rightarrow> Inl ValueError)"

text \<open>Every text the template receives, in the order of lines 53--85.\<close>

record report =
  rep_manager :: string
  rep_targets :: week_targets
  rep_week :: "string \<times> string \<times> string"
  rep_circles :: "string \<times> string \<times> string"
  rep_month_days :: string
  rep_yaware :: string
  rep_dates :: "(string \<times> string) list"
  rep_daily :: "(string \<times> string \<times> string) list"

datatype write_outcome = Skipped | Saved string string report

text \<open>The report of the example statistics \<open>example_gap\<close> of the calculator for the
  reference date 03/13/24, under the manager name \<open>mgr\<close>.\<close>

definition example_report :: "string \<Rightarrow> report" where
  "example_report mgr =
     \<lparr>rep_manager = mgr,
      rep_targets = \<lparr>target_calls = ''260'', target_uniques = ''220'', target_minutes = ''120''\<rparr>,
      rep_week = (''280'', ''210'', ''105''),
      rep_circles = (''green_circle.png'', ''red_circle.png'', ''red_circle.png''),
      rep_month_days = ''2'', rep_yaware = ''15:00:00'',
      rep_dates = [(''08-mar'', ''sex''), (''13-mar'', ''qua'')],
      rep_daily = [(''150'', ''90'', ''40''), (''130'', ''120'', ''65'')]\<rparr>"

text \<open>
  \<open>write_stats\<close>: all figures are computed before the guard of lines 36--39, each call
  raising on its own; a skipped manager has still cost a name request. \<open>Saved dir path
  r\<close> is the folder that \<open>os.makedirs(..., exist_ok=True)\<close> creates, the file that
  \<open>template.save\<close> writes, and its texts.
\<close>

definition write_stats :: "string \<Rightarrow> stats \<Rightarrow> name_api \<Rightarrow> string \<Rightarrow> string \<Rightarrow> write_outcome result" where
  "write_stats s st names out mid =
     rbind (request_manager_name names mid) (\<lambda>manager.
     rbind (calc_week_targets s st) (\<lambda>targets.
     rbind (calc_week_results s st) (\<lambda>week.
     rbind (indicator_circle s st) (\<lambda>circles.
     (let month_days = month_targets st in
     rbind (format_worked_dates s st) (\<lambda>labels.
     rbind (get_daily_results s st) (\<lambda>daily.
     rbind (api_date_format s) (\<lambda>iso_date.
     rbind (get_worked_dates s st) (\<lambda>wds.
       if iso_date \<notin> set wds then Inr Skipped
       else
         rbind (yaware_target month_days) (\<lambda>yaware.
         rbind (map_result split_date_label labels) (\<lambda>dates.
         rbind (folder_date s) (\<lambda>fd.
           Inr (Saved (path_join out fd) (path_join (path_join out fd) (manager @ ''.png''))
             \<lparr>rep_manager = manager, rep_targets = targets,
              rep_week = (str_of_int (calls week), str_of_int (uniques week), str_of_int (minutes week)),
              rep_circles = (circle_name (calls_circle circles) @ ''.png'',
                             circle_name (uniques_circle circles) @ ''.png'',
                             circle_name (minutes_circle circles) @ ''.png''),
              rep_month_days = month_days, rep_yaware = yaware, rep_dates = dates,
              rep_daily = map (\<lambda>(k, t). (str_of_int (calls t), str_of_int (uniques t), str_of_int (minutes t))) daily\<rparr>)))))))))))))"

section \<open>Lemmas\<close>

subsection \<open>The yaware target and the guard\<close>

lemma yaware_split:
  fixes n :: nat
  shows "int n * yaware_day_seconds div 3600 = int (n * 15 div 2)"
    and "(int n * yaware_day_seconds mod 3600) div 60 = 30 * int (n mod 2)"
proof -
  have e: "int n * yaware_day_seconds = 3600 * int (n * 15 div 2) + 1800 * int (n mod 2)"
  proof -
    have "n * 15 = 2 * (n * 15 div 2) + (n * 15) mod 2" by simp
    moreover have "(n * 15) mod 2 = n mod 2" by (simp add: mod_mult_left_eq [of n 15 2, symmetric] mod2_eq_if)
    ultimately have "n * 15 = 2 * (n * 15 div 2) + n mod 2" by simp
    then have "int (n * 15) = 2 * int (n * 15 div 2) + int (n mod 2)" by linarith
    then show ?thesis by (simp add: yaware_day_seconds_def)
  qed
  have m: "1800 * int (n mod 2) < 3600" by (cases "even n") auto
  show "int n * yaware_day_seconds div 3600 = int (n * 15 div 2)"
    unfolding e using m by simp
  show "(int n * yaware_day_seconds mod 3600) div 60 = 30 * int (n mod 2)"
    unfolding e using m by (simp add: mod_add_left_eq [symmetric])
qed

lemma yaware_target_value:
  assumes "n \<le> 3199999999"
  shows "yaware_target (str_of_nat n) =
           Inr (str_of_nat (n * 15 div 2) @ '':'' @ (if even n then ''00'' else ''30'') @ '':00'')"
proof -
  have s: "int n * yaware_day_seconds div 3600 = int (n * 15 div 2)"
    "(int n * yaware_day_seconds mod 3600) div 60 = 30 * int (n mod 2)"
    by (rule yaware_split)+
  have "int n * yaware_day_seconds \<le> 86399999999999"
    using assms by (simp add: yaware_day_seconds_def)
  then have hi: "int n * yaware_day_seconds div 86400 \<le> 999999999"
    using zdiv_mono1 [of "int n * yaware_day_seconds" 86399999999999 86400] by simp
  have lo: "0 \<le> int n * yaware_day_seconds div 86400"
    by (simp add: yaware_day_seconds_def)
  have p: "pad_zeros 2 (nat (30 * int (n mod 2))) = (if even n then ''00'' else ''30'')"
    by (cases "even n") (simp_all add: odd_iff_mod_2_eq_one str_of_nat_eval)
  show ?thesis
    using hi lo by (simp add: yaware_target_def s p str_of_int_def Let_def)
qed

lemma split_worked_date_label:
  assumes "valid_date e" "format_worked_date (date_str e) = Inr l"
  shows "\<exists>m w. py_getitem months (pad_zeros 2 (month e)) = Inr m \<and>
           py_getitem weekdays (str_of_nat (weekday e)) = Inr w \<and>
           split_date_label l = Inr (pad_zeros 2 (day e) @ ''-'' @ m, w)"
proof -
  obtain m w where m: "py_getitem months (pad_zeros 2 (month e)) = Inr m"
    and w: "py_getitem weekdays (str_of_nat (weekday e)) = Inr w"
    and l: "l = pad_zeros 2 (day e) @ ''-'' @ m @ ''/'' @ w"
    using format_worked_date_shape [OF assms(1)] assms(2) by (metis Inr_inject)
  have "CHR ''/'' \<notin> set (pad_zeros 2 (day e) @ ''-'' @ m)"
    using months_no_slash [OF m] digits_not_sep by (auto simp: list_all_iff)
  moreover have "CHR ''/'' \<notin> set w" by (rule weekdays_no_slash [OF w])
  ultimately have "str_split CHR ''/'' l = [pad_zeros 2 (day e) @ ''-'' @ m, w]"
    using l str_split_append_sep [of "CHR ''/''" "pad_zeros 2 (day e) @ ''-'' @ m" w]
    by (simp add: str_split_no_sep)
  with m w show ?thesis by (simp add: split_date_label_def)
qed

lemma write_stats_guard_branch:
  assumes "api_date_format s = Inr idate" "get_worked_dates s st = Inr wds"
    and "write_stats s st names out mid = Inr r"
  shows "r = Skipped \<longleftrightarrow> idate \<notin> set wds"
  using assms by (auto simp: write_stats_def Let_def split: if_splits)


lemma write_stats_skip_guard:
  assumes ok: "ref_date_ok rd" and inv: "stats_inv rd st"
    and w: "write_stats (ref_date_str rd) st names out mid = Inr r"
  shows "r = Skipped \<longleftrightarrow> date_str rd \<notin> set (map fst st)"
proof -
  have idate: "api_date_format (ref_date_str rd) = Inr (date_str rd)"
    using ok by (simp add: api_date_format_def ref_date_ok_def format_date_ref_date_str)
  obtain wds where wd: "get_worked_dates (ref_date_str rd) st = Inr wds"
    using w by (auto simp: write_stats_def Let_def)
  show ?thesis
    using write_stats_guard_branch [OF idate wd w] worked_dates_guard [OF ok inv wd] by simp
qed

subsection \<open>Evaluation on the example\<close>

lemma example_iso: "api_date_format (ref_date_str (Date 2024 3 13)) = Inr (date_str (Date 2024 3 13))"
  by (simp add: api_date_format_def format_date_ref_date_str date_eval)

lemma example_labels: "format_worked_dates (ref_date_str (Date 2024 3 13)) example_gap = Inr [''08-mar/sex'', ''13-mar/qua'']"
  by (simp add: format_worked_dates_def worked_dates_example_gap format_worked_date_def
      str_split_date_str py_index_def py_getitem_def months_def weekdays_def get_weekday_date_str
      date_eval str_of_nat_eval)


lemma example_targets: "calc_week_targets (ref_date_str (Date 2024 3 13)) example_gap =
   Inr \<lparr>target_calls = ''260'', target_uniques = ''220'', target_minutes = ''120''\<rparr>"
proof -
  have "str_of_nat 260 = ''260''" "str_of_nat 220 = ''220''" "str_of_nat 120 = ''120''"
    by (simp_all add: str_of_nat_eval)
  then show ?thesis by (simp add: calc_week_targets_def worked_dates_example_gap)
qed

lemma example_week: "calc_week_results (ref_date_str (Date 2024 3 13)) example_gap =
   Inr \<lparr>calls = 280, uniques = 210, minutes = 105\<rparr>"
  by (simp add: calc_week_results_def worked_dates_example_gap,
      simp add: example_gap_def day_entry_def date_str_eq_iff date_eval zero_totals_def)

lemma example_yaware: "yaware_target ''2'' = Inr ''15:00:00''"
proof -
  have "py_int ''2'' = Inr 2" by (simp add: py_str_eval)
  moreover have "str_of_int 15 = ''15''" "pad_zeros 2 0 = ''00''"
    by (simp_all add: str_of_int_def str_of_nat_eval)
  ultimately show ?thesis by (simp add: yaware_target_def yaware_day_seconds_def)
qed

lemma example_folder: "folder_date (ref_date_str (Date 2024 3 13)) = Inr ''13_03_24''"
proof -
  have "ref_date_str (Date 2024 3 13) = ''03/13/24''" by (simp add: ref_date_str_def str_of_nat_eval)
  then show ?thesis by (simp add: folder_date_def)
qed

lemma example_circles: "indicator_circle (ref_date_str (Date 2024 3 13)) example_gap =
   Inr \<lparr>calls_circle = GreenCircle, uniques_circle = RedCircle, minutes_circle = RedCircle\<rparr>"
proof -
  have "py_int ''260'' = Inr 260" "py_int ''220'' = Inr 220" "py_int ''120'' = Inr 120"
    by (simp_all add: py_str_eval)
  then show ?thesis by (simp add: indicator_circle_def example_targets example_week circle_color_def)
qed

lemma example_daily: "get_daily_results (ref_date_str (Date 2024 3 13)) example_gap =
   Inr [(date_str (Date 2024 3 8), \<lparr>calls = 150, uniques = 90, minutes = 40\<rparr>),
        (date_str (Date 2024 3 13), \<lparr>calls = 130, uniques = 120, minutes = 65\<rparr>)]"
  by (simp add: get_daily_results_def worked_dates_example_gap,
      simp add: example_gap_def day_entry_def date_str_eq_iff date_eval)

lemma example_write:
  "write_stats (ref_date_str (Date 2024 3 13)) example_gap names ''out'' mid =
     rbind (request_manager_name names mid)
       (\<lambda>mgr. Inr (Saved ''out/13_03_24'' (path_join ''out/13_03_24'' (mgr @ ''.png'')) (example_report mgr)))"
proof -
  have "length example_gap = 2" by (simp add: example_gap_def)
  then have m: "month_targets example_gap = ''2''"
    by (simp only: month_targets_def) (simp add: str_of_nat_eval)
  have i: "str_of_int 280 = ''280''" "str_of_int 210 = ''210''" "str_of_int 105 = ''105''"
    "str_of_int 150 = ''150''" "str_of_int 90 = ''90''" "str_of_int 40 = ''40''"
    "str_of_int 130 = ''130''" "str_of_int 120 = ''120''" "str_of_int 65 = ''65''"
    by (simp_all add: str_of_int_def str_of_nat_eval)
  have j: "path_join ''out'' ''13_03_24'' = ''out/13_03_24''" by (simp add: path_join_def)
  show ?thesis
    by (simp add: write_stats_def example_iso example_labels worked_dates_example_gap
        example_targets example_week example_circles example_daily example_yaware example_folder m i j
        split_date_label_def circle_name_def example_report_def Let_def)
qed


subsection \<open>Properties of write_stats\<close>

text \<open>C2: for a reference date from the picker and statistics that satisfy the aggregator's
  interface, write_stats skips the manager (returns without saving) exactly when the
  statistics have no entry for the reference date; otherwise it saves a report.\<close>

theorem write_stats_skips_iff:
  assumes "ref_date_ok rd" "stats_inv rd st" "write_stats (ref_date_str rd) st names out mid = Inr r"
  shows "r = Skipped \<longleftrightarrow> date_str rd \<notin> set (map fst st)"
  using write_stats_skip_guard [OF assms] .

theorem write_stats_skips_iff_witness:
  "ref_date_ok (Date 2024 3 13) \<and> stats_inv (Date 2024 3 13) example_gap \<and>
   write_stats (ref_date_str (Date 2024 3 13)) example_gap (\<lambda>_. NameFields ''Ana'' ''Lima'') ''out'' ''7'' =
     Inr (Saved ''out/13_03_24'' (path_join ''out/13_03_24'' ''Ana Lima.png'') (example_report ''Ana Lima'')) \<and>
   date_str (Date 2024 3 13) \<in> set (map fst example_gap)"
proof -
  have w: "write_stats (ref_date_str (Date 2024 3 13)) example_gap (\<lambda>_. NameFields ''Ana'' ''Lima'') ''out'' ''7'' =
     Inr (Saved ''out/13_03_24'' (path_join ''out/13_03_24'' ''Ana Lima.png'') (example_report ''Ana Lima''))"
    by (simp add: example_write request_manager_name_def)
  show ?thesis
    using write_stats_skips_iff [OF example_ref_ok example_gap_inv w] example_ref_ok example_gap_inv w
    by simp
qed

text \<open>C15: the month yaware target printed by write_stats is 7 h 30 min per worked day:
  for n days (below the timedelta overflow bound) it reads (15 n div 2):00:00 or :30:00.\<close>

theorem yaware_target_hours:
  assumes "n \<le> 3199999999"
  shows "yaware_target (str_of_nat n) =
           Inr (str_of_nat (n * 15 div 2) @ '':'' @ (if even n then ''00'' else ''30'') @ '':00'')"
  using yaware_target_value [OF assms] .

theorem yaware_target_hours_witness:
  "(21::nat) \<le> 3199999999 \<and> yaware_target (str_of_nat 21) = Inr ''157:30:00''"
proof -
  have h: "(21::nat) \<le> 3199999999" by simp
  have "str_of_nat (21 * 15 div 2) @ '':'' @ (if even (21::nat) then ''00'' else ''30'') @ '':00'' = ''157:30:00''"
    by (simp add: str_of_nat_eval)
  then show ?thesis using yaware_target_hours [OF h] h by simp
qed



text \<open>C19: the date labels of format_worked_dates and their split in write_stats are a
  round trip: the label of a valid date key splits at its only '/' into the two-digit day
  with the month's abbreviation and the weekday's abbreviation.\<close>

theorem date_label_roundtrip:
  assumes "valid_date e" "format_worked_date (date_str e) = Inr l"
  shows "\<exists>m w. py_getitem months (pad_zeros 2 (month e)) = Inr m \<and>
           py_getitem weekdays (str_of_nat (weekday e)) = Inr w \<and>
           split_date_label l = Inr (pad_zeros 2 (day e) @ ''-'' @ m, w)"
  using split_worked_date_label [OF assms] .

theorem date_label_roundtrip_witness:
  "valid_date (Date 2024 3 11) \<and> format_worked_date (date_str (Date 2024 3 11)) = Inr ''11-mar/seg'' \<and>
   split_date_label ''11-mar/seg'' = Inr (''11-mar'', ''seg'')"
proof -
  have h1: "valid_date (Date 2024 3 11)" by (simp add: date_eval)
  have h2: "format_worked_date (date_str (Date 2024 3 11)) = Inr ''11-mar/seg''"
    by (simp add: format_worked_date_def str_split_date_str py_index_def py_getitem_def months_def
        weekdays_def date_eval str_of_nat_eval)
  obtain m w where "py_getitem months (pad_zeros 2 3) = Inr m"
      "split_date_label ''11-mar/seg'' = Inr (pad_zeros 2 11 @ ''-'' @ m, w)"
    using date_label_roundtrip [OF h1 h2] by auto
  moreover have "py_getitem months (pad_zeros 2 3) = Inr ''mar''"
    by (simp add: py_getitem_def months_def str_of_nat_eval)
  moreover have "pad_zeros 2 11 = ''11''" by (simp add: str_of_nat_eval)
  moreover have "split_date_label ''11-mar/seg'' = Inr (''11-mar'', ''seg'')"
    by (simp add: split_date_label_def)
  ultimately show ?thesis using h1 h2 by simp
qed

text \<open>C20: for a reference date from the picker and statistics satisfying the aggregator's
  interface, write_stats raises no exception unless the name response lacks its keys:
  every date key it formats, every label it splits, the yaware target (at most 31 worked
  days) and the folder name are defined.\<close>

theorem write_stats_total:
  assumes ok: "ref_date_ok rd" and inv: "stats_inv rd st" and nm: "names mid \<noteq> NameMissing"
  shows "\<exists>r. write_stats (ref_date_str rd) st names out mid = Inr r"
proof -
  obtain n where n: "request_manager_name names mid = Inr n"
    using nm by (cases "names mid") (auto simp: request_manager_name_def)
  obtain wds where wd: "get_worked_dates (ref_date_str rd) st = Inr wds" and sub: "set wds \<subseteq> set (map fst st)"
  proof -
    obtain mon where "get_worked_dates (ref_date_str rd) st =
       Inr (drop (length st - (weekday rd + (if date_str mon \<in> set (map fst st) then 1 else 0)))
                 (sort (map fst st)))"
      by (rule get_worked_dates_closed [OF ok])
    then show ?thesis using that by (metis set_drop_subset set_sort)
  qed
  have key: "\<exists>e. valid_date e \<and> k = date_str e" if "k \<in> set wds" for k
    using stats_inv_key [OF inv] sub that by blast
  obtain labels where lab: "map_result format_worked_date wds = Inr labels"
  proof -
    have "\<exists>y. format_worked_date k = Inr y" if "k \<in> set wds" for k
      using key [OF that] format_worked_date_shape by metis
    then show ?thesis using that map_result_all_Inr by metis
  qed
  obtain dates where dts: "map_result split_date_label labels = Inr dates"
  proof -
    have "\<exists>y. split_date_label l = Inr y" if l: "l \<in> set labels" for l
    proof -
      obtain k where "k \<in> set wds" "format_worked_date k = Inr l"
        using map_result_Inr_set [OF lab l] by blast
      then show ?thesis using key split_worked_date_label by metis
    qed
    then show ?thesis using that map_result_all_Inr by metis
  qed
  have "length st \<le> 3199999999" using stats_inv_length [OF inv] by simp
  then obtain y where y: "yaware_target (month_targets st) = Inr y"
    using yaware_target_value by (simp add: month_targets_def)
  have fd: "folder_date (ref_date_str rd) =
              Inr (pad_zeros 2 (day rd) @ ''_'' @ pad_zeros 2 (month rd) @ ''_'' @ pad_zeros 2 (year rd mod 100))"
    by (simp add: folder_date_def str_split_ref_date_str)
  have iso: "api_date_format (ref_date_str rd) = Inr (date_str rd)"
    using ok by (simp add: api_date_format_def ref_date_ok_def format_date_ref_date_str)
  show ?thesis
    by (simp add: write_stats_def n wd calc_week_targets_def calc_week_results_def indicator_circle_def
        circle_color_def get_daily_results_def format_worked_dates_def lab dts y fd iso Let_def)
qed

theorem write_stats_total_witness:
  "ref_date_ok (Date 2024 3 13) \<and> stats_inv (Date 2024 3 13) example_gap \<and>
   (\<lambda>_. NameFields ''Ana'' ''Lima'') ''7'' \<noteq> NameMissing \<and>
   (\<exists>r. write_stats (ref_date_str (Date 2024 3 13)) example_gap (\<lambda>_. NameFields ''Ana'' ''Lima'') ''out'' ''7'' = Inr r)"
proof -
  have h3: "(\<lambda>_. NameFields ''Ana'' ''Lima'') ''7'' \<noteq> NameMissing" by simp
  show ?thesis
    using write_stats_total [of _ _ "\<lambda>_. NameFields ''Ana'' ''Lima''" "''7''" "''out''",
        OF example_ref_ok example_gap_inv h3] example_ref_ok example_gap_inv h3 by blast
qed

end
