(* ===== verification/Layout.thy ===== *)
theory Layout
  imports Complex_Main Report
begin

text \<open>
  The drawing of a report: the pixel-position tables of \<open>src/variables.py\<close>
  (lines 12--82), \<open>draw_text_centered\<close> and \<open>paste_circle_image\<close> of
  \<open>src/image_editing.py\<close> (lines 15--25), and the drawing calls of \<open>write_stats\<close>
  (lines 52--85) that place the texts of a \<open>report\<close> on the template. The width of a
  text, \<open>draw.textlength(text, font)\<close>, depends on the font file and is a parameter; it
  is a float that PIL computes in multiples of a power of two, so the differences and
  halvings of lines 18--19 are exact and are modelled on \<open>rat\<close>, followed by Python's
  \<open>round\<close>, which rounds halves to the even neighbour. The lemmas show that every key
  the drawing reads is in its table, that a text no wider than its cell is drawn inside
  it, and that the columns of daily figures stand under the labels of their dates.
\<close>

section \<open>Definitions\<close>

subsection \<open>Position tables\<close>

definition manager_name_position :: "(string, int) pydict" where
  "manager_name_position = [(''x'', 20), (''y'', 85), (''cell_width'', 189), (''cell_height'', 20)]"

definition dates_position :: "(string, int) pydict" where
  "dates_position =
     [(''x'', 488), (''y'', 60), (''cell_width'', 60), (''cell_height'', 26), (''weekday_x'', 488),
      (''weekday_y'', 84), (''weekday_cell_width'', 60), (''weekday_cell_height'', 20), (''cells_gap'', 2)]"

definition targets_position :: "(string, int) pydict" where
  "targets_position =
     [(''x'', 292), (''cell_width'', 81), (''cell_height'', 27), (''calls_y'', 115), (''uniques_y'', 146),
      (''minutes_y'', 178), (''yaware_y'', 209)]"

definition summed_stats_position :: "(string, int) pydict" where
  "summed_stats_position =
     [(''first_row_x'', 372), (''cell_height'', 27), (''cell_width'', 81), (''cells_gap'', 4),
      (''calls_y'', 115), (''uniques_y'', 146), (''minutes_y'', 178), (''yaware_y'', 209)]"

definition daily_stats_position :: "(string, int) pydict" where
  "daily_stats_position = [(''x'', 488), (''y'', 115), (''cell_width'', 59), (''cell_height'', 27)]"

definition color_indicators_position :: "(string, int) pydict" where
  "color_indicators_position =
     [(''x'', 460), (''calls_circle_y'', 120), (''uniques_circle_y'', 150), (''minutes_circle_y'', 182),
      (''yaware_circle_y'', 215)]"

definition month_stats_position :: "(string, int) pydict" where
  "month_stats_position =
     [(''y'', 285), (''worked_days_x'', 208), (''yaware_target_x'', 292), (''yaware_result_x'', 372),
      (''cell_width'', 82), (''cell_height'', 27), (''circle_x'', 460), (''circle_y'', 290)]"

text \<open>\<open>font_size = 15\<close> (line 12).\<close>

definition font_size :: int where
  "font_size = 15"

subsection \<open>Drawing primitives\<close>

text \<open>Python's \<open>round(x)\<close> of a float: the nearest integer, a half to the even one.\<close>

definition py_round :: "rat \<Rightarrow> int" where
  "py_round q =
     (let f = \<lfloor>q\<rfloor>; d = q - of_int f in
      if d < 1 / 2 then f else if 1 / 2 < d then f + 1 else if even f then f else f + 1)"

type_synonym rgb = "int \<times> int \<times> int"

datatype draw_op = DrawText "int \<times> int" string rgb | PasteImage string "int \<times> int"

text \<open>\<open>draw_text_centered\<close>: the text starts at the cell's corner plus half the spare
  width and half the spare height, each rounded.\<close>

definition draw_text_centered ::
  "(string \<Rightarrow> rat) \<Rightarrow> int \<times> int \<Rightarrow> string \<Rightarrow> int \<Rightarrow> int \<Rightarrow> rgb \<Rightarrow> draw_op" where
  "draw_text_centered textlength pos text cell_width cell_height color =
     DrawText (fst pos + py_round ((of_int cell_width - textlength text) / 2),
               snd pos + py_round (of_int (cell_height - font_size) / 2)) text color"

definition paste_circle_image :: "string \<Rightarrow> int \<times> int \<Rightarrow> draw_op" where
  "paste_circle_image path pos = PasteImage path pos"

text \<open>One call of the form \<open>draw_text_centered(draw, (t[kx] + dx, t[ky] + dy), text, myfont,
  t[kw], t[kh], color)\<close>, every lookup raising \<open>KeyError\<close> for a missing key.\<close>

definition text_at ::
  "(string \<Rightarrow> rat) \<Rightarrow> (string, int) pydict \<Rightarrow> string \<Rightarrow> string \<Rightarrow> string \<Rightarrow> string \<Rightarrow>
   int \<times> int \<Rightarrow> string \<Rightarrow> rgb \<Rightarrow> draw_op result" where
  "text_at textlength t kx ky kw kh off text color =
     rbind (py_getitem t kx) (\<lambda>x. rbind (py_getitem t ky) (\<lambda>y.
     rbind (py_getitem t kw) (\<lambda>w. rbind (py_getitem t kh) (\<lambda>h.
       Inr (draw_text_centered textlength (x + fst off, y + snd off) text w h color)))))"

definition circle_at :: "string \<Rightarrow> string \<Rightarrow> draw_op result" where
  "circle_at path ky =
     rbind (py_getitem color_indicators_position ''x'') (\<lambda>x.
     rbind (py_getitem color_indicators_position ky) (\<lambda>y. Inr (paste_circle_image path (x, y))))"

definition black :: rgb where "black = (0, 0, 0)"
definition white :: rgb where "white = (255, 255, 255)"

text \<open>The drawing calls run in order; the first exception stops them.\<close>

definition seq_draw :: "draw_op list result list \<Rightarrow> draw_op list result" where
  "seq_draw rs = rbind (map_result id rs) (\<lambda>opss. Inr (concat opss))"

text \<open>Lines 75--79 and 82--85: the \<open>i\<close>-th date and the \<open>i\<close>-th column of daily figures are
  drawn \<open>i * 62\<close> pixels to the right of the first.\<close>

fun draw_dates :: "(string \<Rightarrow> rat) \<Rightarrow> int \<Rightarrow> (string \<times> string) list \<Rightarrow> draw_op list result" where
  "draw_dates tlen i [] = Inr []"
| "draw_dates tlen i ((d, w) # ds) =
     seq_draw [rbind (text_at tlen dates_position ''x'' ''y'' ''cell_width'' ''cell_height'' (i * 62, 0) d black)
                 (\<lambda>a. Inr [a]),
               rbind (text_at tlen dates_position ''weekday_x'' ''weekday_y'' ''weekday_cell_width''
                        ''weekday_cell_height'' (i * 62, 0) w black) (\<lambda>a. Inr [a]),
               draw_dates tlen (i + 1) ds]"

fun draw_daily :: "(string \<Rightarrow> rat) \<Rightarrow> int \<Rightarrow> (string \<times> string \<times> string) list \<Rightarrow> draw_op list result" where
  "draw_daily tlen i [] = Inr []"
| "draw_daily tlen i ((c, u, m) # rs) =
     seq_draw [rbind (text_at tlen daily_stats_position ''x'' ''y'' ''cell_width'' ''cell_height'' (i * 62, 0) c black)
                 (\<lambda>a. Inr [a]),
               rbind (text_at tlen daily_stats_position ''x'' ''y'' ''cell_width'' ''cell_height'' (i * 62, 31) u black)
                 (\<lambda>a. Inr [a]),
               rbind (text_at tlen daily_stats_position ''x'' ''y'' ''cell_width'' ''cell_height'' (i * 62, 62) m black)
                 (\<lambda>a. Inr [a]),
               draw_daily tlen (i + 1) rs]"

text \<open>Lines 52--85 of \<open>write_stats\<close>.\<close>

definition draw_report :: "(string \<Rightarrow> rat) \<Rightarrow> report \<Rightarrow> draw_op list result" where
  "draw_report tlen r =
     (let one = (\<lambda>x. rbind x (\<lambda>a. Inr [a]));
          (wc, wu, wm) = rep_week r; (cc, cu, cm) = rep_circles r in
      seq_draw
        [one (text_at tlen manager_name_position ''x'' ''y'' ''cell_width'' ''cell_height'' (0, 0) (rep_manager r) black),
         one (text_at tlen targets_position ''x'' ''calls_y'' ''cell_width'' ''cell_height'' (0, 0)
                (target_calls (rep_targets r)) black),
         one (text_at tlen targets_position ''x'' ''uniques_y'' ''cell_width'' ''cell_height'' (0, 0)
                (target_uniques (rep_targets r)) black),
         one (text_at tlen targets_position ''x'' ''minutes_y'' ''cell_width'' ''cell_height'' (0, 0)
                (target_minutes (rep_targets r)) black),
         one (text_at tlen summed_stats_position ''first_row_x'' ''calls_y'' ''cell_width'' ''cell_height'' (0, 0) wc white),
         one (text_at tlen summed_stats_position ''first_row_x'' ''uniques_y'' ''cell_width'' ''cell_height'' (0, 0) wu white),
         one (text_at tlen summed_stats_position ''first_row_x'' ''minutes_y'' ''cell_width'' ''cell_height'' (0, 0) wm white),
         one (circle_at cc ''calls_circle_y''),
         one (circle_at cu ''uniques_circle_y''),
         one (circle_at cm ''minutes_circle_y''),
         one (text_at tlen month_stats_position ''worked_days_x'' ''y'' ''cell_width'' ''cell_height'' (0, 0)
                (rep_month_days r) black),
         one (text_at tlen month_stats_position ''yaware_target_x'' ''y'' ''cell_width'' ''cell_height'' (0, 0)
                (rep_yaware r) black),
         draw_dates tlen 0 (rep_dates r),
         draw_daily tlen 0 (rep_daily r)])"

section \<open>Lemmas\<close>

lemma py_round_near: "\<bar>of_int (py_round q) - q\<bar> \<le> 1 / 2"
proof -
  have f: "of_int \<lfloor>q\<rfloor> \<le> q" "q < of_int \<lfloor>q\<rfloor> + 1" by linarith+
  then show ?thesis by (auto simp: py_round_def Let_def)
qed

lemma py_round_nonneg_le: 
  assumes "0 \<le> q"
  shows "0 \<le> py_round q \<and> of_int (py_round q) \<le> 2 * q"
proof (cases "q < 1 / 2")
  case True
  then have "\<lfloor>q\<rfloor> = 0" using assms by (simp add: floor_eq_iff)
  with True assms show ?thesis by (simp add: py_round_def Let_def)
next
  case False
  have "0 \<le> \<lfloor>q\<rfloor>" using assms by simp
  then have "0 \<le> py_round q" by (auto simp: py_round_def Let_def)
  moreover have "of_int (py_round q) \<le> q + 1 / 2" using py_round_near [of q] by linarith
  ultimately show ?thesis using False by linarith
qed

lemmas position_tables = manager_name_position_def dates_position_def targets_position_def
  summed_stats_position_def daily_stats_position_def color_indicators_position_def month_stats_position_def

lemma text_at_tables:
  "\<exists>a. text_at tlen dates_position ''x'' ''y'' ''cell_width'' ''cell_height'' off t c = Inr a"
  "\<exists>a. text_at tlen dates_position ''weekday_x'' ''weekday_y'' ''weekday_cell_width'' ''weekday_cell_height'' off t c = Inr a"
  "\<exists>a. text_at tlen daily_stats_position ''x'' ''y'' ''cell_width'' ''cell_height'' off t c = Inr a"
  by (simp_all add: text_at_def py_getitem_def position_tables)

lemma draw_dates_total: "\<exists>ops. draw_dates tlen i ds = Inr ops \<and> length ops = 2 * length ds"
proof (induction ds arbitrary: i)
  case (Cons dw ds)
  obtain d w where dw: "dw = (d, w)" by (cases dw)
  obtain a where a: "text_at tlen dates_position ''x'' ''y'' ''cell_width'' ''cell_height'' (i * 62, 0) d black = Inr a"
    using text_at_tables(1) by blast
  obtain b where b: "text_at tlen dates_position ''weekday_x'' ''weekday_y'' ''weekday_cell_width''
                        ''weekday_cell_height'' (i * 62, 0) w black = Inr b"
    using text_at_tables(2) by blast
  obtain ops where o: "draw_dates tlen (i + 1) ds = Inr ops" "length ops = 2 * length ds"
    using Cons.IH by blast
  show ?case using a b o by (simp add: dw seq_draw_def)
qed simp

lemma draw_daily_total: "\<exists>ops. draw_daily tlen i rs = Inr ops \<and> length ops = 3 * length rs"
proof (induction rs arbitrary: i)
  case (Cons r rs)
  obtain c u m where r: "r = (c, u, m)" by (cases r)
  have t: "\<And>off t. \<exists>a. text_at tlen daily_stats_position ''x'' ''y'' ''cell_width'' ''cell_height'' off t black = Inr a"
    using text_at_tables(3) by blast
  obtain ops where o: "draw_daily tlen (i + 1) rs = Inr ops" "length ops = 3 * length rs"
    using Cons.IH by blast
  obtain a1 a2 a3 where
    "text_at tlen daily_stats_position ''x'' ''y'' ''cell_width'' ''cell_height'' (i * 62, 0) c black = Inr a1"
    "text_at tlen daily_stats_position ''x'' ''y'' ''cell_width'' ''cell_height'' (i * 62, 31) u black = Inr a2"
    "text_at tlen daily_stats_position ''x'' ''y'' ''cell_width'' ''cell_height'' (i * 62, 62) m black = Inr a3"
    using t by metis
  then show ?case using o by (simp add: r seq_draw_def)
qed simp

lemma daily_entries_closed:
  assumes "distinct ds" "\<forall>d \<in> set ds. d \<notin> fst ` set acc \<and> d \<in> fst ` set st"
  shows "daily_entries st acc ds =
           acc @ map (\<lambda>d. (d, case map_of st d of Some s \<Rightarrow> \<lparr>calls = calls s, uniques = uniques s, minutes = minutes s\<rparr>)) ds"
  using assms
proof (induction ds arbitrary: acc)
  case (Cons d ds)
  obtain s where s: "map_of st d = Some s" using Cons.prems by (auto dest: weak_map_of_SomeI)
  let ?v = "\<lparr>calls = calls s, uniques = uniques s, minutes = minutes s\<rparr>"
  have "dict_update_with d (\<lambda>_. ?v) ?v acc = acc @ [(d, ?v)]"
    using py_setitem_absent [of d acc ?v] Cons.prems by (simp add: py_setitem_def)
  moreover have "\<forall>d' \<in> set ds. d' \<notin> fst ` set (acc @ [(d, ?v)]) \<and> d' \<in> fst ` set st"
    using Cons.prems by auto
  ultimately show ?case using Cons.IH [of "acc @ [(d, ?v)]"] Cons.prems s by (simp add: Let_def)
qed simp

subsection \<open>Properties of the drawing\<close>

text \<open>C21: a text no wider than its cell, in a cell at least as high as the font, is drawn
  inside the cell by draw_text_centered: the offsets of half the spare width and height,
  rounded half to even by Python's round, are never negative and never push the text past
  the cell's right or bottom edge.\<close>

theorem centred_text_inside_cell:
  assumes "0 \<le> tlen text" "tlen text \<le> of_int cw" "font_size \<le> ch"
  shows "\<exists>x' y'. draw_text_centered tlen (x, y) text cw ch c = DrawText (x', y') text c \<and>
           x \<le> x' \<and> of_int x' + tlen text \<le> of_int (x + cw) \<and> y \<le> y' \<and> y' + font_size \<le> y + ch"
proof -
  let ?o = "(of_int cw - tlen text) / 2" and ?v = "of_int (ch - font_size) / (2::rat)"
  have h: "0 \<le> py_round ?o \<and> of_int (py_round ?o) \<le> 2 * ?o" using assms by (intro py_round_nonneg_le) simp
  have v: "0 \<le> py_round ?v \<and> of_int (py_round ?v) \<le> 2 * ?v" using assms by (intro py_round_nonneg_le) simp
  have "of_int (x + py_round ?o) + tlen text \<le> of_int (x + cw)" using h by simp
  moreover have "y + py_round ?v + font_size \<le> y + ch"
  proof -
    have "of_int (py_round ?v) \<le> (of_int (ch - font_size) :: rat)" using v by simp
    then show ?thesis by linarith
  qed
  ultimately show ?thesis using h v by (simp add: draw_text_centered_def)
qed

theorem centred_text_inside_cell_witness:
  "0 \<le> (\<lambda>s. of_nat (length s) * 7 :: rat) ''260'' \<and> (\<lambda>s. of_nat (length s) * 7 :: rat) ''260'' \<le> of_int 81 \<and>
   font_size \<le> 27 \<and>
   (\<exists>x' y'. draw_text_centered (\<lambda>s. of_nat (length s) * 7) (292, 115) ''260'' 81 27 black = DrawText (x', y') ''260'' black \<and>
      292 \<le> x' \<and> of_int x' + (\<lambda>s. of_nat (length s) * 7 :: rat) ''260'' \<le> of_int (292 + 81) \<and>
      115 \<le> y' \<and> y' + font_size \<le> 115 + 27)"
proof -
  have h: "0 \<le> (\<lambda>s. of_nat (length s) * 7 :: rat) ''260''" "(\<lambda>s. of_nat (length s) * 7 :: rat) ''260'' \<le> of_int 81"
    "font_size \<le> 27" by (simp_all add: font_size_def)
  show ?thesis using centred_text_inside_cell [of "\<lambda>s. of_nat (length s) * 7" "''260''" 81 27 292 115 black, OF h] h by blast
qed

text \<open>C22: drawing a report never raises: every key that the drawing calls of write_stats
  look up in the position tables of variables.py is present, and the calls issue twelve
  operations plus two per date and three per day of figures.\<close>

theorem draw_report_total:
  "\<exists>ops. draw_report tlen r = Inr ops \<and>
          length ops = 12 + 2 * length (rep_dates r) + 3 * length (rep_daily r)"
proof -
  obtain ds where ds: "draw_dates tlen 0 (rep_dates r) = Inr ds" "length ds = 2 * length (rep_dates r)"
    using draw_dates_total by blast
  obtain dl where dl: "draw_daily tlen 0 (rep_daily r) = Inr dl" "length dl = 3 * length (rep_daily r)"
    using draw_daily_total by blast
  obtain wc wu wm cc cu cm where w: "rep_week r = (wc, wu, wm)" "rep_circles r = (cc, cu, cm)"
    by (cases "rep_week r", cases "rep_circles r") auto
  show ?thesis
    by (simp add: draw_report_def w ds dl seq_draw_def text_at_def circle_at_def py_getitem_def position_tables)
qed

text \<open>C23: in a saved report the columns of daily figures stand under the labels of their
  dates: there is one date label per worked date, and the i-th column holds the calls,
  uniques and minutes of the statistics entry of the i-th worked date.\<close>

theorem daily_rows_match_dates:
  assumes ok: "ref_date_ok rd" and inv: "stats_inv rd st"
    and wd: "get_worked_dates (ref_date_str rd) st = Inr wds"
    and w: "write_stats (ref_date_str rd) st names out mid = Inr (Saved d p r)"
  shows "length (rep_dates r) = length wds \<and>
         list_all2 (\<lambda>k row. \<exists>t. map_of st k = Some t \<and>
                      row = (str_of_int (calls t), str_of_int (uniques t), str_of_int (minutes t)))
           wds (rep_daily r)"
proof -
  obtain labels dates daily where
    l: "map_result format_worked_date wds = Inr labels" and
    dl: "daily = daily_entries st [] wds" and
    dt: "map_result split_date_label labels = Inr dates" and
    r: "rep_dates r = dates"
       "rep_daily r = map (\<lambda>(k, t). (str_of_int (calls t), str_of_int (uniques t), str_of_int (minutes t))) daily"
    using w wd by (auto simp: write_stats_def format_worked_dates_def get_daily_results_def Let_def
        split: if_splits)
  have len: "length (rep_dates r) = length wds"
    using map_result_Inr_length [OF l] map_result_Inr_length [OF dt] r(1) by simp
  have "distinct wds" using worked_dates_sorted(1) [OF ok inv wd] by (simp add: strict_sorted_iff)
  moreover have "set wds \<subseteq> fst ` set st" using worked_dates_sorted(2) [OF ok inv wd] by simp
  ultimately have "daily = map (\<lambda>d. (d, case map_of st d of Some s \<Rightarrow> \<lparr>calls = calls s, uniques = uniques s, minutes = minutes s\<rparr>)) wds"
    using dl daily_entries_closed [of wds "[]" st] by auto
  moreover have "\<exists>t. map_of st k = Some t" if "k \<in> set wds" for k
    using that \<open>set wds \<subseteq> fst ` set st\<close> by (metis subsetD map_of_eq_None_iff not_None_eq)
  ultimately have "list_all2 (\<lambda>k row. \<exists>t. map_of st k = Some t \<and>
                      row = (str_of_int (calls t), str_of_int (uniques t), str_of_int (minutes t)))
           wds (rep_daily r)"
    using r(2) by (fastforce simp: list_all2_map2 intro!: list.rel_refl_strong split: option.splits)
  with len show ?thesis by blast
qed

theorem daily_rows_match_dates_witness:
  "ref_date_ok (Date 2024 3 13) \<and> stats_inv (Date 2024 3 13) example_gap \<and>
   get_worked_dates (ref_date_str (Date 2024 3 13)) example_gap =
     Inr [date_str (Date 2024 3 8), date_str (Date 2024 3 13)] \<and>
   write_stats (ref_date_str (Date 2024 3 13)) example_gap (\<lambda>_. NameFields ''Ana'' ''Lima'') ''out'' ''7'' =
     Inr (Saved ''out/13_03_24'' (path_join ''out/13_03_24'' ''Ana Lima.png'') (example_report ''Ana Lima'')) \<and>
   length (rep_dates (example_report ''Ana Lima'')) = 2 \<and>
   list_all2 (\<lambda>k row. \<exists>t. map_of example_gap k = Some t \<and>
                row = (str_of_int (calls t), str_of_int (uniques t), str_of_int (minutes t)))
     [date_str (Date 2024 3 8), date_str (Date 2024 3 13)] (rep_daily (example_report ''Ana Lima''))"
proof -
  have w: "write_stats (ref_date_str (Date 2024 3 13)) example_gap (\<lambda>_. NameFields ''Ana'' ''Lima'') ''out'' ''7'' =
     Inr (Saved ''out/13_03_24'' (path_join ''out/13_03_24'' ''Ana Lima.png'') (example_report ''Ana Lima''))"
    by (simp add: example_write request_manager_name_def)
  show ?thesis
    using daily_rows_match_dates [OF example_ref_ok example_gap_inv worked_dates_example_gap w]
      example_ref_ok example_gap_inv worked_dates_example_gap w by simp
qed

end
