(* ===== verification/Runner.thy ===== *)
theory Runner
  imports Report
begin

text \<open>
  The batch runner of the GUI script \<open>src/unnamed/part_000\<close> ("FollowUp Generator.py"):
  \<open>generate_followups\<close> (lines 12--41) checks the token and the folder, creates the
  folder of the date (\<open>create_date_folder\<close>, lines 59--69), and calls \<open>submit\<close>
  (lines 44--50) for each manager id, which runs \<open>get_stats\<close> and \<open>write_stats\<close> and
  turns any exception into an error box. The state is what the run leaves behind: the
  directories, the saved reports by path, and the message boxes shown, in order. The API
  is a function of the token. The lemmas show that the managers are processed
  independently (one manager's failure changes nothing for the others), that the run
  always ends with the completion message once the checks pass, and that two managers
  with the same name, in particular two whose name request failed, share one file.
\<close>

section \<open>Definitions\<close>

record api_env =
  hours_of :: hours_api
  names_of :: name_api

datatype message =
    ErrorMsg string
  | FolderFailed py_error
  | ManagerFailed string py_error
  | InfoMsg string

record gui_state =
  dirs :: "string list"
  files :: "(string, report) pydict"
  messages :: "message list"

text \<open>\<open>str.strip()\<close>: whitespace removed at both ends.\<close>

definition py_strip :: "string \<Rightarrow> string" where
  "py_strip s = rev (dropWhile py_isspace (rev (dropWhile py_isspace s)))"

definition show_message :: "message \<Rightarrow> gui_state \<Rightarrow> gui_state" where
  "show_message m g = g\<lparr>messages := messages g @ [m]\<rparr>"

text \<open>\<open>os.makedirs(p, exist_ok=True)\<close>, and \<open>if not os.path.exists(p): os.makedirs(p)\<close>; the
  parent is the chosen folder, which exists.\<close>

definition makedirs :: "string \<Rightarrow> gui_state \<Rightarrow> gui_state" where
  "makedirs p g = (if p \<in> set (dirs g) then g else g\<lparr>dirs := dirs g @ [p]\<rparr>)"

definition create_date_folder :: "string \<Rightarrow> string \<Rightarrow> gui_state \<Rightarrow> gui_state" where
  "create_date_folder folder s g =
     (case folder_date s of
        Inr fd \<Rightarrow> makedirs (path_join folder fd) g
      | Inl e \<Rightarrow> show_message (FolderFailed e) g)"

text \<open>What one manager amounts to: \<open>get_stats\<close> followed by \<open>write_stats\<close>.\<close>

definition manager_outcome :: "api_env \<Rightarrow> string \<Rightarrow> string \<Rightarrow> string \<Rightarrow> write_outcome result" where
  "manager_outcome env s folder mid =
     rbind (get_stats s (hours_of env) mid) (\<lambda>st. write_stats s st (names_of env) folder mid)"

text \<open>\<open>submit\<close>: \<open>template.save\<close> replaces a file of the same path.\<close>

definition submit :: "api_env \<Rightarrow> string \<Rightarrow> string \<Rightarrow> string \<Rightarrow> gui_state \<Rightarrow> gui_state" where
  "submit env s folder mid g =
     (case manager_outcome env s folder mid of
        Inl e \<Rightarrow> show_message (ManagerFailed mid e) g
      | Inr Skipped \<Rightarrow> g
      | Inr (Saved d p r) \<Rightarrow> (makedirs d g)\<lparr>files := py_setitem p r (files g)\<rparr>)"

text \<open>The loop of lines 34--35.\<close>

fun submit_all :: "api_env \<Rightarrow> string \<Rightarrow> string \<Rightarrow> string list \<Rightarrow> gui_state \<Rightarrow> gui_state" where
  "submit_all env s folder [] g = g"
| "submit_all env s folder (mid # ids) g = submit_all env s folder ids (submit env s folder mid g)"

definition generate_followups ::
  "(string \<Rightarrow> api_env) \<Rightarrow> string \<Rightarrow> string \<Rightarrow> string \<Rightarrow> string list \<Rightarrow> gui_state \<Rightarrow> gui_state" where
  "generate_followups env token folder s ids g =
     (let bearer = py_strip token in
      if bearer = [] then show_message (ErrorMsg ''Authorization token cannot be empty.'') g
      else if folder = [] then show_message (ErrorMsg ''Please select a folder.'') g
      else if folder \<notin> set (dirs g) then show_message (ErrorMsg ''Selected folder does not exist.'') g
      else show_message (InfoMsg ''Processing completed successfully!'')
             (submit_all (env bearer) s folder ids (create_date_folder folder s g)))"

subsection \<open>What the run promises\<close>

text \<open>The reports saved by a run, in order, and the managers that failed: the effect of
  each manager depends on that manager alone.\<close>

definition saved_reports :: "api_env \<Rightarrow> string \<Rightarrow> string \<Rightarrow> string list \<Rightarrow> (string \<times> report) list" where
  "saved_reports env s folder ids =
     concat (map (\<lambda>mid. case manager_outcome env s folder mid of
                           Inr (Saved d p r) \<Rightarrow> [(p, r)] | _ \<Rightarrow> []) ids)"

definition failures :: "api_env \<Rightarrow> string \<Rightarrow> string \<Rightarrow> string list \<Rightarrow> message list" where
  "failures env s folder ids =
     concat (map (\<lambda>mid. case manager_outcome env s folder mid of
                           Inl e \<Rightarrow> [ManagerFailed mid e] | _ \<Rightarrow> []) ids)"

subsection \<open>Example\<close>

text \<open>Hourly records that aggregate to the calculator's \<open>example_gap\<close>, an API that returns
  them for every manager, and a name request that fails for every manager.\<close>

definition example_gap_hours :: "json_obj list" where
  "example_gap_hours =
     [[(''time'', JStr ''2024-03-08 10:00:00''), (''all_cnt'', JInt 150), (''unique_cnt'', JInt 90),
       (''duration'', JInt 40)],
      [(''time'', JStr ''2024-03-13 10:00:00''), (''all_cnt'', JInt 130), (''unique_cnt'', JInt 120),
       (''duration'', JInt 65)]]"

definition example_env :: api_env where
  "example_env = \<lparr>hours_of = example_api (ResponseHours example_gap_hours), names_of = (\<lambda>_. NameRequestFailed)\<rparr>"

section \<open>Lemmas\<close>

subsection \<open>Managers are processed independently\<close>

lemma submit_effect:
  "map_of (files (submit env s folder mid g)) =
     map_of (files g) ++ map_of (case manager_outcome env s folder mid of Inr (Saved d p r) \<Rightarrow> [(p, r)] | _ \<Rightarrow> [])"
  "messages (submit env s folder mid g) =
     messages g @ (case manager_outcome env s folder mid of Inl e \<Rightarrow> [ManagerFailed mid e] | _ \<Rightarrow> [])"
  by (auto simp: submit_def show_message_def makedirs_def map_add_def fun_eq_iff
      split: sum.splits write_outcome.splits)

lemma submit_all_effect:
  "map_of (files (submit_all env s folder ids g)) = map_of (files g) ++ map_of (rev (saved_reports env s folder ids)) \<and>
   messages (submit_all env s folder ids g) = messages g @ failures env s folder ids"
proof (induction ids arbitrary: g)
  case Nil
  then show ?case by (simp add: saved_reports_def failures_def)
next
  case (Cons mid ids)
  show ?case
    using Cons.IH [of "submit env s folder mid g"]
    by (simp add: submit_effect saved_reports_def failures_def map_add_assoc
        split: sum.splits write_outcome.splits)
qed

lemma example_ref_str: "ref_date_str (Date 2024 3 13) = ''03/13/24''"
  by (simp add: ref_date_str_def str_of_nat_eval)

lemma example_gap_stats:
  "get_stats ''03/13/24'' (example_api (ResponseHours example_gap_hours)) mid = Inr example_gap"
  by (simp add: get_stats_def example_request example_gap_hours_def entry_date_def py_getitem_def
      add_entry_def add_counter_def py_or_zero_def py_iadd_def zero_counts_def py_setitem_def
      strptime_mdy_def agg_eval mk_date_def date_eval to_day_stats_def date_str_def str_of_nat_eval
      example_gap_def day_entry_def)

lemma example_outcome:
  "manager_outcome example_env ''03/13/24'' ''out'' mid =
     Inr (Saved ''out/13_03_24'' ''out/13_03_24/Unknown Manager.png'' (example_report ''Unknown Manager''))"
proof -
  have "write_stats ''03/13/24'' example_gap (\<lambda>_. NameRequestFailed) ''out'' mid =
     Inr (Saved ''out/13_03_24'' ''out/13_03_24/Unknown Manager.png'' (example_report ''Unknown Manager''))"
    using example_write [of "\<lambda>_. NameRequestFailed" mid]
    by (simp add: example_ref_str request_manager_name_def path_join_def)
  then show ?thesis by (simp add: manager_outcome_def example_env_def example_gap_stats)
qed

lemma write_stats_saved_path:
  assumes "write_stats s st names out mid = Inr (Saved d p r)" "request_manager_name names mid = Inr n"
  shows "\<exists>fd. folder_date s = Inr fd \<and> d = path_join out fd \<and> p = path_join (path_join out fd) (n @ ''.png'')
           \<and> rep_manager r = n"
  using assms by (auto simp: write_stats_def Let_def split: if_splits)


lemma create_date_folder_effect:
  "files (create_date_folder folder s g) = files g"
  "messages (create_date_folder folder s g) =
     messages g @ (case folder_date s of Inl e \<Rightarrow> [FolderFailed e] | Inr _ \<Rightarrow> [])"
  by (simp_all add: create_date_folder_def makedirs_def show_message_def split: sum.splits)

lemma example_token: "py_strip ''tok'' = ''tok''"
  by (simp add: py_strip_def py_isspace_def)

subsection \<open>Properties of the run\<close>

text \<open>C16: once the token is not blank and the folder exists, generate_followups processes
  every manager independently: the saved reports are those of the managers whose
  get_stats and write_stats succeed (a later one replacing an earlier one of the same
  path), the messages are the folder error if any, one error per failing manager in order,
  and the completion message last.\<close>

theorem generate_followups_processes_all:
  assumes "py_strip token \<noteq> []" "folder \<noteq> []" "folder \<in> set (dirs g)"
  shows "map_of (files (generate_followups env token folder s ids g)) =
           map_of (files g) ++ map_of (rev (saved_reports (env (py_strip token)) s folder ids)) \<and>
         messages (generate_followups env token folder s ids g) =
           messages g @ (case folder_date s of Inl e \<Rightarrow> [FolderFailed e] | Inr _ \<Rightarrow> []) @
           failures (env (py_strip token)) s folder ids @ [InfoMsg ''Processing completed successfully!'']"
  using assms submit_all_effect [of "env (py_strip token)" s folder ids "create_date_folder folder s g"]
  by (simp add: generate_followups_def show_message_def create_date_folder_effect Let_def)

theorem generate_followups_processes_all_witness:
  "py_strip ''tok'' \<noteq> [] \<and> ''out'' \<noteq> [] \<and> ''out'' \<in> set (dirs \<lparr>dirs = [''out''], files = [], messages = []\<rparr>) \<and>
   map_of (files (generate_followups (\<lambda>_. example_env) ''tok'' ''out'' ''03/13/24'' [''7'']
                    \<lparr>dirs = [''out''], files = [], messages = []\<rparr>)) =
     map_of [(''out/13_03_24/Unknown Manager.png'', example_report ''Unknown Manager'')]"
proof -
  have h1: "py_strip ''tok'' \<noteq> []" by (simp add: example_token)
  have h2: "''out'' \<noteq> []" by simp
  have h3: "''out'' \<in> set (dirs \<lparr>dirs = [''out''], files = [], messages = []\<rparr>)" by simp
  show ?thesis
    using generate_followups_processes_all [OF h1 h2 h3, of "\<lambda>_. example_env" "''03/13/24''" "[''7'']"]
      h1 h2 h3
    by (simp add: saved_reports_def example_outcome)
qed

text \<open>C17: the report file is named after the manager's name alone, so two managers whose
  name request fails (both "Unknown Manager") write the same file, and the report of the
  first is lost.\<close>

theorem unknown_managers_share_file:
  assumes "manager_outcome env s folder m1 = Inr (Saved d1 p1 r1)"
    and "manager_outcome env s folder m2 = Inr (Saved d2 p2 r2)"
    and "names_of env m1 = NameRequestFailed" "names_of env m2 = NameRequestFailed"
  shows "p1 = p2 \<and> map_of (files (submit_all env s folder [m1, m2] g)) p1 = Some r2"
proof -
  have n: "request_manager_name (names_of env) m1 = Inr ''Unknown Manager''"
    "request_manager_name (names_of env) m2 = Inr ''Unknown Manager''"
    using assms(3,4) by (simp_all add: request_manager_name_def)
  obtain st1 st2 where "write_stats s st1 (names_of env) folder m1 = Inr (Saved d1 p1 r1)"
    "write_stats s st2 (names_of env) folder m2 = Inr (Saved d2 p2 r2)"
    using assms(1,2) by (auto simp: manager_outcome_def)
  then have "p1 = p2" using write_stats_saved_path [OF _ n(1)] write_stats_saved_path [OF _ n(2)] by force
  then show ?thesis
    using assms(1,2) submit_all_effect [of env s folder "[m1, m2]" g]
    by (simp add: saved_reports_def)
qed

theorem unknown_managers_share_file_witness:
  "manager_outcome example_env ''03/13/24'' ''out'' ''7'' =
     Inr (Saved ''out/13_03_24'' ''out/13_03_24/Unknown Manager.png'' (example_report ''Unknown Manager'')) \<and>
   manager_outcome example_env ''03/13/24'' ''out'' ''8'' =
     Inr (Saved ''out/13_03_24'' ''out/13_03_24/Unknown Manager.png'' (example_report ''Unknown Manager'')) \<and>
   names_of example_env ''7'' = NameRequestFailed \<and> names_of example_env ''8'' = NameRequestFailed \<and>
   map_of (files (submit_all example_env ''03/13/24'' ''out'' [''7'', ''8'']
                    \<lparr>dirs = [''out''], files = [], messages = []\<rparr>)) ''out/13_03_24/Unknown Manager.png''
     = Some (example_report ''Unknown Manager'')"
proof -
  note h1 = example_outcome [of "''7''"] and h2 = example_outcome [of "''8''"]
  have h3: "names_of example_env ''7'' = NameRequestFailed" "names_of example_env ''8'' = NameRequestFailed"
    by (simp_all add: example_env_def)
  show ?thesis
    using unknown_managers_share_file [OF h1 h2 h3, of "\<lparr>dirs = [''out''], files = [], messages = []\<rparr>"]
      h1 h2 h3 by simp
qed

text \<open>C18: a report is saved only for a manager whose statistics from get_stats contain
  the reference date (reference dates from the picker, years 2000 to 2068).\<close>

theorem saved_only_with_data:
  assumes ok: "ref_date_ok rd" "year rd \<le> 2068"
    and saved: "(p, r) \<in> set (saved_reports env (ref_date_str rd) folder ids)"
  shows "\<exists>mid \<in> set ids. \<exists>st. get_stats (ref_date_str rd) (hours_of env) mid = Inr st \<and>
           date_str rd \<in> set (map fst st)"
proof -
  obtain mid d where mid: "mid \<in> set ids"
    and o: "manager_outcome env (ref_date_str rd) folder mid = Inr (Saved d p r)"
    using saved by (auto simp: saved_reports_def split: sum.splits write_outcome.splits) (metis)
  then obtain st where g: "get_stats (ref_date_str rd) (hours_of env) mid = Inr st"
    and w: "write_stats (ref_date_str rd) st (names_of env) folder mid = Inr (Saved d p r)"
    by (auto simp: manager_outcome_def)
  have "strptime_mdy (ref_date_str rd) = Inr rd"
    using ok by (simp add: ref_date_ok_def strptime_mdy_ref_date_str_2068)
  then have "stats_inv rd st" using get_stats_stats_inv [OF g] by blast
  then have "date_str rd \<in> set (map fst st)"
    using write_stats_skip_guard [OF ok(1) _ w] by simp
  with mid g show ?thesis by blast
qed

theorem saved_only_with_data_witness:
  "ref_date_ok (Date 2024 3 13) \<and> year (Date 2024 3 13) \<le> 2068 \<and>
   (''out/13_03_24/Unknown Manager.png'', example_report ''Unknown Manager'')
     \<in> set (saved_reports example_env (ref_date_str (Date 2024 3 13)) ''out'' [''7''])"
proof -
  have h3: "(''out/13_03_24/Unknown Manager.png'', example_report ''Unknown Manager'')
     \<in> set (saved_reports example_env (ref_date_str (Date 2024 3 13)) ''out'' [''7''])"
    by (simp add: saved_reports_def example_ref_str example_outcome)
  have h2: "year (Date 2024 3 13) \<le> 2068" by simp
  have "\<exists>mid \<in> set [''7'']. \<exists>st. get_stats (ref_date_str (Date 2024 3 13)) (hours_of example_env) mid = Inr st \<and>
           date_str (Date 2024 3 13) \<in> set (map fst st)"
    using saved_only_with_data [OF example_ref_ok h2 h3] .
  then show ?thesis using example_ref_ok h2 h3 by blast
qed

end
