(* ===== verification/App.thy ===== *)
theory App
  imports Runner "HOL-Library.Sublist"
begin

text \<open>
  The window of the GUI script \<open>src/unnamed/part_000\<close> (lines 53--56 and 71--103) as a
  state machine. Its state is the content of the token entry, the folder variable shared
  by the folder entry and the \<open>Browse\<close> button, the date selected in the calendar, and the
  part of the world the program touches (\<open>gui_state\<close> of \<open>Runner\<close>). The events are the
  user's edits, the answer of the folder dialog, a click on a day and a click on
  \<open>Generate Reports\<close>; \<open>reachable\<close> is the set of states of a session started by
  \<open>root.mainloop()\<close>. The lemmas show, by rule induction, that every report saved in a
  session is the file named after its manager inside an existing date folder
  \<open>DD_MM_YY\<close> of a folder of the world.
\<close>

section \<open>Definitions\<close>

record app_state =
  world :: gui_state
  token_entry :: string
  folder_var :: string
  cal_date :: date

text \<open>The user's actions: typing in the token entry (line 81) or in the folder entry
  (line 87, bound to \<open>folder_var\<close>), the answer of \<open>filedialog.askdirectory()\<close> after a
  click on \<open>Browse\<close> (the empty string when cancelled), a click on a day of the calendar
  (line 94), and a click on \<open>Generate Reports\<close> (line 99).\<close>

datatype event =
    TypeToken string
  | TypeFolder string
  | BrowseFolder string
  | PickDate date
  | ClickGenerate

text \<open>Lines 71--100: both entries start empty and the calendar shows today.\<close>

definition init_state :: "date \<Rightarrow> gui_state \<Rightarrow> app_state" where
  "init_state today w = \<lparr>world = w, token_entry = [], folder_var = [], cal_date = today\<rparr>"

text \<open>\<open>select_folder\<close> (lines 53--56): \<open>folder_var.set(filedialog.askdirectory())\<close>.\<close>

definition select_folder :: "string \<Rightarrow> app_state \<Rightarrow> app_state" where
  "select_folder answer a = a\<lparr>folder_var := answer\<rparr>"

text \<open>One event. \<open>generate_followups\<close> reads \<open>string_entry.get()\<close>, \<open>folder_var.get()\<close>
  and \<open>calendar.get_date()\<close>, and the manager ids of the module \<open>managers_ids\<close>, which is
  not part of the sources and is a parameter.\<close>

fun handle_event :: "(string \<Rightarrow> api_env) \<Rightarrow> string list \<Rightarrow> app_state \<Rightarrow> event \<Rightarrow> app_state" where
  "handle_event env ids a (TypeToken t) = a\<lparr>token_entry := t\<rparr>"
| "handle_event env ids a (TypeFolder f) = a\<lparr>folder_var := f\<rparr>"
| "handle_event env ids a (BrowseFolder f) = select_folder f a"
| "handle_event env ids a (PickDate d) = a\<lparr>cal_date := d\<rparr>"
| "handle_event env ids a ClickGenerate =
     a\<lparr>world := generate_followups env (token_entry a) (folder_var a) (ref_date_str (cal_date a)) ids (world a)\<rparr>"

definition run_events :: "(string \<Rightarrow> api_env) \<Rightarrow> string list \<Rightarrow> app_state \<Rightarrow> event list \<Rightarrow> app_state" where
  "run_events env ids = foldl (handle_event env ids)"

text \<open>The calendar offers valid dates only.\<close>

fun event_ok :: "event \<Rightarrow> bool" where
  "event_ok (PickDate d) = valid_date d"
| "event_ok _ = True"

text \<open>The states of a session: the program starts on a valid date with no report saved
  and no message shown, and every event of the main loop runs to its end before the next.\<close>

inductive reachable :: "(string \<Rightarrow> api_env) \<Rightarrow> string list \<Rightarrow> app_state \<Rightarrow> bool"
  for env ids where
  start: "valid_date today \<Longrightarrow> files w = [] \<Longrightarrow> messages w = [] \<Longrightarrow> reachable env ids (init_state today w)"
| event: "reachable env ids a \<Longrightarrow> event_ok e \<Longrightarrow> reachable env ids (handle_event env ids a e)"

text \<open>What a session keeps true: every saved report is the file named after the report's
  manager in a date folder \<open>DD_MM_YY\<close> that exists, inside a folder of the world.\<close>

definition date_folder_name :: "date \<Rightarrow> string" where
  "date_folder_name dt = pad_zeros 2 (day dt) @ ''_'' @ pad_zeros 2 (month dt) @ ''_'' @ pad_zeros 2 (year dt mod 100)"

definition reports_placed :: "gui_state \<Rightarrow> bool" where
  "reports_placed w \<longleftrightarrow>
     (\<forall>(p, r) \<in> set (files w). \<exists>folder dt.
        folder \<in> set (dirs w) \<and> path_join folder (date_folder_name dt) \<in> set (dirs w) \<and>
        p = path_join (path_join folder (date_folder_name dt)) (rep_manager r @ ''.png''))"

text \<open>The world only grows: directories, saved paths and messages are never removed.\<close>

definition world_le :: "gui_state \<Rightarrow> gui_state \<Rightarrow> bool" where
  "world_le w w' \<longleftrightarrow>
     set (dirs w) \<subseteq> set (dirs w') \<and> fst ` set (files w) \<subseteq> fst ` set (files w') \<and>
     prefix (messages w) (messages w')"

section \<open>Lemmas\<close>

lemma run_events_Cons [simp]:
  "run_events env ids a (e # es) = run_events env ids (handle_event env ids a e) es"
  by (simp add: run_events_def)

lemma run_events_Nil [simp]: "run_events env ids a [] = a"
  by (simp add: run_events_def)

lemma reachable_run_events:
  "reachable env ids a \<Longrightarrow> list_all event_ok es \<Longrightarrow> reachable env ids (run_events env ids a es)"
  by (induction es arbitrary: a) (auto intro: reachable.event)

lemma manager_outcome_saved_form:
  assumes "manager_outcome env (ref_date_str dt) folder mid = Inr (Saved d p r)"
  shows "d = path_join folder (date_folder_name dt) \<and> p = path_join d (rep_manager r @ ''.png'')"
  using assms by (auto simp: manager_outcome_def write_stats_def Let_def folder_date_def
      str_split_ref_date_str date_folder_name_def split: if_splits)

lemma reports_placed_mono:
  "reports_placed w \<Longrightarrow> set (dirs w) \<subseteq> set (dirs w') \<Longrightarrow> set (files w') \<subseteq> set (files w) \<Longrightarrow>
   reports_placed w'"
  unfolding reports_placed_def by blast

lemma world_le_makedirs: "world_le w (makedirs d w)"
  by (auto simp: world_le_def makedirs_def)

lemma world_le_show_message: "world_le w (show_message m w)"
  by (simp add: world_le_def show_message_def)

lemma world_le_submit: "world_le w (submit env s folder mid w)"
  by (auto simp: submit_def world_le_def makedirs_def show_message_def py_setitem_def
      split: sum.splits write_outcome.splits)

lemma reports_placed_submit:
  assumes w: "reports_placed w" and f: "folder \<in> set (dirs w)"
  shows "reports_placed (submit env (ref_date_str dt) folder mid w)"
proof (cases "\<exists>d p r. manager_outcome env (ref_date_str dt) folder mid = Inr (Saved d p r)")
  case True
  then obtain d p r where oc: "manager_outcome env (ref_date_str dt) folder mid = Inr (Saved d p r)" by blast
  let ?w' = "submit env (ref_date_str dt) folder mid w"
  have s: "?w' = (makedirs d w)\<lparr>files := py_setitem p r (files w)\<rparr>" using oc by (simp add: submit_def)
  have D: "set (dirs ?w') = insert d (set (dirs w))" using s by (auto simp: makedirs_def)
  have F: "set (files ?w') \<subseteq> insert (p, r) (set (files w))" using s set_py_setitem by simp
  have new: "\<exists>folder' dt'. folder' \<in> insert d (set (dirs w)) \<and>
      path_join folder' (date_folder_name dt') \<in> insert d (set (dirs w)) \<and>
      p = path_join (path_join folder' (date_folder_name dt')) (rep_manager r @ ''.png'')"
    using manager_outcome_saved_form [OF oc] f by blast
  show ?thesis unfolding reports_placed_def D
  proof (intro ballI, clarify)
    fix p' r' assume "(p', r') \<in> set (files ?w')"
    then consider "(p', r') = (p, r)" | "(p', r') \<in> set (files w)" using F by blast
    then show "\<exists>folder' dt'. folder' \<in> insert d (set (dirs w)) \<and>
      path_join folder' (date_folder_name dt') \<in> insert d (set (dirs w)) \<and>
      p' = path_join (path_join folder' (date_folder_name dt')) (rep_manager r' @ ''.png'')"
    proof cases
      case 1
      then show ?thesis using new by simp
    next
      case 2
      then show ?thesis using w unfolding reports_placed_def by blast
    qed
  qed
next
  case False
  then have "files (submit env (ref_date_str dt) folder mid w) = files w"
    by (auto simp: submit_def show_message_def split: sum.splits write_outcome.splits)
  then show ?thesis
    using w world_le_submit [of w env "ref_date_str dt" folder mid] by (auto simp: world_le_def intro: reports_placed_mono)
qed

lemma reports_placed_submit_all:
  "reports_placed w \<Longrightarrow> folder \<in> set (dirs w) \<Longrightarrow> reports_placed (submit_all env (ref_date_str dt) folder ids w)"
proof (induction ids arbitrary: w)
  case (Cons mid ids)
  have "folder \<in> set (dirs (submit env (ref_date_str dt) folder mid w))"
    using Cons.prems(2) world_le_submit [of w env "ref_date_str dt" folder mid] by (auto simp: world_le_def)
  then show ?case using Cons reports_placed_submit by simp
qed simp

lemma reports_placed_generate_followups:
  assumes w: "reports_placed w"
  shows "reports_placed (generate_followups env t folder (ref_date_str dt) ids w)"
proof -
  let ?w1 = "create_date_folder folder (ref_date_str dt) w"
  have le: "world_le w ?w1"
    by (auto simp: create_date_folder_def world_le_makedirs world_le_show_message split: sum.splits)
  have w1: "reports_placed ?w1"
    using w le create_date_folder_effect(1) by (auto simp: world_le_def intro: reports_placed_mono)
  have m: "reports_placed (show_message m u)" if "reports_placed u" for m u
    using that by (auto simp: show_message_def intro: reports_placed_mono)
  have "folder \<in> set (dirs w) \<Longrightarrow> folder \<in> set (dirs ?w1)" using le by (auto simp: world_le_def)
  then show ?thesis
    using w w1 m reports_placed_submit_all [OF w1] by (simp add: generate_followups_def Let_def)
qed

lemma example_session: "reachable env ids (init_state (Date 2024 3 13) \<lparr>dirs = [''out''], files = [], messages = []\<rparr>)"
  by (rule reachable.start) (simp_all add: valid_date_def date_eval)

subsection \<open>Properties of a session\<close>

text \<open>C24: in every state of a session each saved report is the file named after the
  manager on the report, inside the date folder DD_MM_YY of a calendar date, which exists,
  inside a folder of the world: the program creates the date folder before it saves into
  it and writes nowhere else.\<close>

theorem reachable_reports_placed:
  assumes "reachable env ids a"
  shows "reports_placed (world a)"
  using assms
proof (induction rule: reachable.induct)
  case (start today w)
  then show ?case by (simp add: init_state_def reports_placed_def)
next
  case (event a e)
  then show ?case
    by (cases e) (simp_all add: select_folder_def reports_placed_generate_followups)
qed

theorem reachable_reports_placed_witness:
  "reachable (\<lambda>_. example_env) [''7'']
     (run_events (\<lambda>_. example_env) [''7''] (init_state (Date 2024 3 13) \<lparr>dirs = [''out''], files = [], messages = []\<rparr>)
        [TypeToken ''tok'', BrowseFolder ''out'', ClickGenerate]) \<and>
   reports_placed (world (run_events (\<lambda>_. example_env) [''7'']
     (init_state (Date 2024 3 13) \<lparr>dirs = [''out''], files = [], messages = []\<rparr>)
        [TypeToken ''tok'', BrowseFolder ''out'', ClickGenerate]))"
proof -
  have h: "reachable (\<lambda>_. example_env) [''7'']
     (run_events (\<lambda>_. example_env) [''7''] (init_state (Date 2024 3 13) \<lparr>dirs = [''out''], files = [], messages = []\<rparr>)
        [TypeToken ''tok'', BrowseFolder ''out'', ClickGenerate])"
    by (rule reachable_run_events [OF example_session]) simp
  show ?thesis using reachable_reports_placed [OF h] h by blast
qed

end
