(* ===== verification/Spec2Isabelle.thy ===== *)
theory Spec2Isabelle
  imports Layout App
begin

text \<open>
  \<^bold>\<open>Verification development of the follow-up report generator.\<close>

  The program (\<open>src/\<close>) produces, for each manager of a call centre, an image with the
  week's and the month's call statistics up to a reference date picked in a GUI.
  \<^item> The GUI script \<open>src/unnamed/part_000\<close> (\<open>generate_followups\<close>, \<open>submit\<close>,
    \<open>create_date_folder\<close>) checks the token and the output folder and runs every manager.
  \<^item> \<open>src/data_handling.py\<close> fetches the hourly records of the month
    (\<open>request_manager_stats\<close>), aggregates them per UTC-3 day (\<open>get_stats\<close>), and computes
    the worked dates of the week, targets, sums, indicator colours and date labels
    (\<open>get_worked_dates\<close> \<dots> \<open>indicator_circle\<close>), re-parsing the reference date string
    \<open>MM/DD/YY\<close> in several ways (\<open>format_date\<close>, \<open>get_weekday\<close>, \<open>get_monday_date\<close>,
    \<open>strptime\<close>).
  \<^item> \<open>src/image_editing.py\<close> (\<open>write_stats\<close>) skips a manager without data on the reference
    date and otherwise draws the figures on a template and saves it.
  \<^item> \<open>src/variables.py\<close> holds the month and weekday labels, the daily yaware target and
    the pixel positions of the template's cells.

  \<^bold>\<open>Theories.\<close>
  \<^item> \<open>Prelude\<close>: Python exceptions as values (\<open>py_error + 'a\<close>, \<open>rbind\<close>), dictionaries as
    association lists with distinct keys (\<open>dict_update_with\<close>, \<open>py_setitem\<close>,
    \<open>py_getitem\<close>), list lemmas shared by the components.
  \<^item> \<open>Py_Strings\<close>, \<open>Calendar\<close>: the parts of \<open>str\<close>, \<open>int\<close> and \<open>datetime\<close> the program
    calls, after CPython's \<open>_pydatetime\<close> (dates, \<open>toordinal\<close>, \<open>weekday\<close>, date minus
    days, \<open>str(date)\<close>). These are library models, not program code.
  \<^item> \<open>Date_Formats\<close>: \<open>format_date\<close>, \<open>api_date_format\<close>, \<open>get_weekday\<close>,
    \<open>get_monday_date\<close> (\<open>data_handling.py\<close> 10--32) and \<open>strptime("%m/%d/%y")\<close>.
  \<^item> \<open>Calculator\<close>: \<open>month_targets\<close>, \<open>get_worked_dates\<close>, \<open>calc_week_targets\<close>,
    \<open>calc_week_results\<close>, \<open>get_daily_results\<close>, \<open>format_worked_dates\<close>,
    \<open>indicator_circle\<close> (113--196) over statistics of type \<open>stats\<close>, and the interface
    \<open>stats_inv\<close> the aggregator establishes.
  \<^item> \<open>Aggregator\<close>: \<open>request_manager_stats\<close> and \<open>get_stats\<close> (52--109): timestamp
    parsing, the Kyiv-to-UTC-3 shift of pytz, the \<open>defaultdict\<close> aggregation and the
    month-to-date window; the API is a function argument.
  \<^item> \<open>Report\<close>: \<open>request_manager_name\<close> and \<open>write_stats\<close>; the result is the saved
    path and every text drawn.
  \<^item> \<open>Runner\<close>: \<open>generate_followups\<close>, \<open>submit\<close>, \<open>create_date_folder\<close> as state
    transformers on directories, saved files and message boxes.
  \<^item> \<open>Layout\<close>: the position tables of \<open>variables.py\<close> (lines 12--82),
    \<open>draw_text_centered\<close> and \<open>paste_circle_image\<close> (\<open>image_editing.py\<close> 12--25), and the
    drawing calls of \<open>write_stats\<close> (52--85) as a list of drawing operations
    (\<open>draw_report\<close>); the width of a text in the font is a parameter, and Python's
    \<open>round\<close> is modelled on \<open>rat\<close>, half to even.
  \<^item> \<open>App\<close>: the tkinter window (\<open>part_000\<close> 53--56, 71--103) as a state machine: the
    entries, the folder variable and the calendar date as a record, the user's actions as
    a datatype of events, \<open>handle_event\<close> as the step, and \<open>reachable\<close> as an inductive
    set of session states; \<open>reports_placed\<close> is the invariant of the saved files.

  \<^bold>\<open>What is proved\<close> (claims C1--C24 of the manifest). The worked dates are exactly the
  week's dates with data when no day from Tuesday to the reference date is missing (C1);
  in general they contain the week's dates with data, are keys, ascending and at most
  weekday+1 (C3), and they reach outside the week exactly when such a day is missing and
  the month has data before Monday (C4); the skip guard of \<open>write_stats\<close> is "the
  statistics contain the reference date" (C2); the sums, indicator colours and labels
  (C5--C7); the date parsers agree on 2000--2068 and disagree from 2069 on (C8, C9);
  \<open>get_stats\<close> refines the spec's per-day sums and establishes the calculator's interface
  (C10, C11), and its error paths (C12, C13); the UTC-3 day of a Kyiv wall time is the
  day of the instant five (summer: six) hours earlier, with \<open>OverflowError\<close> exactly on
  the first and last day of \<open>datetime\<close>'s range (C14); the yaware target (C15); a run
  processes managers independently (C16), two managers whose name lookup fails
  overwrite one file (C17), and reports are saved only for managers with data (C18); the
  date labels round-trip through \<open>write_stats\<close>'s split (C19), and \<open>write_stats\<close> cannot
  raise on the aggregator's output except for a malformed name response (C20). A text no
  wider than its cell is drawn inside it (C21); drawing a report never raises a
  \<open>KeyError\<close> on the position tables and issues a fixed number of operations per date and
  per day (C22); the daily columns are the figures of the worked dates in the order of
  their labels (C23). In every state of a GUI session, by rule induction over
  \<open>reachable\<close>, each saved report is the file named after its manager inside an existing
  date folder \<open>DD_MM_YY\<close> of a folder of the world (C24).

  \<^bold>\<open>Bounds.\<close> No fuel is used: every loop of the program is a structural recursion over a
  list (the \<open>for\<close> loops over records, dates and manager ids), so every definition is
  total by construction and termination needs no separate lemma; the GUI's main loop is
  not a function but the relation \<open>reachable\<close>, closed under any finite sequence of
  events. Dates are checked against \<open>datetime\<close>'s range 1..9999; the yaware target is
  exact below the \<open>timedelta\<close> bound of 999999999 days; integers are unbounded \<open>int\<close>
  as in Python.

  \<^bold>\<open>Not modelled.\<close> HTTP itself (only the outcome of each request: records or names, a
  \<open>RequestException\<close>, or a body without the expected keys); JSON values other than
  null, integers and strings; the pixels PIL writes (fonts, the template file, the image
  content: only the drawing calls are modelled); the widgets' geometry (\<open>grid\<close>,
  \<open>pack\<close>) and \<open>time.sleep\<close>; the contents of the module \<open>managers_ids\<close>, which is not in
  the sources (the ids are a parameter); Kyiv's time zone history before 1996; \<open>strptime\<close>'s
  acceptance of locale-specific input beyond ASCII digits and whitespace. The failures of
  the file operations of \<open>write_stats\<close> (\<open>Image.open\<close> of the template and the circles,
  \<open>os.makedirs\<close>, \<open>template.save\<close>) are not modelled: a manager name containing \<open>/\<close>
  names a subdirectory that does not exist, and the real save raises there, so C20 and
  C24 hold of the computation up to the save. The reference string is the zero-padded
  \<open>MM/DD/YY\<close>; tkcalendar's default en_US pattern \<open>M/d/yy\<close> drops the padding, which the
  code's \<open>zfill\<close> and \<open>int\<close> undo, so the claims cover the padded form only.
\<close>

end
